(* ===== verification/Transport_Prelude.thy ===== *)
theory Transport_Prelude
  imports Main "HOL-Library.Word"
begin

text \<open>
  Shared ground of the development: the machine types of the C++ sources, the integer casts
  the sources apply to sizes, caller-owned buffers behind nullable pointers, and the lemmas
  on lists and words that every component uses.

  A pointer argument (\<^verbatim>\<open>std::uint8_t* output\<close>) is a \<open>buffer\<close>: \<open>None\<close> is the null pointer,
  \<open>Some xs\<close> is memory that holds \<open>xs\<close> from the pointer on. An operation that writes through
  the pointer returns the memory afterwards, so "nothing outside the buffer is touched" is a
  statement about the returned list.
\<close>

section \<open>Machine types\<close>

type_synonym byte = "8 word"
type_synonym uint16 = "16 word"
type_synonym uint32 = "32 word"
type_synonym uint64 = "64 word"
type_synonym size_t = "64 word"
type_synonym buffer = "byte list option"

named_theorems cast_simps \<open>casts between size_t, int and ssize_t on values they preserve\<close>
named_theorems buffer_simps \<open>reads and writes through caller-owned pointers\<close>

subsection \<open>The casts of the sources\<close>

text \<open>
  \<open>size_to_int\<close> is \<^verbatim>\<open>static_cast<int>(n)\<close> of a 64-bit \<^verbatim>\<open>std::size_t\<close>: the low 32 bits, read as
  two's complement. \<open>int_to_size\<close> is the conversion of an \<^verbatim>\<open>int\<close> to a \<^verbatim>\<open>size_t\<close> parameter or
  variable, which sign-extends. \<open>ssize_to_int\<close> is the initialisation of an \<^verbatim>\<open>int\<close> from the
  64-bit \<^verbatim>\<open>ssize_t\<close> a system call returns.
\<close>

definition size_to_int :: "size_t \<Rightarrow> int" where
  "size_to_int n = sint (ucast n :: 32 word)"

definition int_to_size :: "int \<Rightarrow> size_t" where
  "int_to_size i = word_of_int i"

definition ssize_to_int :: "int \<Rightarrow> int" where
  "ssize_to_int r = sint (word_of_int r :: 32 word)"

lemma sint32_word_of_int_small:
  "- (2 ^ 31) \<le> i \<Longrightarrow> i < 2 ^ 31 \<Longrightarrow> sint (word_of_int i :: 32 word) = i"
  by (simp add: signed_of_int signed_take_bit_int_eq_self)

lemma ssize_to_int_small [cast_simps]:
  "- (2 ^ 31) \<le> r \<Longrightarrow> r < 2 ^ 31 \<Longrightarrow> ssize_to_int r = r"
  by (simp add: ssize_to_int_def sint32_word_of_int_small)

lemma uint_less_of_unat: "unat n < 2 ^ 31 \<Longrightarrow> uint (n :: size_t) < 2 ^ 31"
  using of_nat_less_iff [where 'a = int, of "unat n" "2 ^ 31"] by simp

lemma size_to_int_small [cast_simps]:
  assumes "unat n < 2 ^ 31"
  shows "size_to_int n = uint n"
proof -
  have "(ucast n :: 32 word) = word_of_int (uint n)"
    by (simp add: unsigned_ucast_eq)
  moreover have "- (2 ^ 31) \<le> uint n" and "uint n < 2 ^ 31"
    using uint_less_of_unat [OF assms] uint_nonnegative [of n] by linarith+
  ultimately show ?thesis
    unfolding size_to_int_def by (simp only: sint32_word_of_int_small)
qed

lemma int_to_size_uint [cast_simps]: "int_to_size (uint n) = n"
  by (simp add: int_to_size_def)

lemma int_to_size_0 [simp]: "int_to_size 0 = 0"
  by (simp add: int_to_size_def)

lemma int_to_size_of_nat [cast_simps]: "int_to_size (int k) = of_nat k"
  by (simp add: int_to_size_def)

lemma size_cast_id [cast_simps]:
  "unat n < 2 ^ 31 \<Longrightarrow> int_to_size (size_to_int n) = n"
  by (simp only: size_to_int_small int_to_size_uint)

lemma unat_of_nat_size:
  "k < 2 ^ 64 \<Longrightarrow> unat (of_nat k :: size_t) = k"
  by (simp add: unat_of_nat)

lemma unat_of_nat_le:
  assumes "k \<le> unat (n :: size_t)"
  shows "unat (of_nat k :: size_t) = k"
proof -
  have "unat n < 2 ^ 64" using unsigned_less [of n] by simp
  with assms show ?thesis by (intro unat_of_nat_size) linarith
qed

lemma of_nat_le_size:
  "k \<le> unat (n :: size_t) \<Longrightarrow> of_nat k \<le> n"
  by (simp add: word_le_nat_alt unat_of_nat_le)

section \<open>Caller-owned buffers\<close>

text \<open>
  \<open>copy_to bs out\<close>: the memory behind \<open>out\<close> after the bytes \<open>bs\<close> were stored from its start
  (\<^verbatim>\<open>std::copy\<close>, or a system call filling the buffer). A store of more bytes than the memory
  holds would show as a longer list. \<open>mem_of\<close> is what a read through the pointer sees.
\<close>

fun copy_to :: "byte list \<Rightarrow> buffer \<Rightarrow> buffer" where
  "copy_to bs None = None"
| "copy_to bs (Some buf) = Some (bs @ drop (length bs) buf)"

definition mem_of :: "buffer \<Rightarrow> byte list" where
  "mem_of p = (case p of None \<Rightarrow> [] | Some buf \<Rightarrow> buf)"

lemma mem_of_simps [simp]: "mem_of None = []" "mem_of (Some buf) = buf"
  by (simp_all add: mem_of_def)

lemma copy_to_Nil [simp]: "copy_to [] out = out"
  by (cases out) simp_all

lemma copy_to_length [buffer_simps]:
  "length bs \<le> length buf \<Longrightarrow> length (mem_of (copy_to bs (Some buf))) = length buf"
  by simp

lemma copy_to_prefix [buffer_simps]: "take (length bs) (mem_of (copy_to bs (Some buf))) = bs"
  by simp

lemma copy_to_rest [buffer_simps]:
  "drop (length bs) (mem_of (copy_to bs (Some buf))) = drop (length bs) buf"
  by simp

text \<open>
  \<open>buffer_frame n k out out'\<close>: storing \<open>k\<close> bytes into a buffer of which the caller granted \<open>n\<close>
  bytes stayed inside the grant and left the rest of the memory alone.
\<close>

definition buffer_frame :: "size_t \<Rightarrow> size_t \<Rightarrow> buffer \<Rightarrow> buffer \<Rightarrow> bool" where
  "buffer_frame n k out out' \<longleftrightarrow>
     k \<le> n \<and> (out' = None \<longleftrightarrow> out = None) \<and>
     length (mem_of out') = length (mem_of out) \<and>
     drop (unat k) (mem_of out') = drop (unat k) (mem_of out)"

lemma buffer_frame_refl [intro, simp]: "buffer_frame n 0 out out"
  by (simp add: buffer_frame_def)

lemma buffer_frame_copy [intro]:
  assumes "length bs \<le> unat n" and "unat n \<le> length buf" and "unat k = length bs"
  shows "buffer_frame n k (Some buf) (copy_to bs (Some buf))"
  using assms by (auto simp: buffer_frame_def word_le_nat_alt)

lemmas buffer_frame_store [intro] = buffer_frame_copy [unfolded copy_to.simps]

lemma unat_ucast_uint32 [simp]: "unat (ucast (d :: uint32) :: uint64) = unat d"
proof -
  have "unat d < 2 ^ 64" using unsigned_less [of d, where ?'a = nat] by simp
  then show ?thesis by (simp add: unsigned_ucast_eq take_bit_nat_eq_self)
qed

lemma unat_mod_2_64 [simp]: "unat (v :: uint64) mod 18446744073709551616 = unat v"
  using unsigned_less [of v, where ?'a = nat] by simp

section \<open>Lists\<close>

lemma take_append_drop_shift:
  "take (i + j) xs = take i xs @ take j (drop i xs)"
  by (simp add: take_add)

section \<open>Strings\<close>

text \<open>
  \<open>string_find pat s\<close> is \<^verbatim>\<open>s.find(pat)\<close>: the index of the first occurrence, \<open>None\<close> for \<^verbatim>\<open>npos\<close>.
  \<open>CR\<close>, \<open>LF\<close> and \<open>BACKSLASH\<close> name characters that string literals cannot hold plainly.
\<close>

abbreviation CR :: char where "CR \<equiv> CHR 0x0D"
abbreviation LF :: char where "LF \<equiv> CHR 0x0A"
abbreviation BACKSLASH :: char where "BACKSLASH \<equiv> CHR 0x5C"

fun string_find :: "string \<Rightarrow> string \<Rightarrow> nat option" where
  "string_find pat [] = (if pat = [] then Some 0 else None)"
| "string_find pat (x # xs) =
     (if take (length pat) (x # xs) = pat then Some 0 else map_option Suc (string_find pat xs))"

lemma string_find_Some:
  "string_find pat s = Some i \<Longrightarrow>
   take (length pat) (drop i s) = pat \<and> i + length pat \<le> length s \<and>
   (\<forall>j < i. take (length pat) (drop j s) \<noteq> pat)"
proof (induction s arbitrary: i)
  case Nil
  then show ?case by (simp split: if_splits)
next
  case (Cons x xs)
  show ?case
  proof (cases "take (length pat) (x # xs) = pat")
    case True
    then have "length pat \<le> length (x # xs)" by (metis length_take min.cobounded1)
    with True Cons.prems show ?thesis by auto
  next
    case False
    with Cons.prems obtain j where j: "string_find pat xs = Some j" "i = Suc j" by auto
    show ?thesis using Cons.IH [OF j(1)] j(2) False by (auto simp: less_Suc_eq_0_disj)
  qed
qed

lemma string_find_skip:
  assumes "c \<notin> set p"
  shows "string_find (c # cs) (p @ q) = map_option ((+) (length p)) (string_find (c # cs) q)"
  using assms by (cases "string_find (c # cs) q"; induction p) auto

end
