(* ===== verification/Transport_Status.thy ===== *)
theory Transport_Status
  imports Transport_Prelude
begin

text \<open>
  The status model of \<^verbatim>\<open>transport_status.hpp\<close>: the scoped enum, its underlying \<^verbatim>\<open>int\<close> value and
  the diagnostic strings.

  A C++ scoped enum has \<^verbatim>\<open>int\<close> as its underlying type and can hold any \<^verbatim>\<open>int\<close> through
  \<^verbatim>\<open>static_cast\<close>. The two constructors \<open>StatusAbove\<close> and \<open>StatusBelow\<close> are the values outside the
  enumerators (13 and up, -1 and down), so that the datatype is in bijection with the values
  of the underlying type and the fall-through of \<^verbatim>\<open>ToString\<close> is a branch of the model.
\<close>

datatype TransportStatus =
    Ok
  | InvalidArgument
  | NotOpen
  | AlreadyOpen
  | OpenFailed
  | ReadFailed
  | WriteFailed
  | Timeout
  | ConnectionClosed
  | WouldBlock
  | OutputBufferTooSmall
  | UnsupportedFeature
  | InternalError
  | StatusAbove nat
  | StatusBelow nat

fun ToString :: "TransportStatus \<Rightarrow> string" where
  "ToString Ok = ''Ok''"
| "ToString InvalidArgument = ''InvalidArgument''"
| "ToString NotOpen = ''NotOpen''"
| "ToString AlreadyOpen = ''AlreadyOpen''"
| "ToString OpenFailed = ''OpenFailed''"
| "ToString ReadFailed = ''ReadFailed''"
| "ToString WriteFailed = ''WriteFailed''"
| "ToString Timeout = ''Timeout''"
| "ToString ConnectionClosed = ''ConnectionClosed''"
| "ToString WouldBlock = ''WouldBlock''"
| "ToString OutputBufferTooSmall = ''OutputBufferTooSmall''"
| "ToString UnsupportedFeature = ''UnsupportedFeature''"
| "ToString InternalError = ''InternalError''"
| "ToString (StatusAbove _) = ''Unknown''"
| "ToString (StatusBelow _) = ''Unknown''"

subsection \<open>The underlying value\<close>

text \<open>\<^verbatim>\<open>static_cast<int>(status)\<close> and \<^verbatim>\<open>static_cast<TransportStatus>(value)\<close>.\<close>

fun status_value :: "TransportStatus \<Rightarrow> int" where
  "status_value Ok = 0"
| "status_value InvalidArgument = 1"
| "status_value NotOpen = 2"
| "status_value AlreadyOpen = 3"
| "status_value OpenFailed = 4"
| "status_value ReadFailed = 5"
| "status_value WriteFailed = 6"
| "status_value Timeout = 7"
| "status_value ConnectionClosed = 8"
| "status_value WouldBlock = 9"
| "status_value OutputBufferTooSmall = 10"
| "status_value UnsupportedFeature = 11"
| "status_value InternalError = 12"
| "status_value (StatusAbove k) = 13 + int k"
| "status_value (StatusBelow k) = - 1 - int k"

definition status_of_value :: "int \<Rightarrow> TransportStatus" where
  "status_of_value v =
     (if v < 0 then StatusBelow (nat (- 1 - v))
      else if 13 \<le> v then StatusAbove (nat (v - 13))
      else [Ok, InvalidArgument, NotOpen, AlreadyOpen, OpenFailed, ReadFailed, WriteFailed,
            Timeout, ConnectionClosed, WouldBlock, OutputBufferTooSmall, UnsupportedFeature,
            InternalError] ! nat v)"

lemma status_of_value_inverse [simp]: "status_of_value (status_value s) = s"
  by (cases s) (simp_all add: status_of_value_def)

lemma int_below_13_cases:
  "(0::int) \<le> v \<Longrightarrow> v < 13 \<Longrightarrow>
     v = 0 \<or> v = 1 \<or> v = 2 \<or> v = 3 \<or> v = 4 \<or> v = 5 \<or> v = 6 \<or> v = 7 \<or> v = 8 \<or> v = 9 \<or>
     v = 10 \<or> v = 11 \<or> v = 12"
  by arith

lemma status_value_inverse [simp]: "status_value (status_of_value v) = v"
proof -
  consider "v < 0" | "13 \<le> v" | "0 \<le> v" "v < 13" by linarith
  then show ?thesis
  proof cases
    case 3
    from int_below_13_cases [OF 3] show ?thesis
      by (elim disjE) (simp_all add: status_of_value_def)
  qed (simp_all add: status_of_value_def)
qed

definition named_status :: "TransportStatus \<Rightarrow> bool" where
  "named_status s \<longleftrightarrow> 0 \<le> status_value s \<and> status_value s \<le> 12"

lemma named_status_iff: "named_status s \<longleftrightarrow> ToString s \<noteq> ''Unknown''"
  by (cases s) (simp_all add: named_status_def)

lemma ToString_inj_on_named:
  "named_status s \<Longrightarrow> named_status t \<Longrightarrow> ToString s = ToString t \<Longrightarrow> s = t"
  by (cases s; cases t) (simp_all add: named_status_def)

end
