(* ===== verification/Transport_Interfaces.thy ===== *)
theory Transport_Interfaces
  imports Transport_Status
begin

text \<open>
  The abstract interfaces of the library, and what they promise.

  A C++ class with virtual methods is a record of its methods over a state (\<open>'s\<close> is the object
  together with whatever it acts on): \<open>IByteStream\<close>, \<open>IDatagramTransport\<close>, \<open>ITimerScheduler\<close>.
  The comments of the headers are the contract; the locales \<open>endpoint\<close>, \<open>byte_stream\<close>,
  \<open>datagram_transport\<close> and \<open>timer_scheduler\<close> state it as laws over such a record, and their lemmas
  are what a client may rely on. Every implementation is an interpretation, in its own theory.

  A method that can loop for ever returns \<open>None\<close> in that case (\<open>WriteAll\<close>).
\<close>

section \<open>Method tables\<close>

type_synonym read_result = "TransportStatus \<times> size_t \<times> buffer"

record 's IByteStream =
  vOpen :: "'s \<Rightarrow> TransportStatus \<times> 's"
  vClose :: "'s \<Rightarrow> TransportStatus \<times> 's"
  vIsOpen :: "'s \<Rightarrow> bool"
  vReadSome :: "buffer \<Rightarrow> size_t \<Rightarrow> 's \<Rightarrow> read_result \<times> 's"
  vWriteAll :: "buffer \<Rightarrow> size_t \<Rightarrow> 's \<Rightarrow> (TransportStatus \<times> 's) option"

record 's IDatagramTransport =
  dOpen :: "'s \<Rightarrow> TransportStatus \<times> 's"
  dClose :: "'s \<Rightarrow> TransportStatus \<times> 's"
  dIsOpen :: "'s \<Rightarrow> bool"
  dSend :: "buffer \<Rightarrow> size_t \<Rightarrow> 's \<Rightarrow> TransportStatus \<times> 's"
  dReceive :: "buffer \<Rightarrow> size_t \<Rightarrow> 's \<Rightarrow> read_result \<times> 's"

record TransportDuration =
  milliseconds :: uint32

record 's ITimerScheduler =
  tMonotonicMilliseconds :: "'s \<Rightarrow> TransportStatus \<times> uint64"
  tSleepFor :: "TransportDuration \<Rightarrow> 's \<Rightarrow> TransportStatus \<times> 's"

text \<open>
  The caller's side of a read: the memory behind a non-null pointer is at least as large as
  the size that is passed with it.
\<close>

definition grants :: "buffer \<Rightarrow> size_t \<Rightarrow> bool" where
  "grants out n \<longleftrightarrow> (case out of None \<Rightarrow> True | Some buf \<Rightarrow> unat n \<le> length buf)"

lemma grants_simps [simp]:
  "grants None n" "grants (Some buf) n \<longleftrightarrow> unat n \<le> length buf"
  by (simp_all add: grants_def)

section \<open>Lifecycle\<close>

text \<open>
  Open, Close and IsOpen behave alike in both interfaces and in the TCP listener: opening
  twice is refused without effect, an attempt to open leaves the endpoint open exactly when
  it reports \<open>Ok\<close>, closing always succeeds, and closing a closed endpoint does nothing.
\<close>

locale endpoint =
  fixes eOpen :: "'s \<Rightarrow> TransportStatus \<times> 's"
    and eClose :: "'s \<Rightarrow> TransportStatus \<times> 's"
    and eIsOpen :: "'s \<Rightarrow> bool"
    and invar :: "'s \<Rightarrow> bool"
  assumes open_again: "invar s \<Longrightarrow> eIsOpen s \<Longrightarrow> eOpen s = (AlreadyOpen, s)"
    and open_result: "invar s \<Longrightarrow> \<not> eIsOpen s \<Longrightarrow> eOpen s = (st, s') \<Longrightarrow> eIsOpen s' \<longleftrightarrow> st = Ok"
    and close_result: "invar s \<Longrightarrow> eClose s = (st, s') \<Longrightarrow> st = Ok \<and> \<not> eIsOpen s'"
    and close_closed: "invar s \<Longrightarrow> \<not> eIsOpen s \<Longrightarrow> eClose s = (Ok, s)"
    and invar_open: "invar s \<Longrightarrow> eOpen s = (st, s') \<Longrightarrow> invar s'"
    and invar_close: "invar s \<Longrightarrow> eClose s = (st, s') \<Longrightarrow> invar s'"
begin

lemma close_idempotent:
  assumes "invar s" and "eClose s = (st, s')"
  shows "eClose s' = (Ok, s')"
  using assms close_result invar_close close_closed by blast

lemma open_open:
  assumes "invar s" and "eOpen s = (Ok, s')"
  shows "eOpen s' = (AlreadyOpen, s')"
proof -
  have "\<not> eIsOpen s" using assms open_again by force
  with assms have "eIsOpen s'" using open_result by blast
  with assms show ?thesis using open_again invar_open by blast
qed

lemma open_close_closed:
  assumes "invar s" and "eOpen s = (st, s1)" and "eClose s1 = (st', s2)"
  shows "st' = Ok \<and> \<not> eIsOpen s2"
  using assms invar_open close_result by blast

end

section \<open>Byte streams\<close>

text \<open>
  \<^verbatim>\<open>byte_stream.hpp\<close>. The bound \<open>2 ^ 31\<close> on the size of one read is the range of the \<^verbatim>\<open>int\<close> the
  implementations convert it to; beyond it the socket streams do not keep the contract (see
  the theory of the TCP stream).
\<close>

locale byte_stream = endpoint "vOpen S" "vClose S" "vIsOpen S" invar
  for S :: "'s IByteStream" and invar :: "'s \<Rightarrow> bool" +
  assumes read_closed:
      "invar s \<Longrightarrow> \<not> vIsOpen S s \<Longrightarrow> vReadSome S out n s = ((NotOpen, 0, out), s)"
    and read_null:
      "invar s \<Longrightarrow> vIsOpen S s \<Longrightarrow> n \<noteq> 0 \<Longrightarrow> vReadSome S None n s = ((InvalidArgument, 0, None), s)"
    and read_frame:
      "invar s \<Longrightarrow> grants out n \<Longrightarrow> unat n < 2 ^ 31 \<Longrightarrow>
       vReadSome S out n s = ((st, k, out'), s') \<Longrightarrow>
       buffer_frame n k out out' \<and> (st \<noteq> Ok \<longrightarrow> k = 0 \<and> out' = out)"
    and read_open:
      "invar s \<Longrightarrow> vReadSome S out n s = ((st, k, out'), s') \<Longrightarrow>
       vIsOpen S s' \<longrightarrow> vIsOpen S s"
    and read_stays_open:
      "invar s \<Longrightarrow> vReadSome S out n s = ((st, k, out'), s') \<Longrightarrow>
       st \<noteq> ConnectionClosed \<Longrightarrow> vIsOpen S s' \<longleftrightarrow> vIsOpen S s"
    and write_closed:
      "invar s \<Longrightarrow> \<not> vIsOpen S s \<Longrightarrow> vWriteAll S inp n s = Some (NotOpen, s)"
    and write_null:
      "invar s \<Longrightarrow> vIsOpen S s \<Longrightarrow> n \<noteq> 0 \<Longrightarrow> vWriteAll S None n s = Some (InvalidArgument, s)"
    and write_open:
      "invar s \<Longrightarrow> vWriteAll S inp n s = Some (st, s') \<Longrightarrow> vIsOpen S s' \<longleftrightarrow> vIsOpen S s"
    and invar_read: "invar s \<Longrightarrow> vReadSome S out n s = (r, s') \<Longrightarrow> invar s'"
    and invar_write: "invar s \<Longrightarrow> vWriteAll S inp n s = Some (st, s') \<Longrightarrow> invar s'"

subsection \<open>Client sessions\<close>

text \<open>
  What a client does with a stream: a sequence of calls, each with the status it returned.
  A call that never returns ends the session (\<open>None\<close>).
\<close>

datatype stream_call =
    CallOpen
  | CallClose
  | CallReadSome buffer size_t
  | CallWriteAll buffer size_t

fun stream_step :: "'s IByteStream \<Rightarrow> stream_call \<Rightarrow> 's \<Rightarrow> (TransportStatus \<times> 's) option" where
  "stream_step S CallOpen s = Some (vOpen S s)"
| "stream_step S CallClose s = Some (vClose S s)"
| "stream_step S (CallReadSome out n) s = (case vReadSome S out n s of ((st, _, _), s') \<Rightarrow> Some (st, s'))"
| "stream_step S (CallWriteAll inp n) s = vWriteAll S inp n s"

fun stream_run :: "'s IByteStream \<Rightarrow> stream_call list \<Rightarrow> 's \<Rightarrow> ((stream_call \<times> TransportStatus) list \<times> 's) option" where
  "stream_run S [] s = Some ([], s)"
| "stream_run S (c # cs) s =
     (case stream_step S c s of
        None \<Rightarrow> None
      | Some (st, s1) \<Rightarrow>
          (case stream_run S cs s1 of
             None \<Rightarrow> None
           | Some (log, s2) \<Rightarrow> Some ((c, st) # log, s2)))"

text \<open>
  \<open>opened_last log\<close>: the log holds a successful Open with no Close after it. This is the header's
  condition for \<^verbatim>\<open>IsOpen\<close>: true only after a successful Open and before Close.
\<close>

definition opened_last :: "(stream_call \<times> TransportStatus) list \<Rightarrow> bool" where
  "opened_last log \<longleftrightarrow>
     (\<exists>before after. log = before @ (CallOpen, Ok) # after \<and> (\<forall>st. (CallClose, st) \<notin> set after))"

lemma opened_last_Cons_open:
  "\<forall>st. (CallClose, st) \<notin> set log \<Longrightarrow> opened_last ((CallOpen, Ok) # log)"
  unfolding opened_last_def by (rule exI [of _ "[]"]) simp

lemma opened_last_Cons [intro]: "opened_last log \<Longrightarrow> opened_last (e # log)"
  unfolding opened_last_def by (metis append_Cons)

lemma stream_run_ConsE:
  assumes "stream_run S (c # cs) s = Some (log, s2)"
  obtains st s1 log' where "stream_step S c s = Some (st, s1)"
    and "stream_run S cs s1 = Some (log', s2)" and "log = (c, st) # log'"
  using assms by (auto split: option.splits prod.splits)

text \<open>
  The same session with all that its calls return: for a read also the count and the caller's memory. Forgetting these
  gives the session above.
\<close>

datatype 'st call_result =
    Returned (result_status: 'st)
  | Received (result_status: 'st) size_t buffer

fun stream_exec_step ::
  "'s IByteStream \<Rightarrow> stream_call \<Rightarrow> 's \<Rightarrow> (TransportStatus call_result \<times> 's) option" where
  "stream_exec_step S CallOpen s = Some (map_prod Returned id (vOpen S s))"
| "stream_exec_step S CallClose s = Some (map_prod Returned id (vClose S s))"
| "stream_exec_step S (CallReadSome out n) s =
     (case vReadSome S out n s of ((st, k, out'), s') \<Rightarrow> Some (Received st k out', s'))"
| "stream_exec_step S (CallWriteAll inp n) s = map_option (map_prod Returned id) (vWriteAll S inp n s)"

fun stream_exec ::
  "'s IByteStream \<Rightarrow> stream_call list \<Rightarrow> 's \<Rightarrow> (TransportStatus call_result list \<times> 's) option" where
  "stream_exec S [] s = Some ([], s)"
| "stream_exec S (c # cs) s =
     (case stream_exec_step S c s of
        None \<Rightarrow> None
      | Some (res, s1) \<Rightarrow>
          (case stream_exec S cs s1 of None \<Rightarrow> None | Some (rs, s2) \<Rightarrow> Some (res # rs, s2)))"

lemma stream_step_exec:
  "stream_step S c s = map_option (map_prod result_status id) (stream_exec_step S c s)"
  by (cases c) (simp_all add: option.map_comp prod.map_comp comp_def split: prod.split, simp add: option.map_id0 prod.map_id0 id_def [symmetric])

lemma stream_run_exec:
  assumes "stream_exec S cs s = Some (rs, s')"
  shows "stream_run S cs s = Some (zip cs (map result_status rs), s')"
  using assms
proof (induction cs arbitrary: s rs)
  case (Cons c cs)
  from Cons.prems obtain res s1 rs' where "stream_exec_step S c s = Some (res, s1)"
    "stream_exec S cs s1 = Some (rs', s')" "rs = res # rs'"
    by (auto split: option.splits prod.splits)
  with Cons.IH [of s1 rs'] show ?case by (simp add: stream_step_exec)
qed simp

context byte_stream
begin

lemma step_invar:
  "invar s \<Longrightarrow> stream_step S c s = Some (st, s') \<Longrightarrow> invar s'"
  by (cases c)
    (auto split: prod.splits dest: invar_open invar_close invar_read invar_write)

lemma run_invar:
  "invar s \<Longrightarrow> stream_run S cs s = Some (log, s') \<Longrightarrow> invar s'"
  by (induction cs arbitrary: s log) (auto elim!: stream_run_ConsE intro: step_invar simp del: stream_run.simps(2))

lemma step_opens:
  assumes "invar s" and "stream_step S c s = Some (st, s')" and "vIsOpen S s'" and "\<not> vIsOpen S s"
  shows "c = CallOpen \<and> st = Ok"
proof (cases c)
  case CallOpen
  with assms show ?thesis using open_result [of s st s'] by simp
next
  case CallClose
  with assms show ?thesis using close_result [of s st s'] by simp
next
  case (CallReadSome out n)
  with assms show ?thesis using read_open [of s out n] by (auto split: prod.splits)
next
  case (CallWriteAll inp n)
  with assms show ?thesis using write_open [of s inp n st s'] by simp
qed

lemma run_open_cases:
  assumes "invar s" and "stream_run S cs s = Some (log, s')" and "vIsOpen S s'"
  shows "opened_last log \<or> (vIsOpen S s \<and> (\<forall>st. (CallClose, st) \<notin> set log))"
  using assms
proof (induction cs arbitrary: s log)
  case Nil
  then show ?case by simp
next
  case (Cons c cs)
  from Cons.prems(2) obtain st s1 log' where step: "stream_step S c s = Some (st, s1)"
    and run: "stream_run S cs s1 = Some (log', s')" and log: "log = (c, st) # log'"
    by (rule stream_run_ConsE)
  have inv1: "invar s1" using Cons.prems(1) step by (rule step_invar)
  from Cons.IH [OF inv1 run Cons.prems(3)] show ?case
  proof
    assume "opened_last log'"
    then show ?thesis unfolding log by blast
  next
    assume rest: "vIsOpen S s1 \<and> (\<forall>st. (CallClose, st) \<notin> set log')"
    show ?thesis
    proof (cases "vIsOpen S s")
      case True
      from rest have "c \<noteq> CallClose"
        using close_result [of s st s1] Cons.prems(1) step by auto
      with True rest show ?thesis unfolding log by simp
    next
      case False
      with step_opens [OF Cons.prems(1) step] rest have "c = CallOpen \<and> st = Ok" by blast
      with rest show ?thesis unfolding log by (simp add: opened_last_Cons_open)
    qed
  qed
qed

theorem is_open_only_after_open:
  assumes "invar s" and "\<not> vIsOpen S s" and "stream_run S cs s = Some (log, s')" and "vIsOpen S s'"
  shows "opened_last log"
  using run_open_cases [OF assms(1,3,4)] assms(2) by blast

lemma closed_step_refused:
  assumes "invar s" and "\<not> vIsOpen S s" and "c \<noteq> CallOpen"
  shows "\<exists>st. stream_step S c s = Some (st, s) \<and> (c \<noteq> CallClose \<longrightarrow> st = NotOpen)"
  using assms close_closed [of s] read_closed [of s] write_closed [of s] by (cases c) auto

end

section \<open>Datagrams\<close>

text \<open>
  \<^verbatim>\<open>datagram_transport.hpp\<close>. As for streams, sizes are bounded by the range of \<^verbatim>\<open>int\<close>.
\<close>

locale datagram_transport = endpoint "dOpen S" "dClose S" "dIsOpen S" invar
  for S :: "'s IDatagramTransport" and invar :: "'s \<Rightarrow> bool" +
  assumes send_closed:
      "invar s \<Longrightarrow> \<not> dIsOpen S s \<Longrightarrow> dSend S inp n s = (NotOpen, s)"
    and send_null:
      "invar s \<Longrightarrow> dIsOpen S s \<Longrightarrow> n \<noteq> 0 \<Longrightarrow> dSend S None n s = (InvalidArgument, s)"
    and send_open:
      "invar s \<Longrightarrow> dSend S inp n s = (st, s') \<Longrightarrow> dIsOpen S s' \<longleftrightarrow> dIsOpen S s"
    and receive_closed:
      "invar s \<Longrightarrow> \<not> dIsOpen S s \<Longrightarrow> dReceive S out n s = ((NotOpen, 0, out), s)"
    and receive_null:
      "invar s \<Longrightarrow> dIsOpen S s \<Longrightarrow> n \<noteq> 0 \<Longrightarrow> dReceive S None n s = ((InvalidArgument, 0, None), s)"
    and receive_frame:
      "invar s \<Longrightarrow> grants out n \<Longrightarrow> unat n < 2 ^ 31 \<Longrightarrow>
       dReceive S out n s = ((st, k, out'), s') \<Longrightarrow>
       buffer_frame n k out out' \<and> (st \<noteq> Ok \<longrightarrow> k = 0 \<and> out' = out)"
    and receive_open:
      "invar s \<Longrightarrow> dReceive S out n s = (r, s') \<Longrightarrow> dIsOpen S s' \<longleftrightarrow> dIsOpen S s"
    and invar_send: "invar s \<Longrightarrow> dSend S inp n s = (st, s') \<Longrightarrow> invar s'"
    and invar_receive: "invar s \<Longrightarrow> dReceive S out n s = (r, s') \<Longrightarrow> invar s'"

subsection \<open>Client sessions\<close>

datatype datagram_call =
    DgramOpen
  | DgramClose
  | DgramSend buffer size_t
  | DgramReceive buffer size_t

fun datagram_step :: "'s IDatagramTransport \<Rightarrow> datagram_call \<Rightarrow> 's \<Rightarrow> TransportStatus \<times> 's" where
  "datagram_step S DgramOpen s = dOpen S s"
| "datagram_step S DgramClose s = dClose S s"
| "datagram_step S (DgramSend inp n) s = dSend S inp n s"
| "datagram_step S (DgramReceive out n) s = (case dReceive S out n s of ((st, _, _), s') \<Rightarrow> (st, s'))"

fun datagram_run :: "'s IDatagramTransport \<Rightarrow> datagram_call list \<Rightarrow> 's \<Rightarrow> TransportStatus list \<times> 's" where
  "datagram_run S [] s = ([], s)"
| "datagram_run S (c # cs) s =
     (case datagram_step S c s of
        (st, s1) \<Rightarrow> (case datagram_run S cs s1 of (sts, s2) \<Rightarrow> (st # sts, s2)))"

fun datagram_exec_step ::
  "'s IDatagramTransport \<Rightarrow> datagram_call \<Rightarrow> 's \<Rightarrow> TransportStatus call_result \<times> 's" where
  "datagram_exec_step S DgramOpen s = map_prod Returned id (dOpen S s)"
| "datagram_exec_step S DgramClose s = map_prod Returned id (dClose S s)"
| "datagram_exec_step S (DgramSend inp n) s = map_prod Returned id (dSend S inp n s)"
| "datagram_exec_step S (DgramReceive out n) s =
     (case dReceive S out n s of ((st, k, out'), s') \<Rightarrow> (Received st k out', s'))"

fun datagram_exec ::
  "'s IDatagramTransport \<Rightarrow> datagram_call list \<Rightarrow> 's \<Rightarrow> TransportStatus call_result list \<times> 's" where
  "datagram_exec S [] s = ([], s)"
| "datagram_exec S (c # cs) s =
     (case datagram_exec_step S c s of
        (res, s1) \<Rightarrow> (case datagram_exec S cs s1 of (rs, s2) \<Rightarrow> (res # rs, s2)))"

lemma datagram_step_exec:
  "datagram_step S c s = map_prod result_status id (datagram_exec_step S c s)"
  by (cases c) (simp_all add: prod.map_comp comp_def split: prod.split)

lemma datagram_run_exec:
  "datagram_run S cs s = map_prod (map result_status) id (datagram_exec S cs s)"
  by (induction cs arbitrary: s) (simp_all add: datagram_step_exec split: prod.split)

context datagram_transport
begin

lemma dgram_step_invar: "invar s \<Longrightarrow> datagram_step S c s = (st, s') \<Longrightarrow> invar s'"
  by (cases c) (auto split: prod.splits dest: invar_open invar_close invar_send invar_receive)

lemma dgram_run_invar: "invar s \<Longrightarrow> datagram_run S cs s = (sts, s') \<Longrightarrow> invar s'"
  by (induction cs arbitrary: s sts) (auto split: prod.splits dest: dgram_step_invar)

lemma dgram_step_open:
  assumes "invar s" and "datagram_step S c s = (st, s')" and "c \<noteq> DgramOpen" and "c \<noteq> DgramClose"
  shows "dIsOpen S s' \<longleftrightarrow> dIsOpen S s"
  using assms by (cases c) (auto split: prod.splits dest: send_open receive_open)

end

section \<open>Timers\<close>

text \<open>
  \<^verbatim>\<open>timer_scheduler.hpp\<close>: the counter is readable at any time and a sleep lasts at least as
  long as asked, as long as the counter stays below the \<open>limit\<close> of its clock.
\<close>

locale timer_scheduler =
  fixes S :: "'s ITimerScheduler" and invar :: "'s \<Rightarrow> bool" and limit :: nat
  assumes now_ok: "invar s \<Longrightarrow> tMonotonicMilliseconds S s = (st, v) \<Longrightarrow> st = Ok"
    and sleep_ok: "invar s \<Longrightarrow> tSleepFor S d s = (st, s') \<Longrightarrow> st = Ok"
    and invar_sleep: "invar s \<Longrightarrow> tSleepFor S d s = (st, s') \<Longrightarrow> invar s'"
    and sleep_at_least:
      "invar s \<Longrightarrow> tMonotonicMilliseconds S s = (Ok, v) \<Longrightarrow> tSleepFor S d s = (Ok, s') \<Longrightarrow>
       tMonotonicMilliseconds S s' = (Ok, v') \<Longrightarrow>
       unat v + unat (milliseconds d) < limit \<Longrightarrow>
       unat v + unat (milliseconds d) \<le> unat v'"

end
