(* ===== verification/Fake_Transport.thy ===== *)
theory Fake_Transport
  imports Transport_Interfaces
begin

text \<open>
  \<^verbatim>\<open>fake_transport.hpp\<close>: the scripted test doubles \<open>FakeByteStream\<close>, \<open>FakeDatagramTransport\<close> and
  \<open>FakeTimerScheduler\<close>. Their fields are records, \<^verbatim>\<open>std::deque\<close> and \<^verbatim>\<open>std::vector\<close> are lists, and each
  method takes the object and returns it updated. The byte stream refines a queue of bytes,
  the datagram transport a queue of datagrams; both keep the interface contracts.
\<close>

section \<open>FakeByteStream\<close>

record FakeByteStream =
  fbs_open :: bool
  fbs_readChunks :: "byte list list"
  fbs_writes :: "byte list list"
  fbs_nextReadStatus :: TransportStatus
  fbs_nextWriteStatus :: TransportStatus

definition FakeByteStream_new :: FakeByteStream where
  "FakeByteStream_new = \<lparr>fbs_open = False, fbs_readChunks = [], fbs_writes = [],
     fbs_nextReadStatus = Ok, fbs_nextWriteStatus = Ok\<rparr>"

definition FakeByteStream_Open :: "FakeByteStream \<Rightarrow> TransportStatus \<times> FakeByteStream" where
  "FakeByteStream_Open f =
     (if fbs_open f then (AlreadyOpen, f) else (Ok, f\<lparr>fbs_open := True\<rparr>))"

definition FakeByteStream_Close :: "FakeByteStream \<Rightarrow> TransportStatus \<times> FakeByteStream" where
  "FakeByteStream_Close f = (Ok, f\<lparr>fbs_open := False\<rparr>)"

definition FakeByteStream_IsOpen :: "FakeByteStream \<Rightarrow> bool" where
  "FakeByteStream_IsOpen f = fbs_open f"

definition FakeByteStream_ReadSome ::
  "buffer \<Rightarrow> size_t \<Rightarrow> FakeByteStream \<Rightarrow> read_result \<times> FakeByteStream" where
  "FakeByteStream_ReadSome output outputSize f =
     (if \<not> fbs_open f then ((NotOpen, 0, output), f)
      else if output = None \<and> outputSize \<noteq> 0 then ((InvalidArgument, 0, output), f)
      else if fbs_nextReadStatus f \<noteq> Ok then
        ((fbs_nextReadStatus f, 0, output), f\<lparr>fbs_nextReadStatus := Ok\<rparr>)
      else (case fbs_readChunks f of
          [] \<Rightarrow> ((WouldBlock, 0, output), f)
        | chunk # rest \<Rightarrow>
            (let count = min (unat outputSize) (length chunk)
             in ((Ok, of_nat count, copy_to (take count chunk) output),
                 if count = length chunk then f\<lparr>fbs_readChunks := rest\<rparr>
                 else f\<lparr>fbs_readChunks := drop count chunk # rest\<rparr>))))"

definition FakeByteStream_WriteAll ::
  "buffer \<Rightarrow> size_t \<Rightarrow> FakeByteStream \<Rightarrow> TransportStatus \<times> FakeByteStream" where
  "FakeByteStream_WriteAll input inputSize f =
     (if \<not> fbs_open f then (NotOpen, f)
      else if input = None \<and> inputSize \<noteq> 0 then (InvalidArgument, f)
      else if fbs_nextWriteStatus f \<noteq> Ok then
        (fbs_nextWriteStatus f, f\<lparr>fbs_nextWriteStatus := Ok\<rparr>)
      else if inputSize = 0 then (Ok, f\<lparr>fbs_writes := fbs_writes f @ [[]]\<rparr>)
      else (Ok, f\<lparr>fbs_writes := fbs_writes f @ [take (unat inputSize) (mem_of input)]\<rparr>))"

definition FakeByteStream_ScriptRead :: "byte list \<Rightarrow> FakeByteStream \<Rightarrow> FakeByteStream" where
  "FakeByteStream_ScriptRead bytes f = f\<lparr>fbs_readChunks := fbs_readChunks f @ [bytes]\<rparr>"

definition FakeByteStream_ScriptNextReadStatus ::
  "TransportStatus \<Rightarrow> FakeByteStream \<Rightarrow> FakeByteStream" where
  "FakeByteStream_ScriptNextReadStatus status f = f\<lparr>fbs_nextReadStatus := status\<rparr>"

definition FakeByteStream_ScriptNextWriteStatus ::
  "TransportStatus \<Rightarrow> FakeByteStream \<Rightarrow> FakeByteStream" where
  "FakeByteStream_ScriptNextWriteStatus status f = f\<lparr>fbs_nextWriteStatus := status\<rparr>"

definition FakeByteStream_Writes :: "FakeByteStream \<Rightarrow> byte list list" where
  "FakeByteStream_Writes f = fbs_writes f"

definition FakeByteStream_Reset :: "FakeByteStream \<Rightarrow> FakeByteStream" where
  "FakeByteStream_Reset f = f\<lparr>fbs_open := False, fbs_readChunks := [], fbs_writes := [],
     fbs_nextReadStatus := Ok, fbs_nextWriteStatus := Ok\<rparr>"

text \<open>The object behind an \<^verbatim>\<open>IByteStream&\<close>.\<close>

definition FakeByteStream_methods :: "FakeByteStream IByteStream" where
  "FakeByteStream_methods = \<lparr>vOpen = FakeByteStream_Open, vClose = FakeByteStream_Close,
     vIsOpen = FakeByteStream_IsOpen, vReadSome = FakeByteStream_ReadSome,
     vWriteAll = (\<lambda>input inputSize f. Some (FakeByteStream_WriteAll input inputSize f))\<rparr>"

lemmas fake_stream_defs =
  FakeByteStream_Open_def FakeByteStream_Close_def FakeByteStream_IsOpen_def
  FakeByteStream_ReadSome_def FakeByteStream_WriteAll_def

lemma FakeByteStream_methods_simps [simp]:
  "vOpen FakeByteStream_methods = FakeByteStream_Open"
  "vClose FakeByteStream_methods = FakeByteStream_Close"
  "vIsOpen FakeByteStream_methods = FakeByteStream_IsOpen"
  "vReadSome FakeByteStream_methods = FakeByteStream_ReadSome"
  "vWriteAll FakeByteStream_methods input n f = Some (FakeByteStream_WriteAll input n f)"
  by (simp_all add: FakeByteStream_methods_def)

lemma fake_read_frame:
  assumes "grants out n" and "FakeByteStream_ReadSome out n f = ((st, k, out'), f')"
  shows "buffer_frame n k out out' \<and> (st \<noteq> Ok \<longrightarrow> k = 0 \<and> out' = out)"
proof (cases "fbs_open f \<and> \<not> (out = None \<and> n \<noteq> 0) \<and> fbs_nextReadStatus f = Ok \<and> fbs_readChunks f \<noteq> []")
  case True
  then obtain chunk rest where c: "fbs_readChunks f = chunk # rest" by (cases "fbs_readChunks f") auto
  define count where "count = min (unat n) (length chunk)"
  have k: "st = Ok" "k = of_nat count" "out' = copy_to (take count chunk) out"
    using True c assms(2) by (auto simp: FakeByteStream_ReadSome_def count_def Let_def)
  have le: "count \<le> unat n" by (simp add: count_def)
  have un: "unat k = length (take count chunk)"
    using unat_of_nat_le [OF le] by (simp add: k count_def)
  show ?thesis
  proof (cases out)
    case None
    with True have "count = 0" by (simp add: count_def)
    with None k show ?thesis by simp
  next
    case (Some buf)
    have "buffer_frame n k (Some buf) (copy_to (take count chunk) (Some buf))"
      using assms(1) Some le un by (intro buffer_frame_copy) auto
    with Some k show ?thesis by simp
  qed
next
  case False
  with assms(2) have "st \<noteq> Ok \<and> k = 0 \<and> out' = out"
    by (auto simp: FakeByteStream_ReadSome_def split: if_splits list.splits)
  then show ?thesis by simp
qed

lemma fake_read_open:
  "FakeByteStream_ReadSome out n f = (r, f') \<Longrightarrow> fbs_open f' = fbs_open f"
  by (auto simp: FakeByteStream_ReadSome_def Let_def split: if_splits list.splits)

lemma fake_write_open:
  "FakeByteStream_WriteAll inp n f = (st, f') \<Longrightarrow> fbs_open f' = fbs_open f"
  by (auto simp: FakeByteStream_WriteAll_def split: if_splits)

lemma fake_read_closed [simp]:
  "\<not> fbs_open f \<Longrightarrow> FakeByteStream_ReadSome out n f = ((NotOpen, 0, out), f)"
  by (simp add: FakeByteStream_ReadSome_def)

lemma fake_read_null [simp]:
  "fbs_open f \<Longrightarrow> n \<noteq> 0 \<Longrightarrow> FakeByteStream_ReadSome None n f = ((InvalidArgument, 0, None), f)"
  by (simp add: FakeByteStream_ReadSome_def)

interpretation fake_stream: byte_stream FakeByteStream_methods "\<lambda>_. True"
  by unfold_locales
    (auto simp: FakeByteStream_Open_def FakeByteStream_Close_def FakeByteStream_IsOpen_def
        FakeByteStream_WriteAll_def dest: fake_read_open fake_read_frame split: if_splits)

subsection \<open>The stream of scripted bytes\<close>

text \<open>
  The abstract state of the reading side is the sequence of bytes that were scripted and not
  yet read; how they were cut into chunks only decides how many bytes one call returns.
\<close>

definition byte_queue :: "FakeByteStream \<Rightarrow> byte list" where
  "byte_queue f = concat (fbs_readChunks f)"

lemma byte_queue_ScriptRead:
  "byte_queue (FakeByteStream_ScriptRead bytes f) = byte_queue f @ bytes"
  by (simp add: byte_queue_def FakeByteStream_ScriptRead_def)

lemma fake_read_chunk:
  assumes "fbs_open f" and "fbs_nextReadStatus f = Ok" and "fbs_readChunks f = chunk # rest"
    and "unat n \<le> length buf"
  shows "FakeByteStream_ReadSome (Some buf) n f =
     ((Ok, of_nat (min (unat n) (length chunk)), copy_to (take (unat n) chunk) (Some buf)),
      f\<lparr>fbs_readChunks := (if length chunk \<le> unat n then rest else drop (unat n) chunk # rest)\<rparr>)"
  using assms by (auto simp: FakeByteStream_ReadSome_def Let_def min_def)

text \<open>
  A read from an open FakeByteStream with scripted data refines taking bytes from the front
  of one byte queue: it reports Ok, moves exactly the reported number of bytes, in order, from
  the queue to the start of the caller's buffer, leaves the rest of the buffer and every other
  field alone, and that number is the smaller of the buffer size and the front chunk.
\<close>

theorem fake_read_refines_queue:
  assumes "fbs_open f" and "fbs_nextReadStatus f = Ok" and "fbs_readChunks f \<noteq> []"
    and "unat n \<le> length buf"
    and "FakeByteStream_ReadSome (Some buf) n f = ((st, k, out), f')"
  shows "st = Ok \<and> unat k = min (unat n) (length (hd (fbs_readChunks f))) \<and>
    byte_queue f = take (unat k) (mem_of out) @ byte_queue f' \<and>
    length (mem_of out) = length buf \<and> drop (unat k) (mem_of out) = drop (unat k) buf \<and>
    f' = f\<lparr>fbs_readChunks := fbs_readChunks f'\<rparr>"
proof -
  obtain chunk rest where c: "fbs_readChunks f = chunk # rest"
    using assms(3) by (cases "fbs_readChunks f") auto
  note r = fake_read_chunk [OF assms(1,2) c assms(4)]
  have k: "unat k = min (unat n) (length chunk)"
    using r assms(5) by (auto simp: unat_of_nat_le [of _ n])
  show ?thesis
    using r assms(4,5) k c by (auto simp: byte_queue_def min_def split: if_splits)
qed

theorem fake_read_refines_queue_witness:
  "\<exists>st k out f'.
     FakeByteStream_ReadSome (Some [0, 0]) 2
       (FakeByteStream_ScriptRead [1, 2, 3] (snd (FakeByteStream_Open FakeByteStream_new))) =
       ((st, k, out), f') \<and> st = Ok \<and> unat k = 2 \<and> take (unat k) (mem_of out) = [1, 2] \<and>
     byte_queue f' = [3]"
proof -
  let ?f = "FakeByteStream_ScriptRead [1, 2, 3] (snd (FakeByteStream_Open FakeByteStream_new))"
  have f: "fbs_open ?f" "fbs_nextReadStatus ?f = Ok" "fbs_readChunks ?f = [[1, 2, 3]]"
    by (simp_all add: FakeByteStream_ScriptRead_def FakeByteStream_Open_def FakeByteStream_new_def)
  obtain st k out f' where r: "FakeByteStream_ReadSome (Some [0, 0]) 2 ?f = ((st, k, out), f')"
    by (metis prod.exhaust)
  have q: "byte_queue ?f = [1, 2, 3]" by (simp add: byte_queue_def f)
  have "st = Ok \<and> unat k = 2 \<and> [1, 2, 3] = take 2 (mem_of out) @ byte_queue f' \<and> length (mem_of out) = 2"
    using fake_read_refines_queue [OF f(1,2) _ _ r] by (simp add: f q)
  then show ?thesis using r by (auto simp: append_eq_Cons_conv length_Suc_conv numeral_2_eq_2)
qed

text \<open>
  A client that reads with a buffer of \<open>n\<close> bytes until the stream reports something other than
  \<open>Ok\<close>, at most \<open>m\<close> times, and keeps what it got.
\<close>

fun drain :: "nat \<Rightarrow> size_t \<Rightarrow> FakeByteStream \<Rightarrow> byte list \<times> TransportStatus \<times> FakeByteStream" where
  "drain 0 n f = ([], Ok, f)"
| "drain (Suc m) n f =
     (case FakeByteStream_ReadSome (Some (replicate (unat n) 0)) n f of
        ((st, k, out), f1) \<Rightarrow>
          (if st \<noteq> Ok then ([], st, f1)
           else (case drain m n f1 of
                   (bs, st', f2) \<Rightarrow> (take (unat k) (mem_of out) @ bs, st', f2))))"

lemma drain_step:
  assumes "fbs_open f" and "fbs_nextReadStatus f = Ok" and "fbs_readChunks f = chunk # rest"
  shows "drain (Suc m) n f =
     (case drain m n (f\<lparr>fbs_readChunks :=
             (if length chunk \<le> unat n then rest else drop (unat n) chunk # rest)\<rparr>) of
        (bs, st', f2) \<Rightarrow> (take (unat n) chunk @ bs, st', f2))"
  using fake_read_chunk [OF assms, of n "replicate (unat n) 0"]
  by (simp add: unat_of_nat_le min_def)

text \<open>
  C27. Round trip through a FakeByteStream: a client that keeps reading with a non-empty buffer
  gets back exactly the scripted bytes, in order, whatever the buffer size and however they were
  cut into chunks, and is then told WouldBlock; a number of reads linear in the scripted data is
  enough.
\<close>

theorem fake_drain_roundtrip:
  assumes "fbs_open f" and "fbs_nextReadStatus f = Ok" and "n \<noteq> 0"
    and "length (byte_queue f) + length (fbs_readChunks f) < m"
  shows "drain m n f = (byte_queue f, WouldBlock, f\<lparr>fbs_readChunks := []\<rparr>)"
  using assms
proof (induction m arbitrary: f)
  case 0
  then show ?case by simp
next
  case (Suc m)
  have n0: "0 < unat n" using Suc.prems(3) by (simp add: unat_gt_0)
  show ?case
  proof (cases "fbs_readChunks f")
    case Nil
    with Suc.prems(1,2) show ?thesis
      by (simp add: FakeByteStream_ReadSome_def byte_queue_def)
  next
    case (Cons chunk rest)
    define f1 where "f1 = f\<lparr>fbs_readChunks :=
      (if length chunk \<le> unat n then rest else drop (unat n) chunk # rest)\<rparr>"
    have small: "length (byte_queue f1) + length (fbs_readChunks f1) < m"
      using Suc.prems(4) Cons n0 by (auto simp: f1_def byte_queue_def)
    have f1: "fbs_open f1" "fbs_nextReadStatus f1 = Ok" using Suc.prems(1,2) by (simp_all add: f1_def)
    have "drain m n f1 = (byte_queue f1, WouldBlock, f1\<lparr>fbs_readChunks := []\<rparr>)"
      using Suc.IH [OF f1 Suc.prems(3) small] .
    moreover have "take (unat n) chunk @ byte_queue f1 = byte_queue f"
      using Cons by (simp add: f1_def byte_queue_def)
    moreover have "f1\<lparr>fbs_readChunks := []\<rparr> = f\<lparr>fbs_readChunks := []\<rparr>" by (simp add: f1_def)
    ultimately show ?thesis
      using drain_step [OF Suc.prems(1,2) Cons, of m n] unfolding f1_def [symmetric] by simp
  qed
qed

theorem fake_drain_roundtrip_witness:
  "drain 8 2 (FakeByteStream_ScriptRead [4, 5] (FakeByteStream_ScriptRead [1, 2, 3]
      (snd (FakeByteStream_Open FakeByteStream_new)))) =
   ([1, 2, 3, 4, 5], WouldBlock, (snd (FakeByteStream_Open FakeByteStream_new)))"
proof -
  let ?f = "FakeByteStream_ScriptRead [4, 5] (FakeByteStream_ScriptRead [1, 2, 3]
      (snd (FakeByteStream_Open FakeByteStream_new)))"
  have f: "fbs_open ?f" "fbs_nextReadStatus ?f = Ok" "fbs_readChunks ?f = [[1, 2, 3], [4, 5]]"
    "?f\<lparr>fbs_readChunks := []\<rparr> = snd (FakeByteStream_Open FakeByteStream_new)"
    by (simp_all add: FakeByteStream_ScriptRead_def FakeByteStream_Open_def FakeByteStream_new_def)
  have "byte_queue ?f = [1, 2, 3, 4, 5]" by (simp add: byte_queue_def f)
  with fake_drain_roundtrip [OF f(1,2), of 2 8] f(4) show ?thesis
    by (simp add: f)
qed

section \<open>FakeDatagramTransport\<close>

record FakeDatagramTransport =
  fdt_open :: bool
  fdt_receiveDatagrams :: "byte list list"
  fdt_sentDatagrams :: "byte list list"
  fdt_nextReceiveStatus :: TransportStatus
  fdt_nextSendStatus :: TransportStatus

definition FakeDatagramTransport_new :: FakeDatagramTransport where
  "FakeDatagramTransport_new = \<lparr>fdt_open = False, fdt_receiveDatagrams = [], fdt_sentDatagrams = [],
     fdt_nextReceiveStatus = Ok, fdt_nextSendStatus = Ok\<rparr>"

definition FakeDatagramTransport_Open ::
  "FakeDatagramTransport \<Rightarrow> TransportStatus \<times> FakeDatagramTransport" where
  "FakeDatagramTransport_Open f =
     (if fdt_open f then (AlreadyOpen, f) else (Ok, f\<lparr>fdt_open := True\<rparr>))"

definition FakeDatagramTransport_Close ::
  "FakeDatagramTransport \<Rightarrow> TransportStatus \<times> FakeDatagramTransport" where
  "FakeDatagramTransport_Close f = (Ok, f\<lparr>fdt_open := False\<rparr>)"

definition FakeDatagramTransport_IsOpen :: "FakeDatagramTransport \<Rightarrow> bool" where
  "FakeDatagramTransport_IsOpen f = fdt_open f"

definition FakeDatagramTransport_Send ::
  "buffer \<Rightarrow> size_t \<Rightarrow> FakeDatagramTransport \<Rightarrow> TransportStatus \<times> FakeDatagramTransport" where
  "FakeDatagramTransport_Send input inputSize f =
     (if \<not> fdt_open f then (NotOpen, f)
      else if input = None \<and> inputSize \<noteq> 0 then (InvalidArgument, f)
      else if fdt_nextSendStatus f \<noteq> Ok then
        (fdt_nextSendStatus f, f\<lparr>fdt_nextSendStatus := Ok\<rparr>)
      else if inputSize = 0 then (Ok, f\<lparr>fdt_sentDatagrams := fdt_sentDatagrams f @ [[]]\<rparr>)
      else (Ok, f\<lparr>fdt_sentDatagrams :=
                   fdt_sentDatagrams f @ [take (unat inputSize) (mem_of input)]\<rparr>))"

definition FakeDatagramTransport_Receive ::
  "buffer \<Rightarrow> size_t \<Rightarrow> FakeDatagramTransport \<Rightarrow> read_result \<times> FakeDatagramTransport" where
  "FakeDatagramTransport_Receive output outputSize f =
     (if \<not> fdt_open f then ((NotOpen, 0, output), f)
      else if output = None \<and> outputSize \<noteq> 0 then ((InvalidArgument, 0, output), f)
      else if fdt_nextReceiveStatus f \<noteq> Ok then
        ((fdt_nextReceiveStatus f, 0, output), f\<lparr>fdt_nextReceiveStatus := Ok\<rparr>)
      else (case fdt_receiveDatagrams f of
          [] \<Rightarrow> ((WouldBlock, 0, output), f)
        | datagram # rest \<Rightarrow>
            (if unat outputSize < length datagram then ((OutputBufferTooSmall, 0, output), f)
             else ((Ok, of_nat (length datagram), copy_to datagram output),
                   f\<lparr>fdt_receiveDatagrams := rest\<rparr>))))"

definition FakeDatagramTransport_ScriptReceive ::
  "byte list \<Rightarrow> FakeDatagramTransport \<Rightarrow> FakeDatagramTransport" where
  "FakeDatagramTransport_ScriptReceive bytes f =
     f\<lparr>fdt_receiveDatagrams := fdt_receiveDatagrams f @ [bytes]\<rparr>"

definition FakeDatagramTransport_ScriptNextReceiveStatus ::
  "TransportStatus \<Rightarrow> FakeDatagramTransport \<Rightarrow> FakeDatagramTransport" where
  "FakeDatagramTransport_ScriptNextReceiveStatus status f = f\<lparr>fdt_nextReceiveStatus := status\<rparr>"

definition FakeDatagramTransport_ScriptNextSendStatus ::
  "TransportStatus \<Rightarrow> FakeDatagramTransport \<Rightarrow> FakeDatagramTransport" where
  "FakeDatagramTransport_ScriptNextSendStatus status f = f\<lparr>fdt_nextSendStatus := status\<rparr>"

definition FakeDatagramTransport_SentDatagrams :: "FakeDatagramTransport \<Rightarrow> byte list list" where
  "FakeDatagramTransport_SentDatagrams f = fdt_sentDatagrams f"

definition FakeDatagramTransport_Reset :: "FakeDatagramTransport \<Rightarrow> FakeDatagramTransport" where
  "FakeDatagramTransport_Reset f = f\<lparr>fdt_open := False, fdt_receiveDatagrams := [],
     fdt_sentDatagrams := [], fdt_nextReceiveStatus := Ok, fdt_nextSendStatus := Ok\<rparr>"

definition FakeDatagramTransport_methods :: "FakeDatagramTransport IDatagramTransport" where
  "FakeDatagramTransport_methods = \<lparr>dOpen = FakeDatagramTransport_Open,
     dClose = FakeDatagramTransport_Close, dIsOpen = FakeDatagramTransport_IsOpen,
     dSend = FakeDatagramTransport_Send, dReceive = FakeDatagramTransport_Receive\<rparr>"

lemma FakeDatagramTransport_methods_simps [simp]:
  "dOpen FakeDatagramTransport_methods = FakeDatagramTransport_Open"
  "dClose FakeDatagramTransport_methods = FakeDatagramTransport_Close"
  "dIsOpen FakeDatagramTransport_methods = FakeDatagramTransport_IsOpen"
  "dSend FakeDatagramTransport_methods = FakeDatagramTransport_Send"
  "dReceive FakeDatagramTransport_methods = FakeDatagramTransport_Receive"
  by (simp_all add: FakeDatagramTransport_methods_def)

lemma fake_receive_closed [simp]:
  "\<not> fdt_open f \<Longrightarrow> FakeDatagramTransport_Receive out n f = ((NotOpen, 0, out), f)"
  by (simp add: FakeDatagramTransport_Receive_def)

lemma fake_receive_null [simp]:
  "fdt_open f \<Longrightarrow> n \<noteq> 0 \<Longrightarrow>
   FakeDatagramTransport_Receive None n f = ((InvalidArgument, 0, None), f)"
  by (simp add: FakeDatagramTransport_Receive_def)

lemma fake_receive_open:
  "FakeDatagramTransport_Receive out n f = (r, f') \<Longrightarrow> fdt_open f' = fdt_open f"
  by (auto simp: FakeDatagramTransport_Receive_def split: if_splits list.splits)

lemma fake_receive_datagram:
  assumes "fdt_open f" and "fdt_nextReceiveStatus f = Ok" and "fdt_receiveDatagrams f = d # ds"
    and "out = None \<longrightarrow> n = 0"
  shows "FakeDatagramTransport_Receive out n f =
    (if unat n < length d then ((OutputBufferTooSmall, 0, out), f)
     else ((Ok, of_nat (length d), copy_to d out), f\<lparr>fdt_receiveDatagrams := ds\<rparr>))"
  using assms by (auto simp: FakeDatagramTransport_Receive_def)

lemma fake_receive_not_Ok:
  assumes "FakeDatagramTransport_Receive out n f = ((st, k, out'), f')" and "st \<noteq> Ok"
  shows "k = 0 \<and> out' = out"
  using assms by (auto simp: FakeDatagramTransport_Receive_def split: if_splits list.splits)

lemma fake_receive_OkD:
  assumes "FakeDatagramTransport_Receive out n f = ((Ok, k, out'), f')"
  shows "\<exists>d ds. fdt_receiveDatagrams f = d # ds \<and> length d \<le> unat n \<and> unat k = length d \<and>
    out' = copy_to d out \<and> f' = f\<lparr>fdt_receiveDatagrams := ds\<rparr> \<and> (out = None \<longrightarrow> n = 0)"
  using assms
  by (auto simp: FakeDatagramTransport_Receive_def unat_of_nat_le [of _ n]
      split: if_splits list.splits)

lemma fake_receive_frame:
  assumes "grants out n" and "FakeDatagramTransport_Receive out n f = ((st, k, out'), f')"
  shows "buffer_frame n k out out' \<and> (st \<noteq> Ok \<longrightarrow> k = 0 \<and> out' = out)"
proof (cases "st = Ok")
  case True
  with fake_receive_OkD [of out n f k out' f'] assms(2) obtain d where
    d: "length d \<le> unat n" "unat k = length d" "out' = copy_to d out" "out = None \<longrightarrow> n = 0" by auto
  show ?thesis
  proof (cases out)
    case None
    with d have "d = []" and "k = 0" by (simp_all add: unat_eq_zero)
    with None d True show ?thesis by simp
  next
    case (Some buf)
    with assms(1) d True show ?thesis by (auto intro!: buffer_frame_copy)
  qed
next
  case False
  with fake_receive_not_Ok [OF assms(2)] show ?thesis by simp
qed

interpretation fake_datagram: datagram_transport FakeDatagramTransport_methods "\<lambda>_. True"
  by unfold_locales
    (auto simp: FakeDatagramTransport_Open_def FakeDatagramTransport_Close_def
        FakeDatagramTransport_IsOpen_def FakeDatagramTransport_Send_def
      dest: fake_receive_open fake_receive_frame split: if_splits)

text \<open>
  Datagram boundaries: an open FakeDatagramTransport whose front datagram does not fit the
  caller's buffer reports OutputBufferTooSmall and changes nothing, and a later call with a
  buffer that fits gets that whole datagram, byte for byte, and removes exactly it.
\<close>

theorem fake_receive_retry:
  assumes "fdt_open f" and "fdt_nextReceiveStatus f = Ok" and "fdt_receiveDatagrams f = d # ds"
    and "unat small < length d" and "length d \<le> unat big" and "unat big \<le> length buf"
  shows "FakeDatagramTransport_Receive (Some tiny) small f = ((OutputBufferTooSmall, 0, Some tiny), f) \<and>
    (\<exists>k out. FakeDatagramTransport_Receive (Some buf) big f =
           ((Ok, k, Some out), f\<lparr>fdt_receiveDatagrams := ds\<rparr>) \<and> unat k = length d \<and>
         take (length d) out = d \<and> drop (length d) out = drop (length d) buf)"
  using fake_receive_datagram [OF assms(1,2,3)] assms(4-) unat_of_nat_le [of "length d" big] by auto

theorem fake_receive_retry_witness:
  "FakeDatagramTransport_Receive (Some [0]) 1
     (FakeDatagramTransport_ScriptReceive [7, 8] (snd (FakeDatagramTransport_Open FakeDatagramTransport_new))) =
   ((OutputBufferTooSmall, 0, Some [0]),
     FakeDatagramTransport_ScriptReceive [7, 8] (snd (FakeDatagramTransport_Open FakeDatagramTransport_new)))"
proof -
  let ?f = "FakeDatagramTransport_ScriptReceive [7, 8] (snd (FakeDatagramTransport_Open FakeDatagramTransport_new))"
  have f: "fdt_open ?f" "fdt_nextReceiveStatus ?f = Ok" "fdt_receiveDatagrams ?f = [7, 8] # []"
    by (simp_all add: FakeDatagramTransport_ScriptReceive_def FakeDatagramTransport_Open_def
        FakeDatagramTransport_new_def)
  show ?thesis using fake_receive_retry [OF f, of 1 2 "[0, 0]" "[0]"] by simp
qed

text \<open>
  Interface conformance of both fakes over whole sessions: in any sequence of calls on a
  FakeByteStream that starts closed, the stream is open at the end only if the last Open that
  returned Ok was not followed by a Close.
\<close>

theorem fake_session_open:
  assumes "\<not> FakeByteStream_IsOpen f" and "stream_run FakeByteStream_methods calls f = Some (log, f')"
    and "FakeByteStream_IsOpen f'"
  shows "opened_last log"
  using fake_stream.is_open_only_after_open [of f calls log f'] assms by simp

theorem fake_session_open_witness:
  "opened_last [(CallOpen, Ok), (CallReadSome (Some [0]) 1, WouldBlock), (CallOpen, AlreadyOpen)]"
proof -
  have "stream_run FakeByteStream_methods [CallOpen, CallReadSome (Some [0]) 1, CallOpen] FakeByteStream_new =
    Some ([(CallOpen, Ok), (CallReadSome (Some [0]) 1, WouldBlock), (CallOpen, AlreadyOpen)],
      FakeByteStream_new\<lparr>fbs_open := True\<rparr>)"
    by (simp add: fake_stream_defs FakeByteStream_new_def)
  then show ?thesis
    by (rule fake_session_open [rotated]) (simp_all add: FakeByteStream_IsOpen_def FakeByteStream_new_def)
qed

section \<open>FakeTimerScheduler\<close>

record FakeTimerScheduler =
  fts_now :: uint64

definition FakeTimerScheduler_new :: FakeTimerScheduler where
  "FakeTimerScheduler_new = \<lparr>fts_now = 0\<rparr>"

definition FakeTimerScheduler_MonotonicMilliseconds ::
  "FakeTimerScheduler \<Rightarrow> TransportStatus \<times> uint64" where
  "FakeTimerScheduler_MonotonicMilliseconds t = (Ok, fts_now t)"

definition FakeTimerScheduler_SleepFor ::
  "TransportDuration \<Rightarrow> FakeTimerScheduler \<Rightarrow> TransportStatus \<times> FakeTimerScheduler" where
  "FakeTimerScheduler_SleepFor duration t =
     (Ok, t\<lparr>fts_now := fts_now t + ucast (milliseconds duration)\<rparr>)"

definition FakeTimerScheduler_SetNow :: "uint64 \<Rightarrow> FakeTimerScheduler \<Rightarrow> FakeTimerScheduler" where
  "FakeTimerScheduler_SetNow v t = t\<lparr>fts_now := v\<rparr>"

definition FakeTimerScheduler_methods :: "FakeTimerScheduler ITimerScheduler" where
  "FakeTimerScheduler_methods =
     \<lparr>tMonotonicMilliseconds = FakeTimerScheduler_MonotonicMilliseconds,
      tSleepFor = FakeTimerScheduler_SleepFor\<rparr>"

lemma fake_sleep_wraps:
  "unat (fts_now (snd (FakeTimerScheduler_SleepFor d t))) =
   (unat (fts_now t) + unat (milliseconds d)) mod 2 ^ 64"
  by (simp add: FakeTimerScheduler_SleepFor_def unat_word_ariths)

interpretation fake_timer: timer_scheduler FakeTimerScheduler_methods "\<lambda>_. True" "2 ^ 64"
proof (unfold_locales, goal_cases)
  case (4 s v d s' v')
  then show ?case
    using fake_sleep_wraps [of d s]
    by (auto simp: FakeTimerScheduler_methods_def FakeTimerScheduler_MonotonicMilliseconds_def)
qed (auto simp: FakeTimerScheduler_methods_def FakeTimerScheduler_MonotonicMilliseconds_def
    FakeTimerScheduler_SleepFor_def)

text \<open>
  A sequence of sleeps on a FakeTimerScheduler advances the counter by the sum of the
  requested milliseconds, modulo the 64 bits of the counter, and every one reports Ok.
\<close>

lemma fake_sleep_sequence:
  "unat (fts_now (fold (\<lambda>d t. snd (FakeTimerScheduler_SleepFor d t)) ds t)) =
   (unat (fts_now t) + sum_list (map (\<lambda>d. unat (milliseconds d)) ds)) mod 2 ^ 64"
proof (induction ds arbitrary: t)
  case Nil
  then show ?case by simp
next
  case (Cons d ds)
  then show ?case by (simp add: fake_sleep_wraps mod_add_left_eq add.assoc)
qed

end
