(* ===== verification/Iec62056_21.thy ===== *)
theory Iec62056_21
  imports Transport_Status
begin

text \<open>
  \<^verbatim>\<open>iec62056_21_mode_e.hpp/.cpp\<close>: the optical-port sign-on of IEC 62056-21 in protocol mode E.
  Baud-rate codes, the sign-on request, the parser of the meter's identification message, the
  choice of the baud rate and the acknowledgement. All of it is pure; an output parameter is a
  component of the result.

  The enum of baud rates has, like the status enum, constructors for the values of its
  underlying \<^verbatim>\<open>int\<close> that no enumerator names, since the sources test for them.
\<close>

datatype Iec62056_21BaudRate =
    Baud300
  | Baud600
  | Baud1200
  | Baud2400
  | Baud4800
  | Baud9600
  | Baud19200
  | BaudAbove nat
  | BaudBelow nat

record Iec62056_21Identification =
  raw :: string
  supportsModeE :: bool
  maxBaudRate :: Iec62056_21BaudRate

definition Iec62056_21Identification_new :: Iec62056_21Identification where
  "Iec62056_21Identification_new = \<lparr>raw = '''', supportsModeE = False, maxBaudRate = Baud300\<rparr>"

fun IsKnownBaudRate :: "Iec62056_21BaudRate \<Rightarrow> bool" where
  "IsKnownBaudRate Baud300 = True"
| "IsKnownBaudRate Baud600 = True"
| "IsKnownBaudRate Baud1200 = True"
| "IsKnownBaudRate Baud2400 = True"
| "IsKnownBaudRate Baud4800 = True"
| "IsKnownBaudRate Baud9600 = True"
| "IsKnownBaudRate Baud19200 = True"
| "IsKnownBaudRate _ = False"

definition BaudRateFromCode ::
  "char \<Rightarrow> Iec62056_21BaudRate \<Rightarrow> TransportStatus \<times> Iec62056_21BaudRate" where
  "BaudRateFromCode code baudRate =
     (if code = CHR ''0'' then (Ok, Baud300)
      else if code = CHR ''1'' then (Ok, Baud600)
      else if code = CHR ''2'' then (Ok, Baud1200)
      else if code = CHR ''3'' then (Ok, Baud2400)
      else if code = CHR ''4'' then (Ok, Baud4800)
      else if code = CHR ''5'' then (Ok, Baud9600)
      else if code = CHR ''6'' then (Ok, Baud19200)
      else (InvalidArgument, baudRate))"

fun BaudRank :: "Iec62056_21BaudRate \<Rightarrow> int" where
  "BaudRank Baud300 = 0"
| "BaudRank Baud600 = 1"
| "BaudRank Baud1200 = 2"
| "BaudRank Baud2400 = 3"
| "BaudRank Baud4800 = 4"
| "BaudRank Baud9600 = 5"
| "BaudRank Baud19200 = 6"
| "BaudRank (BaudAbove k) = 7 + int k"
| "BaudRank (BaudBelow k) = - 1 - int k"

definition BuildIec62056_21SignOnRequest :: "TransportStatus \<times> string" where
  "BuildIec62056_21SignOnRequest = (Ok, ''/?!'' @ [CR, LF])"

definition modeMarker :: string where
  "modeMarker = [BACKSLASH, CHR ''W'']"

definition ParseIec62056_21Identification ::
  "string \<Rightarrow> TransportStatus \<times> Iec62056_21Identification" where
  "ParseIec62056_21Identification input =
     (let identification = Iec62056_21Identification_new in
      if length input < 5 \<or> input ! 0 \<noteq> CHR ''/'' then (InvalidArgument, identification)
      else if length input < 2 \<or> input ! (length input - 2) \<noteq> CR \<or> input ! (length input - 1) \<noteq> LF
      then (InvalidArgument, identification)
      else
        (let identification = identification\<lparr>raw := input\<rparr>;
             (baudStatus, baud) = BaudRateFromCode (input ! 4) (maxBaudRate identification);
             identification = identification\<lparr>maxBaudRate := baud\<rparr>
         in if baudStatus \<noteq> Ok then (baudStatus, identification)
            else (case string_find modeMarker input of
                None \<Rightarrow> (Ok, identification\<lparr>supportsModeE := False\<rparr>)
              | Some marker \<Rightarrow>
                  (if length input \<le> marker + length modeMarker
                   then (Ok, identification\<lparr>supportsModeE := False\<rparr>)
                   else (Ok, identification\<lparr>supportsModeE :=
                          (input ! (marker + length modeMarker) = CHR ''2'')\<rparr>)))))"

definition SelectIec62056_21ModeEBaudRate ::
  "Iec62056_21Identification \<Rightarrow> Iec62056_21BaudRate \<Rightarrow> TransportStatus \<times> Iec62056_21BaudRate" where
  "SelectIec62056_21ModeEBaudRate identification requestedMax =
     (if \<not> supportsModeE identification \<or> \<not> IsKnownBaudRate requestedMax
      then (UnsupportedFeature, Baud300)
      else (Ok, if BaudRank (maxBaudRate identification) < BaudRank requestedMax
                then maxBaudRate identification else requestedMax))"

fun Iec62056_21BaudRateCode :: "Iec62056_21BaudRate \<Rightarrow> char" where
  "Iec62056_21BaudRateCode Baud300 = CHR ''0''"
| "Iec62056_21BaudRateCode Baud600 = CHR ''1''"
| "Iec62056_21BaudRateCode Baud1200 = CHR ''2''"
| "Iec62056_21BaudRateCode Baud2400 = CHR ''3''"
| "Iec62056_21BaudRateCode Baud4800 = CHR ''4''"
| "Iec62056_21BaudRateCode Baud9600 = CHR ''5''"
| "Iec62056_21BaudRateCode Baud19200 = CHR ''6''"
| "Iec62056_21BaudRateCode _ = CHR ''?''"

definition BuildIec62056_21ModeEAck :: "Iec62056_21BaudRate \<Rightarrow> TransportStatus \<times> string" where
  "BuildIec62056_21ModeEAck baudRate =
     (if \<not> IsKnownBaudRate baudRate then (InvalidArgument, [])
      else (Ok, [CHR 0x06, CHR ''2'', Iec62056_21BaudRateCode baudRate, CHR ''2'', CR, LF]))"

fun Iec62056_21BaudRateValue :: "Iec62056_21BaudRate \<Rightarrow> uint32" where
  "Iec62056_21BaudRateValue Baud300 = 300"
| "Iec62056_21BaudRateValue Baud600 = 600"
| "Iec62056_21BaudRateValue Baud1200 = 1200"
| "Iec62056_21BaudRateValue Baud2400 = 2400"
| "Iec62056_21BaudRateValue Baud4800 = 4800"
| "Iec62056_21BaudRateValue Baud9600 = 9600"
| "Iec62056_21BaudRateValue Baud19200 = 19200"
| "Iec62056_21BaudRateValue _ = 0"

section \<open>The order of baud rates\<close>

text \<open>
  \<open>BaudRank\<close>, the underlying value, orders the enum, so the library's \<open>min\<close> applies to it.
\<close>

lemma BaudRank_inject [simp]: "BaudRank a = BaudRank b \<longleftrightarrow> a = b"
  by (cases a; cases b) auto

instantiation Iec62056_21BaudRate :: linorder
begin

definition less_eq_Iec62056_21BaudRate :: "Iec62056_21BaudRate \<Rightarrow> Iec62056_21BaudRate \<Rightarrow> bool" where
  "a \<le> b \<longleftrightarrow> BaudRank a \<le> BaudRank b"

definition less_Iec62056_21BaudRate :: "Iec62056_21BaudRate \<Rightarrow> Iec62056_21BaudRate \<Rightarrow> bool" where
  "a < b \<longleftrightarrow> BaudRank a < BaudRank b"

instance
  by standard (auto simp: less_eq_Iec62056_21BaudRate_def less_Iec62056_21BaudRate_def
      intro: BaudRank_inject [THEN iffD1] order_antisym)

end

lemma BaudRateFromCode_code:
  "IsKnownBaudRate b \<Longrightarrow> BaudRateFromCode (Iec62056_21BaudRateCode b) b0 = (Ok, b)"
  by (cases b) (simp_all add: BaudRateFromCode_def)

lemma BaudRateFromCode_Ok:
  "BaudRateFromCode c b0 = (Ok, b) \<Longrightarrow> IsKnownBaudRate b \<and> c = Iec62056_21BaudRateCode b"
  by (auto simp: BaudRateFromCode_def split: if_splits)

lemma BaudRateFromCode_status:
  "fst (BaudRateFromCode c b0) = Ok \<longleftrightarrow> c \<in> set ''0123456''"
  by (auto simp: BaudRateFromCode_def)

lemma BaudRateFromCode_not_Ok:
  "BaudRateFromCode c b0 = (st, b) \<Longrightarrow> st \<noteq> Ok \<Longrightarrow> st = InvalidArgument \<and> b = b0"
  by (auto simp: BaudRateFromCode_def split: if_splits)

section \<open>Parsing the identification\<close>

text \<open>
  The acceptance condition of the parser, written over the message instead of over the order
  of the checks.
\<close>

definition well_formed_identification :: "string \<Rightarrow> bool" where
  "well_formed_identification s \<longleftrightarrow>
     (\<exists>man b rest. s = CHR ''/'' # man @ [Iec62056_21BaudRateCode b] @ rest @ [CR, LF] \<and>
        length man = 3 \<and> IsKnownBaudRate b)"

lemma ends_with_CRLF:
  assumes "2 \<le> length s"
  shows "s ! (length s - 2) = CR \<and> s ! (length s - 1) = LF \<longleftrightarrow> (\<exists>t. s = t @ [CR, LF])"
proof -
  obtain t a b where s: "s = t @ [a, b]"
  proof -
    have "drop (length s - 2) s = [s ! (length s - 2), s ! (length s - 1)]"
      using assms by (intro nth_equalityI) (auto simp: nth_append less_Suc_eq numeral_2_eq_2)
    then show ?thesis using that by (metis append_take_drop_id)
  qed
  show ?thesis unfolding s by (simp add: nth_append)
qed

lemma parse_accepted:
  "fst (ParseIec62056_21Identification s) = Ok \<longleftrightarrow>
   5 \<le> length s \<and> s ! 0 = CHR ''/'' \<and> s ! (length s - 2) = CR \<and> s ! (length s - 1) = LF \<and>
   fst (BaudRateFromCode (s ! 4) Baud300) = Ok"
  by (auto simp: ParseIec62056_21Identification_def Iec62056_21Identification_new_def Let_def
      split: prod.splits option.splits if_splits)

lemma split_at_4:
  assumes "7 \<le> length s" and "s = t @ [CR, LF]" and "s ! 0 = c"
  shows "\<exists>man rest. s = c # man @ [s ! 4] @ rest @ [CR, LF] \<and> length man = 3"
proof -
  have len: "5 \<le> length t" using assms(1,2) by simp
  have t: "t = take 1 t @ take 3 (drop 1 t) @ [t ! 4] @ drop 5 t"
  proof -
    have "t = take 4 t @ t ! 4 # drop 5 t" using len id_take_nth_drop [of 4 t] by simp
    moreover have "take 4 t = take 1 t @ take 3 (drop 1 t)" using take_add [of 1 3 t] by simp
    ultimately show ?thesis by simp
  qed
  have "take 1 t = [c]" using assms len by (cases t) (auto simp: nth_append)
  moreover have "s ! 4 = t ! 4" using assms len by (simp add: nth_append)
  ultimately have "s = c # take 3 (drop 1 t) @ [s ! 4] @ drop 5 t @ [CR, LF]"
    using t assms(2) by (metis append.assoc append_Cons append_Nil)
  moreover have "length (take 3 (drop 1 t)) = 3" using len by simp
  ultimately show ?thesis by blast
qed

text \<open>
  C14. The parser accepts exactly the messages of the form "/XXXZ...CR LF" whose fifth character
  is a baud-rate code '0' to '6'; every other input, HDLC frames included, is refused with
  InvalidArgument.
\<close>

theorem parse_accepts_iff:
  "fst (ParseIec62056_21Identification s) = (if well_formed_identification s then Ok else InvalidArgument)"
proof (cases "well_formed_identification s")
  case True
  then obtain man b rest where s: "s = CHR ''/'' # man @ [Iec62056_21BaudRateCode b] @ rest @ [CR, LF]"
    and man: "length man = 3" and b: "IsKnownBaudRate b"
    by (auto simp: well_formed_identification_def)
  have "s ! 4 = Iec62056_21BaudRateCode b" using s man by (simp add: nth_append)
  moreover have "s ! (length s - 2) = CR \<and> s ! (length s - 1) = LF"
    by (simp add: s man nth_append)
  ultimately have "fst (ParseIec62056_21Identification s) = Ok"
    using s man BaudRateFromCode_code [OF b] by (subst parse_accepted) simp
  with True show ?thesis by simp
next
  case False
  have "fst (ParseIec62056_21Identification s) \<noteq> Ok"
  proof
    assume acc: "fst (ParseIec62056_21Identification s) = Ok"
    then have len: "5 \<le> length s" and hd: "s ! 0 = CHR ''/''"
      and tl: "s ! (length s - 2) = CR \<and> s ! (length s - 1) = LF"
      and code: "fst (BaudRateFromCode (s ! 4) Baud300) = Ok"
      by (simp_all add: parse_accepted)
    obtain b where b: "IsKnownBaudRate b" "s ! 4 = Iec62056_21BaudRateCode b"
      using code BaudRateFromCode_Ok by (metis prod.collapse)
    have "length s \<noteq> 5" "length s \<noteq> 6"
      using tl code by (auto simp: BaudRateFromCode_status)
    with len have "7 \<le> length s" by simp
    moreover obtain t where "s = t @ [CR, LF]" using tl len ends_with_CRLF [of s] by auto
    ultimately obtain man rest where "s = CHR ''/'' # man @ [s ! 4] @ rest @ [CR, LF]" "length man = 3"
      using split_at_4 [OF _ _ hd] by blast
    with b have "well_formed_identification s"
      unfolding well_formed_identification_def by metis
    with False show False ..
  qed
  moreover have "fst (ParseIec62056_21Identification s) \<in> {Ok, InvalidArgument}"
    by (auto simp: ParseIec62056_21Identification_def Let_def dest: BaudRateFromCode_not_Ok
        split: prod.splits option.splits)
  ultimately show ?thesis using False by simp
qed

lemma parse_well_formed:
  assumes "s = CHR ''/'' # man @ [Iec62056_21BaudRateCode b] @ rest @ [CR, LF]"
    and "length man = 3" and "IsKnownBaudRate b"
  shows "ParseIec62056_21Identification s =
    (Ok, \<lparr>raw = s,
          supportsModeE = (case string_find modeMarker s of None \<Rightarrow> False
             | Some m \<Rightarrow> m + 2 < length s \<and> s ! (m + 2) = CHR ''2''),
          maxBaudRate = b\<rparr>)"
proof -
  have "s ! 0 = CHR ''/''" "5 \<le> length s" using assms by simp_all
  moreover have "s ! 4 = Iec62056_21BaudRateCode b" using assms by (simp add: nth_append)
  moreover have "s ! (length s - 2) = CR" "s ! (length s - 1) = LF"
    using assms by (simp_all add: nth_append)
  ultimately show ?thesis
    using BaudRateFromCode_code [OF assms(3)]
    by (auto simp: ParseIec62056_21Identification_def Iec62056_21Identification_new_def Let_def
        modeMarker_def split: option.splits)
qed

text \<open>
  C15. Round trip of the identification: a message built from a three-letter manufacturer code, a
  baud rate, an identification text, the mode marker "\\W" with a mode character and any tail is
  parsed back to exactly that baud rate, to mode-E support exactly when the mode character is
  '2', and with the raw text kept.
\<close>

theorem parse_identification_roundtrip:
  assumes "length man = 3" and "IsKnownBaudRate b"
    and "BACKSLASH \<notin> set man" and "BACKSLASH \<notin> set ident"
    and "s = CHR ''/'' # man @ [Iec62056_21BaudRateCode b] @ ident @ [BACKSLASH, CHR ''W'', mode] @ tail @ [CR, LF]"
  shows "ParseIec62056_21Identification s =
    (Ok, \<lparr>raw = s, supportsModeE = (mode = CHR ''2''), maxBaudRate = b\<rparr>)"
proof -
  let ?pre = "CHR ''/'' # man @ [Iec62056_21BaudRateCode b] @ ident"
  have s: "s = ?pre @ [BACKSLASH, CHR ''W'', mode] @ tail @ [CR, LF]" using assms(5) by simp
  have "BACKSLASH \<notin> set ?pre" using assms(2-4) by (cases b) simp_all
  then have "string_find modeMarker s = Some (length ?pre)"
    unfolding modeMarker_def s by (subst string_find_skip) simp_all
  moreover have "s ! (length ?pre + 2) = mode" by (simp add: s nth_append)
  moreover have "length ?pre + 2 < length s" by (simp add: s)
  ultimately show ?thesis
    using parse_well_formed [of s man b "ident @ [BACKSLASH, CHR ''W'', mode] @ tail"] assms(1,2,5)
    by simp
qed

theorem parse_identification_roundtrip_witness:
  "ParseIec62056_21Identification (''/ABC5METER'' @ [BACKSLASH] @ ''W2'' @ [CR, LF]) =
    (Ok, \<lparr>raw = ''/ABC5METER'' @ [BACKSLASH] @ ''W2'' @ [CR, LF], supportsModeE = True,
          maxBaudRate = Baud9600\<rparr>)"
  by (subst parse_identification_roundtrip
      [where man = "''ABC''" and b = Baud9600 and ident = "''METER''" and mode = "CHR ''2''" and tail = "[]"])
    simp_all

section \<open>The handshake\<close>

lemma select_Ok_iff:
  "fst (SelectIec62056_21ModeEBaudRate i r) = Ok \<longleftrightarrow> supportsModeE i \<and> IsKnownBaudRate r"
  by (auto simp: SelectIec62056_21ModeEBaudRate_def)

text \<open>
  Baud-rate selection: mode E is refused with UnsupportedFeature and the sign-on rate
  Baud300 when the meter does not offer it or the requested maximum is no known rate; otherwise
  the selected rate is the smaller of what the meter offers and what was requested.
\<close>

theorem select_is_min:
  "SelectIec62056_21ModeEBaudRate i r =
    (if supportsModeE i \<and> IsKnownBaudRate r then (Ok, min (maxBaudRate i) r)
     else (UnsupportedFeature, Baud300))"
  by (auto simp: SelectIec62056_21ModeEBaudRate_def min_def less_eq_Iec62056_21BaudRate_def)

lemma IsKnownBaudRate_iff_rank: "IsKnownBaudRate b \<longleftrightarrow> 0 \<le> BaudRank b \<and> BaudRank b \<le> 6"
  by (cases b) simp_all

lemma baud_value_mono:
  "IsKnownBaudRate a \<Longrightarrow> IsKnownBaudRate b \<Longrightarrow> a \<le> b \<Longrightarrow>
   Iec62056_21BaudRateValue a \<le> Iec62056_21BaudRateValue b"
  by (cases a; cases b) (simp_all add: less_eq_Iec62056_21BaudRate_def)

lemma parse_Ok_known:
  assumes "ParseIec62056_21Identification s = (Ok, i)"
  shows "IsKnownBaudRate (maxBaudRate i)"
  using assms
  by (auto simp: ParseIec62056_21Identification_def Let_def dest!: BaudRateFromCode_Ok
      split: prod.splits option.splits if_splits)

text \<open>
  C16. The whole sign-on: for an accepted identification that offers mode E and any known
  requested maximum, selection succeeds, the acknowledgement is the six characters
  ACK '2' Z '2' CR LF, the meter decodes Z back to the selected rate, and that rate in baud
  exceeds neither the meter's maximum nor the requested one.
\<close>

theorem mode_e_handshake:
  assumes "ParseIec62056_21Identification s = (Ok, i)" and "supportsModeE i"
    and "IsKnownBaudRate r"
  shows "\<exists>b z. SelectIec62056_21ModeEBaudRate i r = (Ok, b) \<and>
    BuildIec62056_21ModeEAck b = (Ok, [CHR 0x06, CHR ''2'', z, CHR ''2'', CR, LF]) \<and>
    BaudRateFromCode z Baud300 = (Ok, b) \<and>
    Iec62056_21BaudRateValue b \<le> Iec62056_21BaudRateValue (maxBaudRate i) \<and>
    Iec62056_21BaudRateValue b \<le> Iec62056_21BaudRateValue r"
proof -
  let ?b = "min (maxBaudRate i) r"
  have sel: "SelectIec62056_21ModeEBaudRate i r = (Ok, ?b)"
    using assms(2,3)
    by (simp add: SelectIec62056_21ModeEBaudRate_def min_def less_eq_Iec62056_21BaudRate_def)
  have known: "IsKnownBaudRate ?b"
    using parse_Ok_known [OF assms(1)] assms(3) by (simp add: min_def)
  show ?thesis
    using sel known BaudRateFromCode_code [OF known, of Baud300]
      baud_value_mono [OF known parse_Ok_known [OF assms(1)]] baud_value_mono [OF known assms(3)]
    by (simp add: BuildIec62056_21ModeEAck_def)
qed

theorem mode_e_handshake_witness:
  "\<exists>b z. SelectIec62056_21ModeEBaudRate
      \<lparr>raw = ''/ABC6M'' @ [BACKSLASH] @ ''W2'' @ [CR, LF], supportsModeE = True, maxBaudRate = Baud19200\<rparr>
      Baud9600 = (Ok, b) \<and>
    BuildIec62056_21ModeEAck b = (Ok, [CHR 0x06, CHR ''2'', z, CHR ''2'', CR, LF])"
proof -
  have p: "ParseIec62056_21Identification (''/ABC6M'' @ [BACKSLASH] @ ''W2'' @ [CR, LF]) =
    (Ok, \<lparr>raw = ''/ABC6M'' @ [BACKSLASH] @ ''W2'' @ [CR, LF], supportsModeE = True, maxBaudRate = Baud19200\<rparr>)"
    by (subst parse_well_formed [where man = "''ABC''" and b = Baud19200
          and rest = "''M'' @ [BACKSLASH] @ ''W2''"])
      (simp_all add: modeMarker_def)
  show ?thesis using mode_e_handshake [OF p, of Baud9600] by auto
qed

end
