(* ===== verification/Posix_Os.thy ===== *)
theory Posix_Os
  imports Transport_Interfaces
begin

text \<open>
  The operating system the transports run on. It is not part of the repository, so it is a
  parameter: a record \<open>os\<close> of the system calls the sources make, each a function on an opaque
  world \<open>'w\<close>, and of the platform constants they pass. No definition of the development says
  what a call does; what a theorem relies on is a named hypothesis over \<open>os\<close>, stated here:

  \<^item> \<open>fd_contract os fds\<close>: which calls create and release descriptors, for an observation \<open>fds\<close>
    of the descriptors the process holds;
  \<^item> \<open>addrinfo_contract os live\<close>: every successful \<^verbatim>\<open>getaddrinfo\<close> allocates one list,
    \<^verbatim>\<open>freeaddrinfo\<close> releases one;
  \<^item> \<open>recv_contract os\<close>: a receive stores at most as many bytes as it was given room for and
    returns their number;
  \<^item> \<open>send_contract os fd out\<close>: a send appends a prefix of its buffer to the bytes \<open>out\<close> that left
    through \<open>fd\<close>, and returns its length.

  These are the documented effects of the calls (POSIX.1-2017). The descriptor \<open>-1\<close>, the errno
  of a failed call and the null pointers of the calls are as in C.
\<close>

record posix_constants =
  c_EAGAIN :: int
  c_EWOULDBLOCK :: int
  c_EINPROGRESS :: int
  c_F_GETFL :: int
  c_F_SETFL :: int
  c_O_NONBLOCK :: int
  c_O_RDWR :: int
  c_O_NOCTTY :: int
  c_AF_UNSPEC :: int
  c_AF_INET :: int
  c_AF_INET6 :: int
  c_SOCK_STREAM :: int
  c_SOCK_DGRAM :: int
  c_IPPROTO_TCP :: int
  c_IPPROTO_UDP :: int
  c_AI_PASSIVE :: int
  c_SOL_SOCKET :: int
  c_SO_REUSEADDR :: int
  c_SO_ERROR :: int

record addrinfo_hints =
  hint_flags :: int
  hint_family :: int
  hint_socktype :: int
  hint_protocol :: int

record addrinfo =
  ai_family :: int
  ai_socktype :: int
  ai_protocol :: int
  ai_addr :: "byte list"

record timeval =
  tv_sec :: int
  tv_usec :: int

text \<open>A socket address as \<^verbatim>\<open>getsockname\<close> fills it; ports are two bytes in network order.\<close>

record sockaddr_storage =
  ss_family :: int
  sin_port :: "byte \<times> byte"
  sin6_port :: "byte \<times> byte"

definition ntohs :: "byte \<times> byte \<Rightarrow> uint16" where
  "ntohs p = (case p of (hi, lo) \<Rightarrow> ucast hi * 256 + ucast lo)"

record 'w posix =
  pc :: posix_constants
  sys_errno :: "'w \<Rightarrow> int"
  sys_getaddrinfo :: "string option \<Rightarrow> string \<Rightarrow> addrinfo_hints \<Rightarrow> 'w \<Rightarrow> (int \<times> addrinfo list) \<times> 'w"
  sys_freeaddrinfo :: "addrinfo list \<Rightarrow> 'w \<Rightarrow> 'w"
  sys_socket :: "int \<Rightarrow> int \<Rightarrow> int \<Rightarrow> 'w \<Rightarrow> int \<times> 'w"
  sys_fcntl :: "int \<Rightarrow> int \<Rightarrow> int \<Rightarrow> 'w \<Rightarrow> int \<times> 'w"
  sys_setsockopt :: "int \<Rightarrow> int \<Rightarrow> int \<Rightarrow> int \<Rightarrow> 'w \<Rightarrow> int \<times> 'w"
  sys_getsockopt :: "int \<Rightarrow> int \<Rightarrow> int \<Rightarrow> 'w \<Rightarrow> (int \<times> int) \<times> 'w"
  sys_bind :: "int \<Rightarrow> byte list \<Rightarrow> 'w \<Rightarrow> int \<times> 'w"
  sys_connect :: "int \<Rightarrow> byte list \<Rightarrow> 'w \<Rightarrow> int \<times> 'w"
  sys_listen :: "int \<Rightarrow> int \<Rightarrow> 'w \<Rightarrow> int \<times> 'w"
  sys_accept :: "int \<Rightarrow> 'w \<Rightarrow> int \<times> 'w"
  sys_getsockname :: "int \<Rightarrow> 'w \<Rightarrow> (int \<times> sockaddr_storage) \<times> 'w"
  sys_select :: "int \<Rightarrow> int set option \<Rightarrow> int set option \<Rightarrow> timeval \<Rightarrow> 'w \<Rightarrow> int \<times> 'w"
  sys_recv :: "int \<Rightarrow> size_t \<Rightarrow> 'w \<Rightarrow> (int \<times> byte list) \<times> 'w"
  sys_send :: "int \<Rightarrow> byte list \<Rightarrow> size_t \<Rightarrow> 'w \<Rightarrow> int \<times> 'w"
  sys_ioctl_FIONREAD :: "int \<Rightarrow> 'w \<Rightarrow> (int \<times> int) \<times> 'w"
  sys_open :: "string \<Rightarrow> int \<Rightarrow> 'w \<Rightarrow> int \<times> 'w"
  sys_read :: "int \<Rightarrow> size_t \<Rightarrow> 'w \<Rightarrow> (int \<times> byte list) \<times> 'w"
  sys_write :: "int \<Rightarrow> byte list \<Rightarrow> size_t \<Rightarrow> 'w \<Rightarrow> int \<times> 'w"
  sys_close :: "int \<Rightarrow> 'w \<Rightarrow> int \<times> 'w"

section \<open>What the transports rely on\<close>

definition keeps :: "('w \<Rightarrow> 'a) \<Rightarrow> ('w \<Rightarrow> 'b \<times> 'w) \<Rightarrow> bool" where
  "keeps obs call \<longleftrightarrow> (\<forall>w. obs (snd (call w)) = obs w)"

lemma keepsD: "keeps obs call \<Longrightarrow> call w = (r, w') \<Longrightarrow> obs w' = obs w"
  by (metis keeps_def snd_conv)

definition yields_fd :: "('w \<Rightarrow> int set) \<Rightarrow> ('w \<Rightarrow> int \<times> 'w) \<Rightarrow> bool" where
  "yields_fd fds call \<longleftrightarrow>
     (\<forall>w fd w'. call w = (fd, w') \<longrightarrow>
        (fd = -1 \<and> fds w' = fds w) \<or> (0 \<le> fd \<and> fd \<notin> fds w \<and> fds w' = insert fd (fds w)))"

lemma yields_fd_failed: "yields_fd fds call \<Longrightarrow> call w = (-1, w') \<Longrightarrow> fds w' = fds w"
  unfolding yields_fd_def by fastforce

lemma yields_fd_ok:
  "yields_fd fds call \<Longrightarrow> call w = (fd, w') \<Longrightarrow> fd \<noteq> -1 \<Longrightarrow>
   0 \<le> fd \<and> fd \<notin> fds w \<and> fds w' = insert fd (fds w)"
  unfolding yields_fd_def by blast

text \<open>
  \<open>acquires got A B\<close>: a routine that returned the descriptor \<open>got\<close> (\<open>None\<close>: no descriptor) took
  the process from holding \<open>A\<close> to holding \<open>B\<close> and leaked nothing on the way.
\<close>

definition acquires :: "int option \<Rightarrow> int set \<Rightarrow> int set \<Rightarrow> bool" where
  "acquires got A B \<longleftrightarrow>
     (case got of None \<Rightarrow> B = A | Some c \<Rightarrow> 0 \<le> c \<and> c \<notin> A \<and> B = insert c A)"

lemma acquires_simps [simp]:
  "acquires None A B \<longleftrightarrow> B = A"
  "acquires (Some c) A B \<longleftrightarrow> 0 \<le> c \<and> c \<notin> A \<and> B = insert c A"
  by (simp_all add: acquires_def)

definition fd_contract :: "'w posix \<Rightarrow> ('w \<Rightarrow> int set) \<Rightarrow> bool" where
  "fd_contract os fds \<longleftrightarrow>
     (\<forall>d t p. yields_fd fds (sys_socket os d t p)) \<and>
     (\<forall>fd. yields_fd fds (sys_accept os fd)) \<and>
     (\<forall>name flags. yields_fd fds (sys_open os name flags)) \<and>
     (\<forall>fd w. fds (snd (sys_close os fd w)) = fds w - {fd}) \<and>
     (\<forall>node service hints. keeps fds (sys_getaddrinfo os node service hints)) \<and>
     (\<forall>as w. fds (sys_freeaddrinfo os as w) = fds w) \<and>
     (\<forall>fd cmd arg. keeps fds (sys_fcntl os fd cmd arg)) \<and>
     (\<forall>fd l n v. keeps fds (sys_setsockopt os fd l n v)) \<and>
     (\<forall>fd l n. keeps fds (sys_getsockopt os fd l n)) \<and>
     (\<forall>fd a. keeps fds (sys_bind os fd a)) \<and>
     (\<forall>fd a. keeps fds (sys_connect os fd a)) \<and>
     (\<forall>fd n. keeps fds (sys_listen os fd n)) \<and>
     (\<forall>fd. keeps fds (sys_getsockname os fd)) \<and>
     (\<forall>n r s tv. keeps fds (sys_select os n r s tv)) \<and>
     (\<forall>fd n. keeps fds (sys_recv os fd n)) \<and>
     (\<forall>fd bs n. keeps fds (sys_send os fd bs n)) \<and>
     (\<forall>fd. keeps fds (sys_ioctl_FIONREAD os fd)) \<and>
     (\<forall>fd n. keeps fds (sys_read os fd n)) \<and>
     (\<forall>fd bs n. keeps fds (sys_write os fd bs n))"

text \<open>
  The facts of the contract in the form proofs use them: the observation after each call,
  given the call's result.
\<close>

lemma fd_contract_opens:
  assumes "fd_contract os fds"
  shows "yields_fd fds (sys_socket os d t p)" "yields_fd fds (sys_accept os fd)"
    "yields_fd fds (sys_open os name flags)"
  using assms by (simp_all add: fd_contract_def)

lemma fd_contract_close:
  assumes "fd_contract os fds"
  shows "sys_close os fd w = (r, w') \<Longrightarrow> fds w' = fds w - {fd}"
    "fds (snd (sys_close os fd w)) = fds w - {fd}"
proof -
  show a: "fds (snd (sys_close os fd w)) = fds w - {fd}" for fd w
    using assms by (simp add: fd_contract_def)
  show "sys_close os fd w = (r, w') \<Longrightarrow> fds w' = fds w - {fd}"
    using a [of fd w] by simp
qed

lemma fd_contract_keeps:
  assumes "fd_contract os fds"
  shows "keeps fds (sys_getaddrinfo os node service hints)" "fds (sys_freeaddrinfo os as w) = fds w"
    "keeps fds (sys_fcntl os fd cmd arg)" "keeps fds (sys_setsockopt os fd l n v)"
    "keeps fds (sys_getsockopt os fd l n)" "keeps fds (sys_bind os fd a)"
    "keeps fds (sys_connect os fd a)" "keeps fds (sys_listen os fd n)"
    "keeps fds (sys_getsockname os fd)" "keeps fds (sys_select os m rs ws tv)"
    "keeps fds (sys_recv os fd len)" "keeps fds (sys_send os fd bs len)"
    "keeps fds (sys_ioctl_FIONREAD os fd)" "keeps fds (sys_read os fd len)"
    "keeps fds (sys_write os fd bs len)"
  using assms by (simp_all add: fd_contract_def)

definition addrinfo_contract :: "'w posix \<Rightarrow> ('w \<Rightarrow> int) \<Rightarrow> bool" where
  "addrinfo_contract os live \<longleftrightarrow>
     (\<forall>node service hints w r as w'. sys_getaddrinfo os node service hints w = ((r, as), w') \<longrightarrow>
        live w' = (if r = 0 \<and> as \<noteq> [] then live w + 1 else live w)) \<and>
     (\<forall>as w. live (sys_freeaddrinfo os as w) = (if as = [] then live w else live w - 1)) \<and>
     (\<forall>d t p. keeps live (sys_socket os d t p)) \<and>
     (\<forall>fd. keeps live (sys_close os fd)) \<and>
     (\<forall>fd cmd arg. keeps live (sys_fcntl os fd cmd arg)) \<and>
     (\<forall>fd l n v. keeps live (sys_setsockopt os fd l n v)) \<and>
     (\<forall>fd l n. keeps live (sys_getsockopt os fd l n)) \<and>
     (\<forall>fd a. keeps live (sys_bind os fd a)) \<and>
     (\<forall>fd a. keeps live (sys_connect os fd a)) \<and>
     (\<forall>fd n. keeps live (sys_listen os fd n)) \<and>
     (\<forall>fd. keeps live (sys_getsockname os fd)) \<and>
     (\<forall>n r s tv. keeps live (sys_select os n r s tv))"

lemma addrinfo_contract_keeps:
  assumes "addrinfo_contract os live"
  shows "keeps live (sys_socket os d t p)" "keeps live (sys_close os fd)"
    "keeps live (sys_fcntl os fd cmd arg)" "keeps live (sys_setsockopt os fd l n v)"
    "keeps live (sys_getsockopt os fd l n)" "keeps live (sys_bind os fd a)"
    "keeps live (sys_connect os fd a)" "keeps live (sys_listen os fd n)"
    "keeps live (sys_getsockname os fd)" "keeps live (sys_select os m rs ws tv)"
  using assms by (simp_all add: addrinfo_contract_def)

lemma addrinfo_contract_lists:
  assumes "addrinfo_contract os live"
  shows "sys_getaddrinfo os node service hints w = ((r, as), w') \<Longrightarrow>
      live w' = (if r = 0 \<and> as \<noteq> [] then live w + 1 else live w)"
    "live (sys_freeaddrinfo os as w) = (if as = [] then live w else live w - 1)"
  using assms by (simp_all add: addrinfo_contract_def)

text \<open>
  Receiving: the call returns -1 and stores nothing, or returns the number of bytes it stored,
  which is at most the length it was given. \<^verbatim>\<open>read\<close> on a serial line is the same.
\<close>

definition receives :: "(size_t \<Rightarrow> 'w \<Rightarrow> (int \<times> byte list) \<times> 'w) \<Rightarrow> bool" where
  "receives call \<longleftrightarrow>
     (\<forall>n w r bs w'. call n w = ((r, bs), w') \<longrightarrow>
        (r = -1 \<and> bs = []) \<or> (r = int (length bs) \<and> length bs \<le> unat n))"

lemma receivesD:
  "receives call \<Longrightarrow> call n w = ((r, bs), w') \<Longrightarrow>
   (r = -1 \<and> bs = []) \<or> (r = int (length bs) \<and> length bs \<le> unat n)"
  unfolding receives_def by blast

definition recv_contract :: "'w posix \<Rightarrow> bool" where
  "recv_contract os \<longleftrightarrow> (\<forall>fd. receives (sys_recv os fd))"

text \<open>
  Sending: the bytes that left are a prefix of the memory the call was pointed at, no longer
  than the length it was given, and the call returns how many; a failed call sends nothing.
\<close>

definition transmits :: "('w \<Rightarrow> byte list) \<Rightarrow> (byte list \<Rightarrow> size_t \<Rightarrow> 'w \<Rightarrow> int \<times> 'w) \<Rightarrow> bool" where
  "transmits out call \<longleftrightarrow>
     (\<forall>mem n w r w'. call mem n w = (r, w') \<longrightarrow>
        (r = -1 \<and> out w' = out w) \<or>
        (0 \<le> r \<and> r \<le> uint n \<and> out w' = out w @ take (nat r) mem))"

lemma transmitsD:
  "transmits out call \<Longrightarrow> call mem n w = (r, w') \<Longrightarrow>
   (r = -1 \<and> out w' = out w) \<or> (0 \<le> r \<and> r \<le> uint n \<and> out w' = out w @ take (nat r) mem)"
  unfolding transmits_def by blast

definition send_contract :: "'w posix \<Rightarrow> int \<Rightarrow> ('w \<Rightarrow> byte list) \<Rightarrow> bool" where
  "send_contract os fd out \<longleftrightarrow>
     transmits out (sys_send os fd) \<and> (\<forall>n r s tv. keeps out (sys_select os n r s tv))"

text \<open>The same for the terminal device a serial line is: \<^verbatim>\<open>read\<close> and \<^verbatim>\<open>write\<close>.\<close>

definition read_contract :: "'w posix \<Rightarrow> bool" where
  "read_contract os \<longleftrightarrow> (\<forall>fd. receives (sys_read os fd))"

definition write_contract :: "'w posix \<Rightarrow> int \<Rightarrow> ('w \<Rightarrow> byte list) \<Rightarrow> bool" where
  "write_contract os fd out \<longleftrightarrow>
     transmits out (sys_write os fd) \<and> (\<forall>n r s tv. keeps out (sys_select os n r s tv))"

text \<open>
  Datagram sockets. \<open>inq\<close> observes the datagrams waiting at the socket; more may arrive during any
  call, at the end. \<^verbatim>\<open>FIONREAD\<close> reports the size of the next one or 0 (udp(7)), a receive takes the
  next one, cut to the length it was given, and a send hands over the whole datagram or fails.
\<close>

definition datagram_in_contract :: "'w posix \<Rightarrow> int \<Rightarrow> ('w \<Rightarrow> byte list list) \<Rightarrow> bool" where
  "datagram_in_contract os fd inq \<longleftrightarrow>
     (\<forall>w r p w'. sys_ioctl_FIONREAD os fd w = ((r, p), w') \<longrightarrow>
        (\<exists>more. inq w' = inq w @ more) \<and>
        (r = 0 \<longrightarrow> p = (case inq w of [] \<Rightarrow> 0 | d # _ \<Rightarrow> int (length d)))) \<and>
     (\<forall>n w r bs w'. sys_recv os fd n w = ((r, bs), w') \<longrightarrow>
        (r = -1 \<and> bs = [] \<and> (\<exists>more. inq w' = inq w @ more)) \<or>
        (\<exists>d rest more. inq w = d # rest \<and> bs = take (unat n) d \<and> r = int (length bs) \<and>
           inq w' = rest @ more))"

lemma datagram_in_contractD:
  assumes "datagram_in_contract os fd inq"
  shows "sys_ioctl_FIONREAD os fd w = ((r, p), w') \<Longrightarrow>
      (\<exists>more. inq w' = inq w @ more) \<and>
      (r = 0 \<longrightarrow> p = (case inq w of [] \<Rightarrow> 0 | d # _ \<Rightarrow> int (length d)))"
    "sys_recv os fd n w = ((r, bs), w') \<Longrightarrow> inq w = d # rest \<Longrightarrow>
      \<exists>more. (r = -1 \<and> bs = [] \<and> inq w' = d # rest @ more) \<or>
        (bs = take (unat n) d \<and> r = int (length bs) \<and> inq w' = rest @ more)"
proof -
  show "sys_ioctl_FIONREAD os fd w = ((r, p), w') \<Longrightarrow>
      (\<exists>more. inq w' = inq w @ more) \<and>
      (r = 0 \<longrightarrow> p = (case inq w of [] \<Rightarrow> 0 | d # _ \<Rightarrow> int (length d)))"
    using assms unfolding datagram_in_contract_def by blast
  assume recv: "sys_recv os fd n w = ((r, bs), w')" and q: "inq w = d # rest"
  from assms recv have "(r = -1 \<and> bs = [] \<and> (\<exists>more. inq w' = inq w @ more)) \<or>
        (\<exists>d rest more. inq w = d # rest \<and> bs = take (unat n) d \<and> r = int (length bs) \<and>
           inq w' = rest @ more)"
    unfolding datagram_in_contract_def by blast
  with q show "\<exists>more. (r = -1 \<and> bs = [] \<and> inq w' = d # rest @ more) \<or>
        (bs = take (unat n) d \<and> r = int (length bs) \<and> inq w' = rest @ more)"
    by auto
qed

definition datagram_out_contract :: "'w posix \<Rightarrow> int \<Rightarrow> ('w \<Rightarrow> byte list list) \<Rightarrow> bool" where
  "datagram_out_contract os fd outq \<longleftrightarrow>
     (\<forall>mem n w r w'. sys_send os fd mem n w = (r, w') \<longrightarrow>
        (r = -1 \<and> outq w' = outq w) \<or> (r = uint n \<and> outq w' = outq w @ [take (unat n) mem])) \<and>
     (\<forall>n r s tv. keeps outq (sys_select os n r s tv))"

lemma datagram_out_contractD:
  assumes "datagram_out_contract os fd outq"
  shows "sys_send os fd mem n w = (r, w') \<Longrightarrow>
      (r = -1 \<and> outq w' = outq w) \<or> (r = uint n \<and> outq w' = outq w @ [take (unat n) mem])"
    "keeps outq (sys_select os m rs ws tv)"
  using assms unfolding datagram_out_contract_def by blast+

end
