(* ===== verification/Socket_Helpers.thy ===== *)
theory Socket_Helpers
  imports Posix_Os
begin

unbundle bit_operations_syntax

text \<open>
  The helpers every socket file keeps in its anonymous namespace (POSIX branch), translated
  from \<^verbatim>\<open>tcp_stream_transport.cpp\<close>: errno classification, non-blocking mode, the conversion of a
  timeout, the readiness wait, the check of a finished connect, and the decimal port. The
  loop that writes a whole buffer, which the TCP stream, the accepted TCP stream and the
  serial line share, is \<open>write_loop\<close>; it is a partial function because a system that reports a
  socket writable and then refuses the write makes it spin.
\<close>

section \<open>Calls around a socket\<close>

abbreviation kInvalidSocket :: int where
  "kInvalidSocket \<equiv> -1"

definition SocketRuntimeReady :: bool where
  "SocketRuntimeReady = True"

definition LastSocketError :: "'w posix \<Rightarrow> 'w \<Rightarrow> int" where
  "LastSocketError os w = sys_errno os w"

definition IsWouldBlock :: "'w posix \<Rightarrow> int \<Rightarrow> bool" where
  "IsWouldBlock os error \<longleftrightarrow>
     error = c_EINPROGRESS (pc os) \<or> error = c_EWOULDBLOCK (pc os) \<or> error = c_EAGAIN (pc os)"

definition CloseNativeSocket :: "'w posix \<Rightarrow> int \<Rightarrow> 'w \<Rightarrow> 'w" where
  "CloseNativeSocket os socket w = snd (sys_close os socket w)"

definition SetNonBlocking :: "'w posix \<Rightarrow> int \<Rightarrow> 'w \<Rightarrow> bool \<times> 'w" where
  "SetNonBlocking os socket w =
     (case sys_fcntl os socket (c_F_GETFL (pc os)) 0 w of
        (flags, w1) \<Rightarrow>
          (if flags < 0 then (False, w1)
           else (case sys_fcntl os socket (c_F_SETFL (pc os)) (flags OR c_O_NONBLOCK (pc os)) w1 of
                   (r, w2) \<Rightarrow> (r = 0, w2))))"

definition ToTimeval :: "TransportDuration \<Rightarrow> timeval" where
  "ToTimeval timeout =
     \<lparr>tv_sec = uint (milliseconds timeout div 1000),
      tv_usec = uint ((milliseconds timeout mod 1000) * 1000)\<rparr>"

definition WaitForSocket ::
  "'w posix \<Rightarrow> int \<Rightarrow> bool \<Rightarrow> TransportDuration \<Rightarrow> 'w \<Rightarrow> TransportStatus \<times> 'w" where
  "WaitForSocket os socket waitForRead timeout w =
     (let readSet = (if waitForRead then {socket} else {});
          writeSet = (if waitForRead then {} else {socket})
      in case sys_select os (socket + 1)
                (if waitForRead then Some readSet else None)
                (if waitForRead then None else Some writeSet)
                (ToTimeval timeout) w of
           (result, w1) \<Rightarrow>
             (if 0 < result then (Ok, w1)
              else if result = 0 then (Timeout, w1)
              else (if waitForRead then ReadFailed else WriteFailed, w1)))"

definition CheckConnected :: "'w posix \<Rightarrow> int \<Rightarrow> 'w \<Rightarrow> TransportStatus \<times> 'w" where
  "CheckConnected os socket w =
     (case sys_getsockopt os socket (c_SOL_SOCKET (pc os)) (c_SO_ERROR (pc os)) w of
        ((r, error), w1) \<Rightarrow>
          (if r \<noteq> 0 then (OpenFailed, w1)
           else (if error = 0 then Ok else OpenFailed, w1)))"

text \<open>\<^verbatim>\<open>std::snprintf(port, sizeof(port), "%u", value)\<close>: decimal digits; 16 characters are room for any port.\<close>

fun decimal :: "nat \<Rightarrow> string" where
  "decimal n = (if n < 10 then [char_of (48 + n)] else decimal (n div 10) @ [char_of (48 + n mod 10)])"

declare decimal.simps [simp del]

definition BuildPort :: "uint16 \<Rightarrow> string" where
  "BuildPort portValue = decimal (unat portValue)"

text \<open>Reading the digits back gives the number, so different ports have different names.\<close>

definition decimal_value :: "string \<Rightarrow> nat" where
  "decimal_value s = fold (\<lambda>c a. a * 10 + (of_char c - 48)) s 0"

lemma decimal_value_decimal: "decimal_value (decimal n) = n"
proof (induction n rule: decimal.induct)
  case (1 n)
  have digit: "of_char (char_of (48 + d) :: char) - 48 = d" if "d < 10" for d :: nat
    using that by simp
  show ?case
  proof (cases "n < 10")
    case True
    then show ?thesis using digit [of n] by (simp add: decimal.simps [of n] decimal_value_def)
  next
    case False
    then have "decimal_value (decimal n) = decimal_value (decimal (n div 10)) * 10 + (of_char (char_of (48 + n mod 10) :: char) - 48)"
      by (simp add: decimal.simps [of n] decimal_value_def del: of_char_of)
    also have "\<dots> = n div 10 * 10 + n mod 10" using 1 False digit [of "n mod 10"] by (simp del: of_char_of)
    finally show ?thesis by simp
  qed
qed

lemma decimal_inject [simp]: "decimal m = decimal n \<longleftrightarrow> m = n"
  by (metis decimal_value_decimal)

subsection \<open>Timeouts\<close>

text \<open>
  C37. The timeout handed to select is exactly the configured number of milliseconds, in whole
  seconds and a remainder of less than one second in microseconds, for every 32-bit duration:
  the 32-bit product in the conversion never wraps.
\<close>

theorem ToTimeval_exact:
  "tv_sec (ToTimeval t) * 1000000 + tv_usec (ToTimeval t) = uint (milliseconds t) * 1000 \<and>
   0 \<le> tv_sec (ToTimeval t) \<and> tv_sec (ToTimeval t) \<le> 4294967 \<and>
   0 \<le> tv_usec (ToTimeval t) \<and> tv_usec (ToTimeval t) < 1000000"
proof -
  let ?m = "milliseconds t"
  have b: "0 \<le> uint ?m" "uint ?m < 4294967296" using unsigned_less [of ?m, where ?'a = int] by simp_all
  have d: "uint (?m div 1000) = uint ?m div 1000" by (simp add: uint_div)
  have m: "uint (?m mod 1000) = uint ?m mod 1000" by (simp add: uint_mod)
  have "uint ((?m mod 1000) * 1000) = uint ?m mod 1000 * 1000"
  proof -
    have "uint ?m mod 1000 * 1000 < 2 ^ 32" using pos_mod_bound [of 1000 "uint ?m"] by simp
    then show ?thesis using b by (simp add: uint_word_ariths m)
  qed
  moreover have "uint ?m = uint ?m div 1000 * 1000 + uint ?m mod 1000" by simp
  moreover have "0 \<le> uint ?m mod 1000" "uint ?m mod 1000 < 1000" by simp_all
  ultimately show ?thesis
    using d b unfolding ToTimeval_def timeval.simps by (intro conjI) linarith+
qed

section \<open>What the helpers leave alone\<close>

lemma SetNonBlocking_keeps:
  assumes "\<And>fd cmd arg. keeps obs (sys_fcntl os fd cmd arg)"
  shows "keeps obs (SetNonBlocking os fd)"
  unfolding keeps_def SetNonBlocking_def
  by (auto split: prod.splits dest!: keepsD [OF assms])

lemma WaitForSocket_keeps:
  assumes "\<And>n r s tv. keeps obs (sys_select os n r s tv)"
  shows "keeps obs (WaitForSocket os fd b t)"
  unfolding keeps_def WaitForSocket_def Let_def
  by (auto split: prod.splits dest: keepsD [OF assms])

lemma CheckConnected_keeps:
  assumes "\<And>fd l n. keeps obs (sys_getsockopt os fd l n)"
  shows "keeps obs (CheckConnected os fd)"
  unfolding keeps_def CheckConnected_def
  by (auto split: prod.splits dest: keepsD [OF assms])

lemma WaitForSocket_status:
  "WaitForSocket os fd b t w = (st, w') \<Longrightarrow>
   st = Ok \<or> st = Timeout \<or> st = (if b then ReadFailed else WriteFailed)"
  by (auto simp: WaitForSocket_def Let_def split: prod.splits if_splits)

lemma CheckConnected_status:
  "CheckConnected os fd w = (st, w') \<Longrightarrow> st = Ok \<or> st = OpenFailed"
  by (auto simp: CheckConnected_def split: prod.splits if_splits)

lemma CloseNativeSocket_fds:
  "fd_contract os fds \<Longrightarrow> fds (CloseNativeSocket os fd w) = fds w - {fd}"
  by (simp add: CloseNativeSocket_def fd_contract_close(2))

lemma CloseNativeSocket_live:
  "addrinfo_contract os live \<Longrightarrow> live (CloseNativeSocket os fd w) = live w"
  unfolding CloseNativeSocket_def by (metis addrinfo_contract_keeps(2) keeps_def)

text \<open>
  A receive whose length went through \<^verbatim>\<open>int\<close> and whose result comes back as \<^verbatim>\<open>int\<close>: nothing is lost
  for sizes below \<open>2^31\<close>.
\<close>

lemma recv_narrow:
  assumes "recv_contract os" and "unat n < 2 ^ 31"
    and "sys_recv os fd (int_to_size (size_to_int n)) w = ((r, bs), w')"
  shows "(r = -1 \<and> ssize_to_int r = -1 \<and> bs = []) \<or>
    (r = int (length bs) \<and> ssize_to_int r = int (length bs) \<and> length bs \<le> unat n)"
proof -
  have "receives (sys_recv os fd)" using assms(1) by (simp add: recv_contract_def)
  from receivesD [OF this assms(3)] have "(r = -1 \<and> bs = []) \<or> (r = int (length bs) \<and> length bs \<le> unat n)"
    using assms(2) by (simp add: cast_simps)
  then show ?thesis using assms(2) by (auto simp: ssize_to_int_small)
qed

section \<open>The write loop\<close>

text \<open>
  \<open>wait\<close> is the readiness wait, \<open>put\<close> hands the memory at \<open>input + written\<close> and the number of
  bytes that remain to the system and returns what it reports, \<open>again\<close> is the errno test after
  a negative report.
\<close>

partial_function (option) write_loop ::
  "('w \<Rightarrow> TransportStatus \<times> 'w) \<Rightarrow> (byte list \<Rightarrow> size_t \<Rightarrow> 'w \<Rightarrow> int \<times> 'w) \<Rightarrow> ('w \<Rightarrow> bool) \<Rightarrow>
   byte list \<Rightarrow> size_t \<Rightarrow> size_t \<Rightarrow> 'w \<Rightarrow> (TransportStatus \<times> 'w) option" where
  "write_loop wait put again input inputSize written w =
     (if written < inputSize then
        (case wait w of
           (waitStatus, w1) \<Rightarrow>
             (if waitStatus \<noteq> Ok then
                Some (if waitStatus = Timeout then Timeout else WriteFailed, w1)
              else
                (case put (drop (unat written) input) (inputSize - written) w1 of
                   (chunk, w2) \<Rightarrow>
                     (if 0 < chunk then
                        write_loop wait put again input inputSize (written + int_to_size chunk) w2
                      else if chunk = 0 then Some (WriteFailed, w2)
                      else if again w2 then
                        write_loop wait put again input inputSize written w2
                      else Some (WriteFailed, w2)))))
      else Some (Ok, w))"

text \<open>
  Induction over the iterations of a loop that returned: one premise per way out and one per
  way round.
\<close>

lemma write_loop_induct [consumes 1, case_names Done Unready Refused Progress Again]:
  assumes ret: "write_loop wait put again input n written w = Some y"
    and "\<And>written w. \<not> written < n \<Longrightarrow> P written w (Ok, w)"
    and "\<And>written w s w1. written < n \<Longrightarrow> wait w = (s, w1) \<Longrightarrow> s \<noteq> Ok \<Longrightarrow>
           P written w (if s = Timeout then Timeout else WriteFailed, w1)"
    and "\<And>written w w1 c w2. written < n \<Longrightarrow> wait w = (Ok, w1) \<Longrightarrow>
           put (drop (unat written) input) (n - written) w1 = (c, w2) \<Longrightarrow> c \<le> 0 \<Longrightarrow>
           c = 0 \<or> \<not> again w2 \<Longrightarrow> P written w (WriteFailed, w2)"
    and "\<And>written w w1 c w2 y. written < n \<Longrightarrow> wait w = (Ok, w1) \<Longrightarrow>
           put (drop (unat written) input) (n - written) w1 = (c, w2) \<Longrightarrow> 0 < c \<Longrightarrow>
           P (written + int_to_size c) w2 y \<Longrightarrow> P written w y"
    and "\<And>written w w1 c w2 y. written < n \<Longrightarrow> wait w = (Ok, w1) \<Longrightarrow>
           put (drop (unat written) input) (n - written) w1 = (c, w2) \<Longrightarrow> c < 0 \<Longrightarrow> again w2 \<Longrightarrow>
           P written w2 y \<Longrightarrow> P written w y"
  shows "P written w y"
proof -
  let ?P = "\<lambda>wait' put' again' input' n' written w y.
    wait' = wait \<and> put' = put \<and> again' = again \<and> input' = input \<and> n' = n \<longrightarrow> P written w y"
  have "?P wait put again input n written w y"
  proof (rule write_loop.raw_induct [where P = ?P, OF _ ret])
    fix f wait' put' again' input' n' written w y
    assume IH: "\<And>wait' put' again' input' n' written w y.
        f wait' put' again' input' n' written w = Some y \<Longrightarrow> ?P wait' put' again' input' n' written w y"
      and eq: "(if written < n' then
        (case wait' w of (waitStatus, w1) \<Rightarrow>
           (if waitStatus \<noteq> Ok then Some (if waitStatus = Timeout then Timeout else WriteFailed, w1)
            else (case put' (drop (unat written) input') (n' - written) w1 of (chunk, w2) \<Rightarrow>
               (if 0 < chunk then f wait' put' again' input' n' (written + int_to_size chunk) w2
                else if chunk = 0 then Some (WriteFailed, w2)
                else if again' w2 then f wait' put' again' input' n' written w2
                else Some (WriteFailed, w2)))))
        else Some (Ok, w)) = Some y"
    show "?P wait' put' again' input' n' written w y"
    proof
      assume "wait' = wait \<and> put' = put \<and> again' = again \<and> input' = input \<and> n' = n"
      then have same: "wait' = wait" "put' = put" "again' = again" "input' = input" "n' = n" by simp_all
      obtain s w1 where wt: "wait w = (s, w1)" by fastforce
      obtain c w2 where pt: "put (drop (unat written) input) (n - written) w1 = (c, w2)" by fastforce
      consider "\<not> written < n" | "written < n" "s \<noteq> Ok"
        | "written < n" "s = Ok" "c \<le> 0" "c = 0 \<or> \<not> again w2"
        | "written < n" "s = Ok" "0 < c" | "written < n" "s = Ok" "c < 0" "again w2" by force
      then show "P written w y"
      proof cases
        case 1
        with eq same have "y = (Ok, w)" by simp
        with 1 show ?thesis using assms(2) by simp
      next
        case 2
        with eq same wt have "y = (if s = Timeout then Timeout else WriteFailed, w1)" by simp
        with 2 wt show ?thesis using assms(3) by simp
      next
        case 3
        with eq same wt pt have "y = (WriteFailed, w2)" by (auto split: if_splits)
        with 3 wt pt show ?thesis using assms(4) by simp
      next
        case 4
        with eq same wt pt have "f wait' put' again' input' n' (written + int_to_size c) w2 = Some y"
          by simp
        then have "P (written + int_to_size c) w2 y" using IH same by blast
        with 4 wt pt show ?thesis using assms(5) by simp
      next
        case 5
        with eq same wt pt have "f wait' put' again' input' n' written w2 = Some y" by simp
        then have "P written w2 y" using IH same by blast
        with 5 wt pt show ?thesis using assms(6) by simp
      qed
    qed
  qed
  then show ?thesis by simp
qed

lemma write_loop_keeps:
  assumes "write_loop wait put again input n written w = Some y"
    and wait: "keeps obs wait" and put: "\<And>mem k. keeps obs (put mem k)"
  shows "obs (snd y) = obs w"
  using assms(1)
  by (induction rule: write_loop_induct) (auto dest!: keepsD [OF wait] keepsD [OF put])

lemma written_advance:
  assumes "written < n" and "0 < c" and "c \<le> uint (n - written)"
  shows "unat (written + int_to_size c) = unat written + nat c \<and> unat written + nat c \<le> unat n"
proof -
  have "unat (n - written) = unat n - unat written"
    using assms(1) by (intro unat_sub) (rule less_imp_le)
  moreover have "nat c \<le> unat (n - written)"
    using nat_mono [OF assms(3)] by simp
  moreover have "unat written < unat n" using assms(1) by (simp add: word_less_nat_alt)
  ultimately have le: "unat written + nat c \<le> unat n" by linarith
  have "unat (int_to_size c) = nat c"
  proof -
    have "int_to_size c = of_nat (nat c)" using assms(2) by (simp add: int_to_size_def)
    then show ?thesis using le unat_of_nat_le [of "nat c" n] by simp
  qed
  moreover have "unat written + nat c < 2 ^ 64" using le unsigned_less [of n, where ?'a = nat] by simp
  ultimately show ?thesis using le by (simp add: unat_word_ariths)
qed

text \<open>
  The system's side of one write, as the loop sees it: a positive report is the length of the
  prefix that left, anything else left nothing.
\<close>

definition puts :: "('w \<Rightarrow> byte list) \<Rightarrow> size_t \<Rightarrow> (byte list \<Rightarrow> size_t \<Rightarrow> 'w \<Rightarrow> int \<times> 'w) \<Rightarrow> bool" where
  "puts out limit put \<longleftrightarrow>
     (\<forall>mem n w c w'. n \<le> limit \<longrightarrow> put mem n w = (c, w') \<longrightarrow>
        (c \<le> 0 \<and> out w' = out w) \<or> (0 < c \<and> c \<le> uint n \<and> out w' = out w @ take (nat c) mem))"

lemma putsD:
  "puts out limit put \<Longrightarrow> n \<le> limit \<Longrightarrow> put mem n w = (c, w') \<Longrightarrow>
   (c \<le> 0 \<and> out w' = out w) \<or> (0 < c \<and> c \<le> uint n \<and> out w' = out w @ take (nat c) mem)"
  unfolding puts_def by blast

lemma sub_le_size: "written < n \<Longrightarrow> n - written \<le> (n :: size_t)"
  by (simp add: word_le_nat_alt unat_sub_if' word_less_nat_alt)

lemma write_loop_sound:
  assumes "write_loop wait put again input n written w = Some y"
    and "keeps out wait" and "puts out n put" and "unat n \<le> length input" and "written \<le> n"
  shows "\<exists>k. unat written + k \<le> unat n \<and> out (snd y) = out w @ take k (drop (unat written) input) \<and>
    (fst y = Ok \<longleftrightarrow> unat written + k = unat n) \<and> fst y \<in> {Ok, Timeout, WriteFailed}"
  using assms
proof (induction rule: write_loop_induct)
  case (Done written w)
  then show ?case by (intro exI [of _ 0]) (auto simp: word_less_nat_alt word_le_nat_alt)
next
  case (Unready written w s w1)
  then show ?case
    by (intro exI [of _ 0]) (auto simp: word_less_nat_alt dest: keepsD)
next
  case (Refused written w w1 c w2)
  from putsD [OF \<open>puts out n put\<close> sub_le_size [OF Refused(1)] Refused(3)] Refused(4)
  have "out w2 = out w1" by auto
  with Refused show ?case
    by (intro exI [of _ 0]) (auto simp: word_less_nat_alt dest: keepsD)
next
  case (Progress written w w1 c w2 y)
  from putsD [OF \<open>puts out n put\<close> sub_le_size [OF Progress(1)] Progress(3)] Progress(4)
  have c: "c \<le> uint (n - written)" and out: "out w2 = out w1 @ take (nat c) (drop (unat written) input)"
    by auto
  note adv = written_advance [OF Progress(1) Progress(4) c]
  then have le: "written + int_to_size c \<le> n" by (simp add: word_le_nat_alt)
  from Progress.IH [OF Progress.prems(1-3) le] obtain k where
    k: "unat written + nat c + k \<le> unat n"
      "out (snd y) = out w2 @ take k (drop (unat written + nat c) input)"
      "fst y = Ok \<longleftrightarrow> unat written + nat c + k = unat n" "fst y \<in> {Ok, Timeout, WriteFailed}"
    using adv by auto
  have "out w1 = out w" using Progress.prems(1) Progress(2) by (rule keepsD)
  then have "out (snd y) = out w @ take (nat c + k) (drop (unat written) input)"
    using k(2) out by (simp add: take_add add.commute [of "unat written"])
  with k show ?case by (intro exI [of _ "nat c + k"]) (simp add: add.assoc)
next
  case (Again written w w1 c w2 y)
  from putsD [OF \<open>puts out n put\<close> sub_le_size [OF Again(1)] Again(3)] Again(4)
  have "out w2 = out w1" by auto
  moreover have "out w1 = out w" using Again.prems(1) Again(2) by (rule keepsD)
  ultimately show ?case using Again.IH [OF Again.prems] by simp
qed

text \<open>
  The loop returns when the system makes progress: every refused write that is tried again
  lowers a counter \<open>\<mu>\<close> of the world (the number of spurious wake-ups still to come).
\<close>

definition wakes :: "('w \<Rightarrow> nat) \<Rightarrow> ('w \<Rightarrow> TransportStatus \<times> 'w) \<Rightarrow>
    (byte list \<Rightarrow> size_t \<Rightarrow> 'w \<Rightarrow> int \<times> 'w) \<Rightarrow> ('w \<Rightarrow> bool) \<Rightarrow> bool" where
  "wakes \<mu> wait put again \<longleftrightarrow>
     (\<forall>w w1 mem n c w2. wait w = (Ok, w1) \<longrightarrow> put mem n w1 = (c, w2) \<longrightarrow> c < 0 \<longrightarrow> again w2 \<longrightarrow>
        \<mu> w2 < \<mu> w)"

lemma write_loop_returns:
  assumes "puts out n put" and "wakes \<mu> wait put again" and "written \<le> n"
  shows "\<exists>y. write_loop wait put again input n written w = Some y"
  using assms(3)
proof (induction "unat n - unat written" arbitrary: written w rule: less_induct)
  case outer: less
  show ?case
  proof (induction "\<mu> w" arbitrary: w rule: less_induct)
    case inner: less
    show ?case
    proof (cases "written < n")
      case False
      then show ?thesis by (simp add: write_loop.simps)
    next
      case True
      obtain s w1 where wait: "wait w = (s, w1)" by fastforce
      obtain c w2 where put: "put (drop (unat written) input) (n - written) w1 = (c, w2)" by fastforce
      consider "s \<noteq> Ok" | "s = Ok" "0 < c" | "s = Ok" "c \<le> 0" "c = 0 \<or> \<not> again w2"
        | "s = Ok" "c < 0" "again w2" by force
      then show ?thesis
      proof cases
        case 1
        with True wait show ?thesis by (simp add: write_loop.simps)
      next
        case 2
        have "c \<le> uint (n - written)"
          using putsD [OF assms(1) sub_le_size [OF True] put] 2 by auto
        note adv = written_advance [OF True 2(2) this]
        have "\<exists>y. write_loop wait put again input n (written + int_to_size c) w2 = Some y"
          using adv 2(2) by (intro outer.hyps) (auto simp: word_le_nat_alt)
        with True wait put 2 show ?thesis by (simp add: write_loop.simps [of wait put again input n written w])
      next
        case 3
        with True wait put show ?thesis by (auto simp: write_loop.simps)
      next
        case 4
        with wait put have "\<mu> w2 < \<mu> w" using assms(2) unfolding wakes_def by blast
        from inner.hyps [OF this] True wait put 4 show ?thesis
          by (simp add: write_loop.simps [of wait put again input n written w])
      qed
    qed
  qed
qed

text \<open>
  Without progress it does not return: if every wait reports the socket writable and every
  write is refused with a would-block error, the loop spins for ever.
\<close>

lemma write_loop_diverges:
  assumes "written < n" and "Q w"
    and "\<And>w. Q w \<Longrightarrow> \<exists>w1 c w2. wait w = (Ok, w1) \<and>
           put (drop (unat written) input) (n - written) w1 = (c, w2) \<and> c < 0 \<and> again w2 \<and> Q w2"
  shows "write_loop wait put again input n written w = None"
proof (rule ccontr)
  assume "write_loop wait put again input n written w \<noteq> None"
  then obtain y where "write_loop wait put again input n written w = Some y" by auto
  then have "\<not> (written = written \<and> Q w)"
  proof (induction rule: write_loop_induct [where P = "\<lambda>v w y. \<not> (v = written \<and> Q w)"])
    case (Progress v w w1 c w2 y)
    then show ?case using assms(3) by fastforce
  next
    case (Again v w w1 c w2 y)
    then show ?case using assms(3) by fastforce
  qed (use assms(1,3) in fastforce)+
  with assms(2) show False by simp
qed

end
