(* ===== verification/Posix_Sim.thy ===== *)
theory Posix_Sim
  imports Socket_Helpers
begin

text \<open>
  A small executable system that keeps the contracts of \<open>Posix_Os\<close>. It models no part of the
  repository: it shows that the hypotheses on the operating system can hold together, and the
  concrete instances of the theorems are evaluated on it. Calls that the tests of the
  repository would steer from outside (the results of \<^verbatim>\<open>connect\<close> and \<^verbatim>\<open>select\<close>, the incoming
  segments, the room for outgoing bytes) are scripted in its state.
\<close>

record sim =
  sim_fds :: "int list"
  sim_errno :: int
  sim_addrs :: "addrinfo list"
  sim_live :: int
  sim_connect :: "int list"
  sim_select :: "int list"
  sim_in :: "byte list list"
  sim_out :: "byte list"
  sim_room :: nat
  sim_sent :: "byte list list"

definition sim_constants :: posix_constants where
  "sim_constants = \<lparr>c_EAGAIN = 11, c_EWOULDBLOCK = 11, c_EINPROGRESS = 115, c_F_GETFL = 3,
     c_F_SETFL = 4, c_O_NONBLOCK = 2048, c_O_RDWR = 2, c_O_NOCTTY = 256, c_AF_UNSPEC = 0,
     c_AF_INET = 2, c_AF_INET6 = 10, c_SOCK_STREAM = 1, c_SOCK_DGRAM = 2, c_IPPROTO_TCP = 6,
     c_IPPROTO_UDP = 17, c_AI_PASSIVE = 1, c_SOL_SOCKET = 1, c_SO_REUSEADDR = 2, c_SO_ERROR = 4\<rparr>"

definition sim_new_fd :: "sim \<Rightarrow> int \<times> sim" where
  "sim_new_fd w = (let fd = fold max (sim_fds w) 2 + 1 in (fd, w\<lparr>sim_fds := fd # sim_fds w\<rparr>))"

definition sim_receive :: "size_t \<Rightarrow> sim \<Rightarrow> (int \<times> byte list) \<times> sim" where
  "sim_receive n w =
     (case sim_in w of
        [] \<Rightarrow> ((0, []), w)
      | seg # rest \<Rightarrow>
          (let k = min (unat n) (length seg)
           in ((int k, take k seg),
               w\<lparr>sim_in := (if k = length seg then rest else drop k seg # rest)\<rparr>)))"

definition sim_transmit :: "byte list \<Rightarrow> size_t \<Rightarrow> sim \<Rightarrow> int \<times> sim" where
  "sim_transmit mem n w =
     (let k = min (unat n) (min 4 (min (sim_room w) (length mem)))
      in if sim_room w = 0 then (-1, w\<lparr>sim_errno := 11\<rparr>)
         else (int k, w\<lparr>sim_out := sim_out w @ take k mem\<rparr>))"

definition sim_os :: "sim posix" where
  "sim_os = \<lparr>pc = sim_constants,
     sys_errno = sim_errno,
     sys_getaddrinfo = (\<lambda>node service hints w.
        if sim_addrs w = [] then ((-2, []), w)
        else ((0, sim_addrs w), w\<lparr>sim_live := sim_live w + 1\<rparr>)),
     sys_freeaddrinfo = (\<lambda>as w. if as = [] then w else w\<lparr>sim_live := sim_live w - 1\<rparr>),
     sys_socket = (\<lambda>d t p. sim_new_fd),
     sys_fcntl = (\<lambda>fd cmd arg w. (0, w)),
     sys_setsockopt = (\<lambda>fd l n v w. (0, w)),
     sys_getsockopt = (\<lambda>fd l n w. ((0, 0), w)),
     sys_bind = (\<lambda>fd a w. (0, w)),
     sys_connect = (\<lambda>fd a w.
        case sim_connect w of [] \<Rightarrow> (0, w)
        | e # es \<Rightarrow> (if e = 0 then 0 else -1, w\<lparr>sim_connect := es, sim_errno := e\<rparr>)),
     sys_listen = (\<lambda>fd n w. (0, w)),
     sys_accept = (\<lambda>fd. sim_new_fd),
     sys_getsockname = (\<lambda>fd w. ((0, \<lparr>ss_family = 2, sin_port = (15, 219), sin6_port = (0, 0)\<rparr>), w)),
     sys_select = (\<lambda>n r s tv w.
        case sim_select w of [] \<Rightarrow> (1, w) | x # xs \<Rightarrow> (x, w\<lparr>sim_select := xs\<rparr>)),
     sys_recv = (\<lambda>fd. sim_receive),
     sys_send = (\<lambda>fd. sim_transmit),
     sys_ioctl_FIONREAD = (\<lambda>fd w. ((0, case sim_in w of [] \<Rightarrow> 0 | d # _ \<Rightarrow> int (length d)), w)),
     sys_open = (\<lambda>name flags. sim_new_fd),
     sys_read = (\<lambda>fd. sim_receive),
     sys_write = (\<lambda>fd. sim_transmit),
     sys_close = (\<lambda>fd w. (0, w\<lparr>sim_fds := removeAll fd (sim_fds w)\<rparr>))\<rparr>"

definition sim_init :: sim where
  "sim_init = \<lparr>sim_fds = [0, 1, 2], sim_errno = 0,
     sim_addrs = [\<lparr>ai_family = 2, ai_socktype = 1, ai_protocol = 6, ai_addr = [127, 0, 0, 1]\<rparr>],
     sim_live = 0, sim_connect = [], sim_select = [], sim_in = [], sim_out = [], sim_room = 4, sim_sent = []\<rparr>"

abbreviation sim_fd_set :: "sim \<Rightarrow> int set" where
  "sim_fd_set w \<equiv> set (sim_fds w)"

lemma fold_max_ge: "(a :: int) \<le> fold max xs a \<and> (\<forall>x \<in> set xs. x \<le> fold max xs a)"
proof (induction xs arbitrary: a)
  case (Cons x xs)
  from Cons.IH [of "max x a"] show ?case by auto
qed simp

lemma sim_new_fd_yields: "yields_fd sim_fd_set sim_new_fd"
  unfolding yields_fd_def
proof (intro allI impI)
  fix w fd w'
  assume "sim_new_fd w = (fd, w')"
  then have fd: "fd = fold max (sim_fds w) 2 + 1" and w': "w' = w\<lparr>sim_fds := fd # sim_fds w\<rparr>"
    by (auto simp: sim_new_fd_def Let_def)
  have "0 \<le> fd" "fd \<notin> set (sim_fds w)" using fold_max_ge [of 2 "sim_fds w"] fd by fastforce+
  with w' show "fd = - 1 \<and> set (sim_fds w') = set (sim_fds w) \<or>
      0 \<le> fd \<and> fd \<notin> set (sim_fds w) \<and> set (sim_fds w') = insert fd (set (sim_fds w))" by simp
qed

lemma sim_receive_keeps: "keeps sim_fd_set (sim_receive n)"
  by (auto simp: keeps_def sim_receive_def Let_def split: list.splits)

lemma sim_transmit_keeps: "keeps sim_fd_set (sim_transmit mem n)"
  by (auto simp: keeps_def sim_transmit_def Let_def)

lemma sim_fd_contract: "fd_contract sim_os sim_fd_set"
  using sim_new_fd_yields sim_receive_keeps sim_transmit_keeps
  by (auto simp: fd_contract_def sim_os_def keeps_def split: list.splits)

lemma sim_addrinfo_contract: "addrinfo_contract sim_os sim_live"
  by (auto simp: addrinfo_contract_def sim_os_def keeps_def sim_new_fd_def Let_def split: list.splits)

lemma sim_receives: "receives sim_receive"
  by (auto simp: receives_def sim_receive_def Let_def split: list.splits)

lemma sim_recv_contract: "recv_contract sim_os"
  using sim_receives by (simp add: recv_contract_def sim_os_def)

lemma sim_transmits: "transmits sim_out sim_transmit"
  unfolding transmits_def
proof (intro allI impI)
  fix mem n w r w'
  assume eq: "sim_transmit mem n w = (r, w')"
  have "int (min (unat n) k) \<le> uint n" for k
    using of_nat_mono [of "min (unat n) k" "unat n", where ?'a = int] by simp
  with eq show "r = - 1 \<and> sim_out w' = sim_out w \<or>
      0 \<le> r \<and> r \<le> uint n \<and> sim_out w' = sim_out w @ take (nat r) mem"
    by (auto simp: sim_transmit_def Let_def split: if_splits)
qed

lemma sim_send_contract: "send_contract sim_os fd sim_out"
  using sim_transmits by (auto simp: send_contract_def sim_os_def keeps_def split: list.splits)

text \<open>
  A variant whose refused sends make room: a spurious wake-up is followed by progress.
\<close>

definition sim_wake_os :: "sim posix" where
  "sim_wake_os = sim_os\<lparr>sys_send := (\<lambda>fd mem n w.
     if sim_room w = 0 then (-1, w\<lparr>sim_errno := 11, sim_room := 4\<rparr>) else sim_transmit mem n w)\<rparr>"

lemma sim_wake_send_contract: "send_contract sim_wake_os fd sim_out"
  using sim_transmits sim_send_contract
  by (auto simp: send_contract_def sim_wake_os_def transmits_def)

lemma sim_read_contract: "read_contract sim_os"
  using sim_receives by (simp add: read_contract_def sim_os_def)

lemma sim_write_contract: "write_contract sim_os fd sim_out"
  using sim_transmits by (auto simp: write_contract_def sim_os_def keeps_def split: list.splits)

text \<open>A variant whose sockets carry datagrams.\<close>

definition sim_datagram_os :: "sim posix" where
  "sim_datagram_os = sim_os
     \<lparr>sys_recv := (\<lambda>fd n w. case sim_in w of
        [] \<Rightarrow> ((-1, []), w\<lparr>sim_errno := 11\<rparr>)
      | d # rest \<Rightarrow> ((int (length (take (unat n) d)), take (unat n) d), w\<lparr>sim_in := rest\<rparr>)),
      sys_send := (\<lambda>fd mem n w. (uint n, w\<lparr>sim_sent := sim_sent w @ [take (unat n) mem]\<rparr>))\<rparr>"

lemma sim_datagram_in_contract: "datagram_in_contract sim_datagram_os fd sim_in"
  by (auto simp: datagram_in_contract_def sim_datagram_os_def sim_os_def split: list.splits)

lemma sim_datagram_out_contract: "datagram_out_contract sim_datagram_os fd sim_sent"
  by (auto simp: datagram_out_contract_def sim_datagram_os_def sim_os_def keeps_def split: list.splits)

lemmas sim_eval = sim_os_def sim_constants_def sim_init_def sim_new_fd_def sim_receive_def sim_transmit_def
  Let_def

end
