(* ===== verification/Tcp_Stream.thy ===== *)
theory Tcp_Stream
  imports Socket_Helpers Posix_Sim
begin

text \<open>
  \<^verbatim>\<open>tcp_stream_transport.hpp/.cpp\<close>: the TCP client stream. The object is a record; its methods
  take the operating system, the object and the world and return both updated. Theorems: no
  descriptor and no address list leaks from Open, IsOpen goes with owning a descriptor in every
  reachable state, reads stay inside the caller's buffer, WriteAll writes everything or
  reports a failure, and returns when the system makes progress.
\<close>

section \<open>The object\<close>

record TcpStreamTransportOptions =
  tcp_host :: string
  tcp_port :: uint16
  tcp_connectTimeout :: TransportDuration
  tcp_readTimeout :: TransportDuration
  tcp_writeTimeout :: TransportDuration

definition TcpStreamTransportOptions_new :: TcpStreamTransportOptions where
  "TcpStreamTransportOptions_new = \<lparr>tcp_host = '''', tcp_port = 0,
     tcp_connectTimeout = \<lparr>milliseconds = 5000\<rparr>, tcp_readTimeout = \<lparr>milliseconds = 5000\<rparr>,
     tcp_writeTimeout = \<lparr>milliseconds = 5000\<rparr>\<rparr>"

record TcpStreamTransport =
  tcp_options :: TcpStreamTransportOptions
  tcp_socket :: int
  tcp_open :: bool

definition TcpStreamTransport_new :: "TcpStreamTransportOptions \<Rightarrow> TcpStreamTransport" where
  "TcpStreamTransport_new options =
     \<lparr>tcp_options = options, tcp_socket = kInvalidSocket, tcp_open = False\<rparr>"

section \<open>Methods\<close>

text \<open>
  The loop of Open over the resolved addresses. Its result is the final status and the socket
  of the candidate that connected, which Open stores in the object.
\<close>

fun TcpStreamTransport_connect ::
  "'w posix \<Rightarrow> TransportDuration \<Rightarrow> addrinfo list \<Rightarrow> TransportStatus \<Rightarrow> 'w \<Rightarrow>
   (TransportStatus \<times> int option) \<times> 'w" where
  "TcpStreamTransport_connect os connectTimeout [] finalStatus w = ((finalStatus, None), w)"
| "TcpStreamTransport_connect os connectTimeout (address # rest) finalStatus w =
     (case sys_socket os (ai_family address) (ai_socktype address) (ai_protocol address) w of
        (candidate, w1) \<Rightarrow>
          (if candidate = kInvalidSocket
           then TcpStreamTransport_connect os connectTimeout rest finalStatus w1
           else (case SetNonBlocking os candidate w1 of
             (nonBlocking, w2) \<Rightarrow>
               (if \<not> nonBlocking
                then TcpStreamTransport_connect os connectTimeout rest finalStatus
                       (CloseNativeSocket os candidate w2)
                else (case sys_connect os candidate (ai_addr address) w2 of
                  (connectResult, w3) \<Rightarrow>
                    (if connectResult = 0 then ((Ok, Some candidate), w3)
                     else if \<not> IsWouldBlock os (LastSocketError os w3)
                     then TcpStreamTransport_connect os connectTimeout rest finalStatus
                            (CloseNativeSocket os candidate w3)
                     else (case WaitForSocket os candidate False connectTimeout w3 of
                       (waited, w4) \<Rightarrow>
                         (case (if waited = Ok then CheckConnected os candidate w4 else (waited, w4)) of
                            (checked, w5) \<Rightarrow>
                              (if checked = Ok then ((Ok, Some candidate), w5)
                               else TcpStreamTransport_connect os connectTimeout rest checked
                                      (CloseNativeSocket os candidate w5))))))))))"

definition TcpStreamTransport_Open ::
  "'w posix \<Rightarrow> TcpStreamTransport \<Rightarrow> 'w \<Rightarrow> TransportStatus \<times> TcpStreamTransport \<times> 'w" where
  "TcpStreamTransport_Open os t w =
     (if tcp_open t then (AlreadyOpen, t, w)
      else if tcp_host (tcp_options t) = '''' \<or> tcp_port (tcp_options t) = 0
      then (InvalidArgument, t, w)
      else if \<not> SocketRuntimeReady then (OpenFailed, t, w)
      else
        (let hints = \<lparr>hint_flags = 0, hint_family = c_AF_UNSPEC (pc os),
                      hint_socktype = c_SOCK_STREAM (pc os), hint_protocol = c_IPPROTO_TCP (pc os)\<rparr>;
             port = BuildPort (tcp_port (tcp_options t))
         in case sys_getaddrinfo os (Some (tcp_host (tcp_options t))) port hints w of
              ((r, addresses), w1) \<Rightarrow>
                (if r \<noteq> 0 then (OpenFailed, t, w1)
                 else (case TcpStreamTransport_connect os (tcp_connectTimeout (tcp_options t))
                              addresses OpenFailed w1 of
                         ((finalStatus, chosen), w2) \<Rightarrow>
                           (finalStatus,
                            (case chosen of
                               None \<Rightarrow> t
                             | Some candidate \<Rightarrow> t\<lparr>tcp_socket := candidate, tcp_open := True\<rparr>),
                            sys_freeaddrinfo os addresses w2)))))"

definition TcpStreamTransport_Close ::
  "'w posix \<Rightarrow> TcpStreamTransport \<Rightarrow> 'w \<Rightarrow> TransportStatus \<times> TcpStreamTransport \<times> 'w" where
  "TcpStreamTransport_Close os t w =
     (let w1 = (if tcp_socket t \<noteq> kInvalidSocket then CloseNativeSocket os (tcp_socket t) w else w)
      in (Ok, t\<lparr>tcp_socket := kInvalidSocket, tcp_open := False\<rparr>, w1))"

definition TcpStreamTransport_IsOpen :: "TcpStreamTransport \<Rightarrow> bool" where
  "TcpStreamTransport_IsOpen t = tcp_open t"

definition TcpStreamTransport_ReadSome ::
  "'w posix \<Rightarrow> buffer \<Rightarrow> size_t \<Rightarrow> TcpStreamTransport \<Rightarrow> 'w \<Rightarrow>
   read_result \<times> TcpStreamTransport \<times> 'w" where
  "TcpStreamTransport_ReadSome os output outputSize t w =
     (if \<not> tcp_open t then ((NotOpen, 0, output), t, w)
      else if output = None \<and> outputSize \<noteq> 0 then ((InvalidArgument, 0, output), t, w)
      else if outputSize = 0 then ((Ok, 0, output), t, w)
      else (case WaitForSocket os (tcp_socket t) True (tcp_readTimeout (tcp_options t)) w of
        (waitStatus, w1) \<Rightarrow>
          (if waitStatus \<noteq> Ok then ((waitStatus, 0, output), t, w1)
           else (case sys_recv os (tcp_socket t) (int_to_size (size_to_int outputSize)) w1 of
             ((r, bytes), w2) \<Rightarrow>
               (let received = ssize_to_int r; output' = copy_to bytes output
                in if 0 < received then ((Ok, int_to_size received, output'), t, w2)
                   else if received = 0 then
                     (case TcpStreamTransport_Close os t w2 of
                        (_, t1, w3) \<Rightarrow> ((ConnectionClosed, 0, output'), t1, w3))
                   else if IsWouldBlock os (LastSocketError os w2)
                   then ((WouldBlock, 0, output'), t, w2)
                   else ((ReadFailed, 0, output'), t, w2))))))"

text \<open>One \<^verbatim>\<open>send\<close> of the write loop, with the casts of the call.\<close>

definition socket_put :: "'w posix \<Rightarrow> int \<Rightarrow> byte list \<Rightarrow> size_t \<Rightarrow> 'w \<Rightarrow> int \<times> 'w" where
  "socket_put os socket mem remaining w =
     (case sys_send os socket mem (int_to_size (size_to_int remaining)) w of
        (r, w1) \<Rightarrow> (ssize_to_int r, w1))"

definition TcpStreamTransport_WriteAll ::
  "'w posix \<Rightarrow> buffer \<Rightarrow> size_t \<Rightarrow> TcpStreamTransport \<Rightarrow> 'w \<Rightarrow>
   (TransportStatus \<times> TcpStreamTransport \<times> 'w) option" where
  "TcpStreamTransport_WriteAll os input inputSize t w =
     (if \<not> tcp_open t then Some (NotOpen, t, w)
      else if input = None \<and> inputSize \<noteq> 0 then Some (InvalidArgument, t, w)
      else (case write_loop
                   (WaitForSocket os (tcp_socket t) False (tcp_writeTimeout (tcp_options t)))
                   (socket_put os (tcp_socket t))
                   (\<lambda>w. IsWouldBlock os (LastSocketError os w))
                   (mem_of input) inputSize 0 w of
              None \<Rightarrow> None
            | Some (status, w1) \<Rightarrow> Some (status, t, w1)))"

text \<open>The destructor closes.\<close>

definition TcpStreamTransport_destroy :: "'w posix \<Rightarrow> TcpStreamTransport \<Rightarrow> 'w \<Rightarrow> 'w" where
  "TcpStreamTransport_destroy os t w = snd (snd (TcpStreamTransport_Close os t w))"

definition TcpStreamTransport_methods :: "'w posix \<Rightarrow> (TcpStreamTransport \<times> 'w) IByteStream" where
  "TcpStreamTransport_methods os =
     \<lparr>vOpen = (\<lambda>(t, w). TcpStreamTransport_Open os t w),
      vClose = (\<lambda>(t, w). TcpStreamTransport_Close os t w),
      vIsOpen = (\<lambda>(t, w). TcpStreamTransport_IsOpen t),
      vReadSome = (\<lambda>output outputSize (t, w). TcpStreamTransport_ReadSome os output outputSize t w),
      vWriteAll = (\<lambda>input inputSize (t, w). TcpStreamTransport_WriteAll os input inputSize t w)\<rparr>"

lemma TcpStreamTransport_methods_simps [simp]:
  "vOpen (TcpStreamTransport_methods os) (t, w) = TcpStreamTransport_Open os t w"
  "vClose (TcpStreamTransport_methods os) (t, w) = TcpStreamTransport_Close os t w"
  "vIsOpen (TcpStreamTransport_methods os) (t, w) = TcpStreamTransport_IsOpen t"
  "vReadSome (TcpStreamTransport_methods os) output n (t, w) =
     TcpStreamTransport_ReadSome os output n t w"
  "vWriteAll (TcpStreamTransport_methods os) input n (t, w) =
     TcpStreamTransport_WriteAll os input n t w"
  by (simp_all add: TcpStreamTransport_methods_def)

section \<open>The connect loop\<close>

lemma connect_status:
  assumes "TcpStreamTransport_connect os d as fin w = ((st, chosen), w')" and "fin \<noteq> Ok"
  shows "(st = Ok \<longleftrightarrow> chosen \<noteq> None) \<and> chosen \<noteq> Some kInvalidSocket \<and>
    st \<in> {Ok, fin, Timeout, OpenFailed, WriteFailed}"
  using assms
proof (induction as arbitrary: fin w)
  case (Cons a as)
  from Cons.prems show ?case
    by (auto split: prod.splits if_splits dest!: Cons.IH WaitForSocket_status CheckConnected_status)
qed simp

lemma connect_fds:
  assumes "TcpStreamTransport_connect os d as fin w = ((st, chosen), w')"
    and fd: "fd_contract os fds"
  shows "acquires chosen (fds w) (fds w')"
  using assms(1)
proof (induction as arbitrary: fin w)
  case (Cons a as)
  note facts = fd_contract_keeps [OF fd]
  note sock = yields_fd_ok [OF fd_contract_opens(1) [OF fd]] yields_fd_failed [OF fd_contract_opens(1) [OF fd]]
  from Cons.prems show ?case
    by (auto split: prod.splits if_splits
      dest!: Cons.IH sock keepsD [OF SetNonBlocking_keeps [OF facts(3)]] keepsD [OF facts(7)]
        keepsD [OF WaitForSocket_keeps [OF facts(10)]] keepsD [OF CheckConnected_keeps [OF facts(5)]]
      simp: CloseNativeSocket_fds [OF fd])
qed simp

lemma connect_live:
  assumes "TcpStreamTransport_connect os d as fin w = (r, w')"
    and ai: "addrinfo_contract os live"
  shows "live w' = live w"
  using assms(1)
proof (induction as arbitrary: fin w)
  case (Cons a as)
  note facts = addrinfo_contract_keeps [OF ai]
  from Cons.prems show ?case
    by (auto split: prod.splits if_splits
      dest!: Cons.IH keepsD [OF facts(1)] keepsD [OF SetNonBlocking_keeps [OF facts(3)]] keepsD [OF facts(7)]
        keepsD [OF WaitForSocket_keeps [OF facts(10)]] keepsD [OF CheckConnected_keeps [OF facts(5)]]
      simp: CloseNativeSocket_live [OF ai])
qed simp

section \<open>Opening\<close>

lemma TcpStreamTransport_Open_cases:
  assumes "TcpStreamTransport_Open os t w = (st, t', w')" and "\<not> tcp_open t"
  obtains (refused) "st = InvalidArgument" "t' = t" "w' = w"
    | (unresolved) r as where "st = OpenFailed" "t' = t" "r \<noteq> 0"
        "sys_getaddrinfo os (Some (tcp_host (tcp_options t))) (BuildPort (tcp_port (tcp_options t)))
           \<lparr>hint_flags = 0, hint_family = c_AF_UNSPEC (pc os), hint_socktype = c_SOCK_STREAM (pc os),
            hint_protocol = c_IPPROTO_TCP (pc os)\<rparr> w = ((r, as), w')"
    | (resolved) as w1 chosen w2 where
        "sys_getaddrinfo os (Some (tcp_host (tcp_options t))) (BuildPort (tcp_port (tcp_options t)))
           \<lparr>hint_flags = 0, hint_family = c_AF_UNSPEC (pc os), hint_socktype = c_SOCK_STREAM (pc os),
            hint_protocol = c_IPPROTO_TCP (pc os)\<rparr> w = ((0, as), w1)"
        "TcpStreamTransport_connect os (tcp_connectTimeout (tcp_options t)) as OpenFailed w1 =
           ((st, chosen), w2)"
        "t' = (case chosen of None \<Rightarrow> t | Some c \<Rightarrow> t\<lparr>tcp_socket := c, tcp_open := True\<rparr>)"
        "w' = sys_freeaddrinfo os as w2"
  using assms
  by (auto simp: TcpStreamTransport_Open_def Let_def SocketRuntimeReady_def
      split: prod.splits if_splits)

lemma Open_object:
  assumes "TcpStreamTransport_Open os t w = (st, t', w')" and "\<not> tcp_open t"
  shows "(if st = Ok then tcp_open t' \<and> tcp_socket t' \<noteq> kInvalidSocket \<and>
            t' = t\<lparr>tcp_socket := tcp_socket t', tcp_open := True\<rparr> else t' = t) \<and>
    st \<in> {Ok, InvalidArgument, Timeout, OpenFailed, WriteFailed}"
  using assms
proof (cases rule: TcpStreamTransport_Open_cases)
  case (resolved as w1 chosen w2)
  from connect_status [OF resolved(2)] resolved(3) show ?thesis
    by (cases chosen) auto
qed auto

lemma Open_fds:
  assumes "TcpStreamTransport_Open os t w = (st, t', w')" and "\<not> tcp_open t"
    and fd: "fd_contract os fds"
  shows "acquires (if st = Ok then Some (tcp_socket t') else None) (fds w) (fds w')"
  using assms(1,2)
proof (cases rule: TcpStreamTransport_Open_cases)
  case (unresolved r as)
  then show ?thesis using keepsD [OF fd_contract_keeps(1) [OF fd]] by auto
next
  case (resolved as w1 chosen w2)
  have "fds w1 = fds w" using keepsD [OF fd_contract_keeps(1) [OF fd] resolved(1)] .
  moreover have "fds w' = fds w2" using resolved(4) fd_contract_keeps(2) [OF fd] by simp
  ultimately show ?thesis
    using connect_fds [OF resolved(2) fd] connect_status [OF resolved(2)] resolved(3)
    by (cases chosen) auto
qed simp

lemma Open_live:
  assumes "TcpStreamTransport_Open os t w = (st, t', w')" and "\<not> tcp_open t"
    and ai: "addrinfo_contract os live"
  shows "live w' = live w"
  using assms(1,2)
proof (cases rule: TcpStreamTransport_Open_cases)
  case (unresolved r as)
  then show ?thesis using addrinfo_contract_lists(1) [OF ai] by auto
next
  case (resolved as w1 chosen w2)
  then show ?thesis
    using addrinfo_contract_lists [OF ai] connect_live [OF resolved(2) ai] by auto
qed simp

text \<open>
  C1. A call of Open on a closed TCP stream never leaks: on Ok the process holds exactly one
  more descriptor, a fresh one that the stream owns; on every failure, whichever addresses
  were tried, it holds the same descriptors as before and the stream is unchanged. The resolver's
  address list is released on every path. The status is one of Ok, InvalidArgument, Timeout,
  OpenFailed and WriteFailed.
\<close>

theorem tcp_open_balanced:
  assumes "TcpStreamTransport_Open os t w = (st, t', w')" and "\<not> tcp_open t"
    and "fd_contract os fds" and "addrinfo_contract os live"
  shows "(if st = Ok
          then tcp_open t' \<and> 0 \<le> tcp_socket t' \<and> tcp_socket t' \<notin> fds w \<and>
               fds w' = insert (tcp_socket t') (fds w) \<and> tcp_options t' = tcp_options t
          else t' = t \<and> fds w' = fds w) \<and>
    live w' = live w \<and> st \<in> {Ok, InvalidArgument, Timeout, OpenFailed, WriteFailed}"
proof -
  have "tcp_options t' = tcp_options t"
    using Open_object [OF assms(1,2)] by (cases t; cases t') (auto split: if_splits)
  then show ?thesis
    using Open_object [OF assms(1,2)] Open_fds [OF assms(1-3)] Open_live [OF assms(1,2,4)]
    by (cases "st = Ok") simp_all
qed

definition sim_tcp_options :: TcpStreamTransportOptions where
  "sim_tcp_options = TcpStreamTransportOptions_new\<lparr>tcp_host := ''meter'', tcp_port := 4059\<rparr>"

text \<open>
  Two addresses resolve; the first refuses the connection (\<^verbatim>\<open>ECONNREFUSED\<close>), the second is in
  progress (\<^verbatim>\<open>EINPROGRESS\<close>) and then connects.
\<close>

definition sim_two_addresses :: sim where
  "sim_two_addresses = sim_init\<lparr>sim_addrs :=
     [\<lparr>ai_family = 10, ai_socktype = 1, ai_protocol = 6, ai_addr = [1]\<rparr>,
      \<lparr>ai_family = 2, ai_socktype = 1, ai_protocol = 6, ai_addr = [127, 0, 0, 1]\<rparr>],
     sim_connect := [111, 115]\<rparr>"

lemmas tcp_eval = sim_eval sim_tcp_options_def sim_two_addresses_def TcpStreamTransportOptions_new_def
  TcpStreamTransport_new_def TcpStreamTransport_Open_def TcpStreamTransport_Close_def
  SocketRuntimeReady_def SetNonBlocking_def CloseNativeSocket_def IsWouldBlock_def LastSocketError_def
  WaitForSocket_def CheckConnected_def

lemma sim_open_second:
  "TcpStreamTransport_Open sim_os (TcpStreamTransport_new sim_tcp_options) sim_two_addresses =
     (Ok, \<lparr>tcp_options = sim_tcp_options, tcp_socket = 3, tcp_open = True\<rparr>,
      sim_two_addresses\<lparr>sim_fds := [3, 0, 1, 2], sim_connect := [], sim_errno := 115\<rparr>)"
  by (simp add: tcp_eval)

theorem tcp_open_balanced_witness:
  "sim_fd_set (snd (snd (TcpStreamTransport_Open sim_os (TcpStreamTransport_new sim_tcp_options)
       sim_two_addresses))) = insert 3 (sim_fd_set sim_two_addresses) \<and>
   sim_live (snd (snd (TcpStreamTransport_Open sim_os (TcpStreamTransport_new sim_tcp_options)
       sim_two_addresses))) = sim_live sim_two_addresses"
  using tcp_open_balanced [OF sim_open_second _ sim_fd_contract sim_addrinfo_contract]
  unfolding sim_open_second by (simp add: TcpStreamTransport_new_def)

section \<open>Reading\<close>

lemma TcpStreamTransport_ReadSome_cases:
  assumes "TcpStreamTransport_ReadSome os out n t w = ((st, k, out'), t', w')" and "tcp_open t"
    and "out \<noteq> None \<or> n = 0"
  obtains (empty) "n = 0" "st = Ok" "k = 0" "out' = out" "t' = t" "w' = w"
    | (unready) "n \<noteq> 0" "WaitForSocket os (tcp_socket t) True (tcp_readTimeout (tcp_options t)) w = (st, w')"
        "st = Timeout \<or> st = ReadFailed" "k = 0" "out' = out" "t' = t"
    | (received) w1 r bs w2 where "n \<noteq> 0"
        "WaitForSocket os (tcp_socket t) True (tcp_readTimeout (tcp_options t)) w = (Ok, w1)"
        "sys_recv os (tcp_socket t) (int_to_size (size_to_int n)) w1 = ((r, bs), w2)"
        "out' = copy_to bs out" "k = (if 0 < ssize_to_int r then int_to_size (ssize_to_int r) else 0)"
        "t' = (if ssize_to_int r = 0 then t\<lparr>tcp_socket := kInvalidSocket, tcp_open := False\<rparr> else t)"
        "w' = (if ssize_to_int r = 0 \<and> tcp_socket t \<noteq> kInvalidSocket
               then CloseNativeSocket os (tcp_socket t) w2 else w2)"
        "st = (if 0 < ssize_to_int r then Ok else if ssize_to_int r = 0 then ConnectionClosed
               else if IsWouldBlock os (LastSocketError os w2) then WouldBlock else ReadFailed)"
  using assms
  by (auto simp: TcpStreamTransport_ReadSome_def TcpStreamTransport_Close_def Let_def
      split: prod.splits if_splits dest: WaitForSocket_status)

lemma ReadSome_closed:
  "\<not> tcp_open t \<Longrightarrow> TcpStreamTransport_ReadSome os out n t w = ((NotOpen, 0, out), t, w)"
  by (simp add: TcpStreamTransport_ReadSome_def)

lemma ReadSome_null:
  "tcp_open t \<Longrightarrow> n \<noteq> 0 \<Longrightarrow>
   TcpStreamTransport_ReadSome os None n t w = ((InvalidArgument, 0, None), t, w)"
  by (simp add: TcpStreamTransport_ReadSome_def)

text \<open>
  C4. Reading from an open TCP stream into a buffer of at least \<open>n < 2^31\<close> bytes delivers exactly
  what the system received: Ok (for a non-zero size) means one receive of a non-empty segment
  that fits the buffer, stored from its start with its length reported and the rest of the memory
  untouched; every other status reports zero bytes and leaves the memory as it was. The stream
  is closed by the call exactly when it reports ConnectionClosed, which is the end of the stream.
\<close>

theorem tcp_read_delivers:
  assumes "TcpStreamTransport_ReadSome os (Some buf) n t w = ((st, k, out'), t', w')"
    and "tcp_open t" and "unat n < 2 ^ 31" and "unat n \<le> length buf" and "recv_contract os"
  shows "(st = Ok \<and> n \<noteq> 0 \<longrightarrow>
      (\<exists>w1 bs. WaitForSocket os (tcp_socket t) True (tcp_readTimeout (tcp_options t)) w = (Ok, w1) \<and>
         sys_recv os (tcp_socket t) n w1 = ((int (length bs), bs), w') \<and>
         0 < length bs \<and> length bs \<le> unat n \<and> unat k = length bs \<and>
         out' = Some (bs @ drop (length bs) buf))) \<and>
    (st \<noteq> Ok \<longrightarrow> k = 0 \<and> out' = Some buf) \<and>
    (st = ConnectionClosed \<longleftrightarrow> \<not> tcp_open t') \<and> (tcp_open t' \<longrightarrow> t' = t) \<and>
    st \<in> {Ok, Timeout, ReadFailed, WouldBlock, ConnectionClosed}"
  using assms(1,2) option.distinct(2) [THEN disjI1, of buf "n = 0"]
proof (cases rule: TcpStreamTransport_ReadSome_cases)
  case (received w1 r bs w2)
  from recv_narrow [OF assms(5,3) received(3)] show ?thesis
  proof (elim disjE conjE)
    assume "r = - 1" "ssize_to_int r = - 1" "bs = []"
    then show ?thesis using received(2-) assms(2) by (auto split: if_splits)
  next
    assume "r = int (length bs)" "ssize_to_int r = int (length bs)" "length bs \<le> unat n"
    then show ?thesis
      using received(2-) assms(2,3) unat_of_nat_le [of "length bs" n]
      by (cases "bs = []") (auto simp: cast_simps)
  qed
qed (use assms in auto)

definition sim_tcp :: TcpStreamTransport where
  "sim_tcp = \<lparr>tcp_options = sim_tcp_options, tcp_socket = 3, tcp_open = True\<rparr>"

lemma sim_read:
  "TcpStreamTransport_ReadSome sim_os (Some [0, 0, 0]) 3 sim_tcp (sim_init\<lparr>sim_in := [[7, 8, 9, 10], [11]]\<rparr>) =
     ((Ok, 3, Some [7, 8, 9]), sim_tcp, sim_init\<lparr>sim_in := [[10], [11]]\<rparr>)"
  by (simp add: TcpStreamTransport_ReadSome_def sim_tcp_def WaitForSocket_def sim_eval
      size_to_int_small int_to_size_uint ssize_to_int_small int_to_size_def)

theorem tcp_read_delivers_witness:
  "\<exists>w1 bs. WaitForSocket sim_os 3 True (tcp_readTimeout sim_tcp_options)
        (sim_init\<lparr>sim_in := [[7, 8, 9, 10], [11]]\<rparr>) = (Ok, w1) \<and>
     sys_recv sim_os 3 3 w1 = ((int (length bs), bs), sim_init\<lparr>sim_in := [[10], [11]]\<rparr>) \<and>
     Some [7, 8, 9 :: byte] = Some (bs @ drop (length bs) [0, 0, 0])"
  using tcp_read_delivers [OF sim_read _ _ _ sim_recv_contract] unfolding sim_tcp_def by auto

section \<open>Ownership and lifecycle\<close>

text \<open>
  \<open>tcp_owns fds base t w\<close>: the stream holds one descriptor of its own exactly while it is open,
  beside the descriptors \<open>base\<close> the process held anyway. \<open>tcp_invar\<close> adds what is relied on of the
  system, so that it can serve as the invariant of the interface's laws.
\<close>

definition tcp_owns :: "('w \<Rightarrow> int set) \<Rightarrow> int set \<Rightarrow> TcpStreamTransport \<Rightarrow> 'w \<Rightarrow> bool" where
  "tcp_owns fds base t w \<longleftrightarrow>
     (if tcp_open t then acquires (Some (tcp_socket t)) base (fds w)
      else tcp_socket t = kInvalidSocket \<and> fds w = base)"

definition tcp_invar ::
  "'w posix \<Rightarrow> ('w \<Rightarrow> int set) \<Rightarrow> int set \<Rightarrow> TcpStreamTransport \<times> 'w \<Rightarrow> bool" where
  "tcp_invar os fds base s \<longleftrightarrow>
     fd_contract os fds \<and> recv_contract os \<and> tcp_owns fds base (fst s) (snd s)"

lemma tcp_invarD:
  assumes "tcp_invar os fds base s"
  shows "fd_contract os fds" "recv_contract os" "tcp_owns fds base (fst s) (snd s)"
  using assms by (simp_all add: tcp_invar_def)

lemma Open_owns:
  assumes "TcpStreamTransport_Open os t w = (st, t', w')" and "fd_contract os fds"
    and "tcp_owns fds base t w"
  shows "tcp_owns fds base t' w'"
proof (cases "tcp_open t")
  case True
  with assms show ?thesis by (simp add: TcpStreamTransport_Open_def)
next
  case False
  then show ?thesis
    using Open_fds [OF assms(1) _ assms(2)] Open_object [OF assms(1)] assms(3)
    by (auto simp: tcp_owns_def split: if_splits)
qed

lemma Close_owns:
  assumes "TcpStreamTransport_Close os t w = (st, t', w')" and "fd_contract os fds"
    and "tcp_owns fds base t w"
  shows "st = Ok \<and> tcp_owns fds base t' w' \<and> \<not> tcp_open t' \<and> (\<not> tcp_open t \<longrightarrow> t' = t \<and> w' = w)"
  using assms CloseNativeSocket_fds [OF assms(2)]
  by (auto simp: TcpStreamTransport_Close_def Let_def tcp_owns_def split: if_splits)

lemma ReadSome_owns:
  assumes "TcpStreamTransport_ReadSome os out n t w = ((st, k, out'), t', w')"
    and fd: "fd_contract os fds" and "tcp_owns fds base t w"
  shows "tcp_owns fds base t' w' \<and> (tcp_open t' \<longrightarrow> tcp_open t) \<and>
    (st \<noteq> ConnectionClosed \<longrightarrow> t' = t)"
proof (cases "tcp_open t \<and> (out \<noteq> None \<or> n = 0)")
  case False
  then show ?thesis using assms(1,3) by (cases "tcp_open t"; cases out) (auto simp: ReadSome_closed ReadSome_null)
next
  case True
  note keep = keepsD [OF WaitForSocket_keeps [OF fd_contract_keeps(10) [OF fd]]]
    keepsD [OF fd_contract_keeps(11) [OF fd]]
  from assms(1) conjunct1 [OF True] conjunct2 [OF True] show ?thesis
  proof (cases rule: TcpStreamTransport_ReadSome_cases)
    case (received w1 r bs w2)
    have "fds w2 = fds w" using keep received(2,3) by metis
    then show ?thesis
      using received(6-) True assms(3) CloseNativeSocket_fds [OF fd] by (auto simp: tcp_owns_def)
  qed (use True assms(3) keep in \<open>auto simp: tcp_owns_def\<close>)
qed

lemma ReadSome_frame:
  assumes "TcpStreamTransport_ReadSome os out n t w = ((st, k, out'), t', w')"
    and "recv_contract os" and "grants out n" and "unat n < 2 ^ 31"
  shows "buffer_frame n k out out' \<and> (st \<noteq> Ok \<longrightarrow> k = 0 \<and> out' = out)"
proof (cases "tcp_open t \<and> (out \<noteq> None \<or> n = 0)")
  case False
  then show ?thesis using assms(1) by (cases "tcp_open t"; cases out) (auto simp: ReadSome_closed ReadSome_null)
next
  case True
  from assms(1) conjunct1 [OF True] conjunct2 [OF True] show ?thesis
  proof (cases rule: TcpStreamTransport_ReadSome_cases)
    case (received w1 r bs w2)
    then obtain buf where buf: "out = Some buf" "unat n \<le> length buf" using True assms(3) by auto
    from recv_narrow [OF assms(2,4) received(3)] show ?thesis
      using received(4,5,8) buf unat_of_nat_le [of "length bs" n]
      by (cases "bs = []") (auto simp: cast_simps)
  qed auto
qed

section \<open>Writing\<close>

lemma socket_put_keeps:
  assumes "\<And>bs n. keeps obs (sys_send os fd bs n)"
  shows "keeps obs (socket_put os fd mem n)"
  by (auto simp: keeps_def socket_put_def split: prod.splits dest: keepsD [OF assms])

lemma WriteAll_owns:
  assumes "TcpStreamTransport_WriteAll os input n t w = Some (st, t', w')"
    and fd: "fd_contract os fds" and "tcp_owns fds base t w"
  shows "t' = t \<and> tcp_owns fds base t' w'"
  using assms(1,3) fd_contract_keeps(10,12) [OF fd]
  by (auto simp: TcpStreamTransport_WriteAll_def tcp_owns_def split: if_splits option.splits
      dest!: write_loop_keeps [OF _ WaitForSocket_keeps socket_put_keeps, where obs = fds])

interpretation tcp: byte_stream "TcpStreamTransport_methods os" "tcp_invar os fds base"
  for os :: "'w posix" and fds :: "'w \<Rightarrow> int set" and base :: "int set"
proof (unfold_locales; (simp only: split_paired_all TcpStreamTransport_methods_simps TcpStreamTransport_IsOpen_def)?)
  fix t :: TcpStreamTransport and w :: 'w and st t' w' out n k out' r
  assume inv: "tcp_invar os fds base (t, w)"
  note D = tcp_invarD [OF inv, unfolded fst_conv snd_conv]
  note ok = tcp_invar_def D(1,2)
  show "tcp_open t \<Longrightarrow> TcpStreamTransport_Open os t w = (AlreadyOpen, t, w)"
    by (simp add: TcpStreamTransport_Open_def)
  show "\<not> tcp_open t \<Longrightarrow> TcpStreamTransport_Open os t w = (st, t', w') \<Longrightarrow> tcp_open t' = (st = Ok)"
    using Open_object by (force split: if_splits)
  show "TcpStreamTransport_Close os t w = (st, t', w') \<Longrightarrow> st = Ok \<and> \<not> tcp_open t'"
    using Close_owns [OF _ D(1,3)] by auto
  show "\<not> tcp_open t \<Longrightarrow> TcpStreamTransport_Close os t w = (Ok, t, w)"
    using Close_owns [OF _ D(1,3)] by (metis prod_cases3)
  show "TcpStreamTransport_Open os t w = (st, t', w') \<Longrightarrow> tcp_invar os fds base (t', w')"
    using Open_owns [OF _ D(1,3)] by (simp add: ok)
  show "TcpStreamTransport_Close os t w = (st, t', w') \<Longrightarrow> tcp_invar os fds base (t', w')"
    using Close_owns [OF _ D(1,3)] by (simp add: ok)
  show "\<not> tcp_open t \<Longrightarrow> TcpStreamTransport_ReadSome os out n t w = ((NotOpen, 0, out), t, w)"
    by (rule ReadSome_closed)
  show "tcp_open t \<Longrightarrow> n \<noteq> 0 \<Longrightarrow>
      TcpStreamTransport_ReadSome os None n t w = ((InvalidArgument, 0, None), t, w)"
    by (rule ReadSome_null)
  show "grants out n \<Longrightarrow> unat n < 2 ^ 31 \<Longrightarrow>
      TcpStreamTransport_ReadSome os out n t w = ((st, k, out'), t', w') \<Longrightarrow>
      buffer_frame n k out out' \<and> (st \<noteq> Ok \<longrightarrow> k = 0 \<and> out' = out)"
    using ReadSome_frame [OF _ D(2)] by auto
  show "TcpStreamTransport_ReadSome os out n t w = ((st, k, out'), t', w') \<Longrightarrow> tcp_open t' \<longrightarrow> tcp_open t"
    using ReadSome_owns [OF _ D(1,3)] by auto
  show "TcpStreamTransport_ReadSome os out n t w = ((st, k, out'), t', w') \<Longrightarrow>
      st \<noteq> ConnectionClosed \<Longrightarrow> tcp_open t' = tcp_open t"
    using ReadSome_owns [OF _ D(1,3)] by metis
  show "\<not> tcp_open t \<Longrightarrow> TcpStreamTransport_WriteAll os out n t w = Some (NotOpen, t, w)"
    by (simp add: TcpStreamTransport_WriteAll_def)
  show "tcp_open t \<Longrightarrow> n \<noteq> 0 \<Longrightarrow>
      TcpStreamTransport_WriteAll os None n t w = Some (InvalidArgument, t, w)"
    by (simp add: TcpStreamTransport_WriteAll_def)
  show "TcpStreamTransport_WriteAll os out n t w = Some (st, t', w') \<Longrightarrow> tcp_open t' = tcp_open t"
    using WriteAll_owns [OF _ D(1,3)] by metis
  show "TcpStreamTransport_WriteAll os out n t w = Some (st, t', w') \<Longrightarrow> tcp_invar os fds base (t', w')"
    using WriteAll_owns [OF _ D(1,3)] by (simp add: ok)
  show "TcpStreamTransport_ReadSome os out n t w = (r, t', w') \<Longrightarrow> tcp_invar os fds base (t', w')"
    using ReadSome_owns [OF _ D(1,3)] by (cases r) (simp add: ok)
qed

lemma tcp_destroy_fds:
  assumes "tcp_owns fds base t w" and "fd_contract os fds"
  shows "fds (TcpStreamTransport_destroy os t w) = base"
proof -
  obtain st t2 w2 where close: "TcpStreamTransport_Close os t w = (st, t2, w2)" using prod_cases3 by blast
  from Close_owns [OF close assms(2,1)] close show ?thesis
    by (simp add: TcpStreamTransport_destroy_def tcp_owns_def)
qed

lemma tcp_new_invar:
  "fd_contract os fds \<Longrightarrow> recv_contract os \<Longrightarrow> tcp_invar os fds (fds w) (TcpStreamTransport_new options, w)"
  by (simp add: tcp_invar_def tcp_owns_def TcpStreamTransport_new_def)

text \<open>
  C3. Whatever a client does with a TCP stream, in any order and number of Open, Close, ReadSome
  and WriteAll calls: while the stream is open the process holds exactly one descriptor more
  than before the stream was built, the stream's own; when it is closed (by Close, or by a
  read that met the end of the stream) it holds none more; and after the destructor the process
  holds what it held before.
\<close>

theorem tcp_session_no_leak:
  assumes "stream_run (TcpStreamTransport_methods os) calls (TcpStreamTransport_new options, w) =
      Some (log, t, w')"
    and "fd_contract os fds" and "recv_contract os"
  shows "(if TcpStreamTransport_IsOpen t
          then tcp_socket t \<notin> fds w \<and> fds w' = insert (tcp_socket t) (fds w)
          else tcp_socket t = kInvalidSocket \<and> fds w' = fds w) \<and>
    (TcpStreamTransport_IsOpen t \<longrightarrow> opened_last log) \<and>
    fds (TcpStreamTransport_destroy os t w') = fds w"
proof -
  note init = tcp_new_invar [OF assms(2,3), of w options]
  note inv = tcp_invarD(3) [OF tcp.run_invar [OF init assms(1)], unfolded fst_conv snd_conv]
  have "TcpStreamTransport_IsOpen t \<Longrightarrow> opened_last log"
    using tcp.is_open_only_after_open [OF init _ assms(1)]
    by (simp add: TcpStreamTransport_IsOpen_def TcpStreamTransport_new_def)
  then show ?thesis
    using inv tcp_destroy_fds [OF inv assms(2)] by (auto simp: tcp_owns_def TcpStreamTransport_IsOpen_def)
qed

definition sim_calls :: "stream_call list" where
  "sim_calls = [CallOpen, CallReadSome (Some [0, 0]) 2, CallReadSome (Some [0, 0]) 2, CallOpen, CallOpen]"

lemma sim_session:
  "stream_run (TcpStreamTransport_methods sim_os) sim_calls
     (TcpStreamTransport_new sim_tcp_options, sim_init\<lparr>sim_in := [[5]]\<rparr>) =
   Some ([(CallOpen, Ok), (CallReadSome (Some [0, 0]) 2, Ok),
      (CallReadSome (Some [0, 0]) 2, ConnectionClosed), (CallOpen, Ok), (CallOpen, AlreadyOpen)],
     \<lparr>tcp_options = sim_tcp_options, tcp_socket = 3, tcp_open = True\<rparr>,
     sim_init\<lparr>sim_fds := [3, 0, 1, 2]\<rparr>)"
  by (simp add: sim_calls_def tcp_eval TcpStreamTransport_ReadSome_def size_to_int_small int_to_size_uint
      ssize_to_int_small int_to_size_def)

theorem tcp_session_no_leak_witness:
  "sim_fd_set (TcpStreamTransport_destroy sim_os
      \<lparr>tcp_options = sim_tcp_options, tcp_socket = 3, tcp_open = True\<rparr> (sim_init\<lparr>sim_fds := [3, 0, 1, 2]\<rparr>)) =
   sim_fd_set (sim_init\<lparr>sim_in := [[5]]\<rparr>) \<and>
   opened_last [(CallOpen, Ok), (CallReadSome (Some [0, 0]) 2, Ok),
      (CallReadSome (Some [0, 0]) 2, ConnectionClosed), (CallOpen, Ok), (CallOpen, AlreadyOpen)]"
  using tcp_session_no_leak [OF sim_session sim_fd_contract sim_recv_contract]
  by (simp add: TcpStreamTransport_IsOpen_def)

subsection \<open>WriteAll\<close>

lemma socket_put_puts:
  assumes "send_contract os fd out" and "unat limit < 2 ^ 31"
  shows "puts out limit (socket_put os fd)"
  unfolding puts_def
proof (intro allI impI)
  fix mem n w c w'
  assume le: "n \<le> limit" and put: "socket_put os fd mem n w = (c, w')"
  have small: "unat n < 2 ^ 31" using le assms(2) by (simp add: word_le_nat_alt)
  then have "uint n < 2 ^ 31" by (rule uint_less_of_unat)
  obtain r where send: "sys_send os fd mem n w = (r, w')" and c: "c = ssize_to_int r"
    using put small by (auto simp: socket_put_def size_cast_id split: prod.splits)
  have "transmits out (sys_send os fd)" using assms(1) by (simp add: send_contract_def)
  from transmitsD [OF this send] \<open>uint n < 2 ^ 31\<close> c
  show "c \<le> 0 \<and> out w' = out w \<or> 0 < c \<and> c \<le> uint n \<and> out w' = out w @ take (nat c) mem"
    by (cases "r = 0") (auto simp: ssize_to_int_small)
qed

lemma send_contract_wait: "send_contract os fd out \<Longrightarrow> keeps out (WaitForSocket os fd b t)"
  by (simp add: send_contract_def WaitForSocket_keeps)

text \<open>
  C2. WriteAll on an open TCP stream writes the whole input or reports a failure: of an input of
  \<open>n < 2^31\<close> bytes a prefix leaves through the socket, in order and without gaps or repetitions
  however the system splits it into chunks; the status is Ok exactly when the prefix is the
  whole input, and Timeout or WriteFailed otherwise. The stream itself is unchanged.
\<close>

theorem tcp_write_all_or_fail:
  assumes "TcpStreamTransport_WriteAll os (Some input) n t w = Some (st, t', w')"
    and "tcp_open t" and "unat n < 2 ^ 31" and "unat n \<le> length input"
    and "send_contract os (tcp_socket t) out"
  shows "\<exists>k. k \<le> unat n \<and> out w' = out w @ take k input \<and> (st = Ok \<longleftrightarrow> k = unat n) \<and>
    st \<in> {Ok, Timeout, WriteFailed} \<and> t' = t"
proof -
  from assms(1,2) obtain y where loop: "write_loop
        (WaitForSocket os (tcp_socket t) False (tcp_writeTimeout (tcp_options t)))
        (socket_put os (tcp_socket t)) (\<lambda>w. IsWouldBlock os (LastSocketError os w)) input n 0 w = Some y"
    and y: "y = (st, w')" "t' = t"
    by (auto simp: TcpStreamTransport_WriteAll_def split: option.splits)
  from write_loop_sound [OF loop send_contract_wait [OF assms(5)] socket_put_puts [OF assms(5,3)] assms(4)]
  show ?thesis using y by simp
qed

lemma sim_write:
  "TcpStreamTransport_WriteAll sim_os (Some [1, 2, 3, 4, 5, 6]) 6 sim_tcp sim_init =
     Some (Ok, sim_tcp, sim_init\<lparr>sim_out := [1, 2, 3, 4, 5, 6]\<rparr>)"
  by (simp add: TcpStreamTransport_WriteAll_def sim_tcp_def write_loop.simps WaitForSocket_def socket_put_def
      sim_eval size_to_int_small int_to_size_uint ssize_to_int_small int_to_size_def)

theorem tcp_write_all_or_fail_witness:
  "\<exists>k. k \<le> 6 \<and> [1, 2, 3, 4, 5, 6 :: byte] = [] @ take k [1, 2, 3, 4, 5, 6] \<and> (Ok = Ok \<longleftrightarrow> k = 6)"
  using tcp_write_all_or_fail [OF sim_write _ _ _ sim_send_contract]
  by (auto simp: sim_tcp_def sim_init_def)

text \<open>
  C6. WriteAll on an open TCP stream returns, whatever the input of a size below \<open>2^31\<close>, as soon as the system makes
  progress: there is a counter that every spurious wake-up (select reports the socket writable,
  send refuses with a would-block error) lowers.
\<close>

theorem tcp_write_all_returns:
  assumes "unat n < 2 ^ 31" and "send_contract os (tcp_socket t) out"
    and "wakes \<mu> (WaitForSocket os (tcp_socket t) False (tcp_writeTimeout (tcp_options t)))
           (socket_put os (tcp_socket t)) (\<lambda>w. IsWouldBlock os (LastSocketError os w))"
  shows "\<exists>st w'. TcpStreamTransport_WriteAll os input n t w = Some (st, t, w')"
proof -
  from write_loop_returns [OF socket_put_puts [OF assms(2,1)] assms(3), of 0 "mem_of input" w]
  obtain st w' where "write_loop
        (WaitForSocket os (tcp_socket t) False (tcp_writeTimeout (tcp_options t)))
        (socket_put os (tcp_socket t)) (\<lambda>w. IsWouldBlock os (LastSocketError os w))
        (mem_of input) n 0 w = Some (st, w')"
    by auto
  then show ?thesis by (simp add: TcpStreamTransport_WriteAll_def)
qed

lemma sim_wakes:
  "wakes (\<lambda>w. if sim_room w = 0 then 1 else 0) (WaitForSocket sim_wake_os fd False timeout)
     (socket_put sim_wake_os fd) (\<lambda>w. IsWouldBlock sim_wake_os (LastSocketError sim_wake_os w))"
proof -
  have "\<not> ssize_to_int (int (min i (min 4 j))) < 0" for i j :: nat
    by (simp add: ssize_to_int_small)
  then show ?thesis
    unfolding wakes_def
    by (auto simp: WaitForSocket_def socket_put_def sim_wake_os_def sim_os_def Let_def
        sim_transmit_def split: prod.splits if_splits list.splits)
qed

theorem tcp_write_all_returns_witness:
  "\<exists>st w'. TcpStreamTransport_WriteAll sim_wake_os (Some [1, 2, 3, 4, 5]) 5 sim_tcp
      (sim_init\<lparr>sim_room := 0\<rparr>) = Some (st, sim_tcp, w')"
  by (rule tcp_write_all_returns [OF _ sim_wake_send_contract sim_wakes]) simp

text \<open>
  C36. The configured write timeout does not bound WriteAll: if, from the present state of the
  system on, select keeps reporting the socket writable while send keeps refusing with a
  would-block error, WriteAll of a non-empty input does not return.
\<close>

theorem tcp_write_all_spins:
  assumes "tcp_open t" and "n \<noteq> 0" and "Q w"
    and "\<And>w mem len. Q w \<Longrightarrow> \<exists>w1 w2.
           WaitForSocket os (tcp_socket t) False (tcp_writeTimeout (tcp_options t)) w = (Ok, w1) \<and>
           sys_send os (tcp_socket t) mem len w1 = (-1, w2) \<and> IsWouldBlock os (LastSocketError os w2) \<and> Q w2"
  shows "TcpStreamTransport_WriteAll os (Some input) n t w = None"
proof -
  have "write_loop (WaitForSocket os (tcp_socket t) False (tcp_writeTimeout (tcp_options t)))
      (socket_put os (tcp_socket t)) (\<lambda>w. IsWouldBlock os (LastSocketError os w)) input n 0 w = None"
  proof (rule write_loop_diverges [where Q = Q])
    show "0 < n" using assms(2) by (simp add: word_neq_0_conv)
    fix w assume "Q w"
    from assms(4) [OF this, of "drop (unat 0) input" "int_to_size (size_to_int (n - 0))"]
    show "\<exists>w1 c w2. WaitForSocket os (tcp_socket t) False (tcp_writeTimeout (tcp_options t)) w = (Ok, w1) \<and>
        socket_put os (tcp_socket t) (drop (unat 0) input) (n - 0) w1 = (c, w2) \<and> c < 0 \<and>
        IsWouldBlock os (LastSocketError os w2) \<and> Q w2"
      by (auto simp: socket_put_def ssize_to_int_small)
  qed (fact assms(3))
  then show ?thesis using assms(1) by (simp add: TcpStreamTransport_WriteAll_def)
qed

theorem tcp_write_all_spins_witness:
  "TcpStreamTransport_WriteAll sim_os (Some [1]) 1 sim_tcp (sim_init\<lparr>sim_room := 0\<rparr>) = None"
  by (rule tcp_write_all_spins [where Q = "\<lambda>w. sim_room w = 0 \<and> sim_select w = []"])
    (auto simp: sim_tcp_def WaitForSocket_def IsWouldBlock_def LastSocketError_def sim_eval)

section \<open>Sizes beyond int\<close>

text \<open>
  C35. The size of a read is narrowed to \<^verbatim>\<open>int\<close> before it reaches recv. A size whose low 32 bits are
  zero, such as 4 GiB, asks the system for zero bytes; the system's answer 0 is then taken for
  the end of the stream: the call reports ConnectionClosed and closes an intact connection.
\<close>

theorem tcp_read_narrowing:
  assumes "tcp_open t" and "tcp_socket t \<noteq> kInvalidSocket" and "n \<noteq> 0" and "unat n mod 2 ^ 32 = 0"
    and "WaitForSocket os (tcp_socket t) True (tcp_readTimeout (tcp_options t)) w = (Ok, w1)"
    and "sys_recv os (tcp_socket t) 0 w1 = ((0, []), w2)"
  shows "TcpStreamTransport_ReadSome os (Some buf) n t w =
    ((ConnectionClosed, 0, Some buf), t\<lparr>tcp_socket := kInvalidSocket, tcp_open := False\<rparr>,
     CloseNativeSocket os (tcp_socket t) w2)"
proof -
  have "(ucast n :: 32 word) = 0"
    using assms(4) by (simp add: word_unat_eq_iff unsigned_ucast_eq take_bit_eq_mod)
  then have "size_to_int n = 0" by (simp add: size_to_int_def)
  then show ?thesis
    using assms by (simp add: TcpStreamTransport_ReadSome_def TcpStreamTransport_Close_def Let_def
        int_to_size_def ssize_to_int_small)
qed

definition four_GiB :: "byte list" where
  "four_GiB = replicate (2 ^ 32) 0"

theorem tcp_read_narrowing_witness:
  "TcpStreamTransport_ReadSome sim_os (Some four_GiB) 0x100000000 sim_tcp (sim_init\<lparr>sim_in := [[7, 8]]\<rparr>) =
     ((ConnectionClosed, 0, Some four_GiB), sim_tcp\<lparr>tcp_socket := kInvalidSocket, tcp_open := False\<rparr>,
      CloseNativeSocket sim_os 3 (sim_init\<lparr>sim_in := [[7, 8]]\<rparr>))"
proof -
  have "WaitForSocket sim_os 3 True (tcp_readTimeout sim_tcp_options) (sim_init\<lparr>sim_in := [[7, 8]]\<rparr>) =
      (Ok, sim_init\<lparr>sim_in := [[7, 8]]\<rparr>)"
    by (simp add: WaitForSocket_def sim_eval)
  moreover have "sys_recv sim_os 3 0 (sim_init\<lparr>sim_in := [[7, 8]]\<rparr>) = ((0, []), sim_init\<lparr>sim_in := [[7, 8]]\<rparr>)"
    by (simp add: sim_eval)
  ultimately show ?thesis
    using tcp_read_narrowing [of sim_tcp "0x100000000" sim_os] by (simp add: sim_tcp_def)
qed

end
