(* ===== verification/Tcp_Server.thy ===== *)
theory Tcp_Server
  imports Tcp_Stream
begin

text \<open>
  \<^verbatim>\<open>tcp_server_transport.hpp/.cpp\<close>: the TCP listener and the streams it accepts. The file keeps its
  own copies of the socket helpers (suffix \<open>_server\<close>); \<open>server_helpers\<close> proves them equal to the
  client's, so the client's lemmas apply. An accepted stream is proved equivalent to a client
  stream with the same socket and timeouts. Theorems: Open and Accept leak no descriptor, and in every
  state a listener and its connections can reach together the process holds exactly their
  descriptors, all distinct.
\<close>

unbundle bit_operations_syntax

section \<open>The helpers of this file\<close>

definition SocketRuntimeReady_server :: bool where
  "SocketRuntimeReady_server = True"

definition LastSocketError_server :: "'w posix \<Rightarrow> 'w \<Rightarrow> int" where
  "LastSocketError_server os w = sys_errno os w"

definition IsWouldBlock_server :: "'w posix \<Rightarrow> int \<Rightarrow> bool" where
  "IsWouldBlock_server os error \<longleftrightarrow>
     error = c_EINPROGRESS (pc os) \<or> error = c_EWOULDBLOCK (pc os) \<or> error = c_EAGAIN (pc os)"

definition CloseNativeSocket_server :: "'w posix \<Rightarrow> int \<Rightarrow> 'w \<Rightarrow> 'w" where
  "CloseNativeSocket_server os socket w = snd (sys_close os socket w)"

definition SetNonBlocking_server :: "'w posix \<Rightarrow> int \<Rightarrow> 'w \<Rightarrow> bool \<times> 'w" where
  "SetNonBlocking_server os socket w =
     (case sys_fcntl os socket (c_F_GETFL (pc os)) 0 w of
        (flags, w1) \<Rightarrow>
          (if 0 \<le> flags then
             (case sys_fcntl os socket (c_F_SETFL (pc os)) (flags OR c_O_NONBLOCK (pc os)) w1 of
                (r, w2) \<Rightarrow> (r = 0, w2))
           else (False, w1)))"

definition ToTimeval_server :: "TransportDuration \<Rightarrow> timeval" where
  "ToTimeval_server timeout =
     \<lparr>tv_sec = uint (milliseconds timeout div 1000),
      tv_usec = uint ((milliseconds timeout mod 1000) * 1000)\<rparr>"

definition WaitForSocket_server ::
  "'w posix \<Rightarrow> int \<Rightarrow> bool \<Rightarrow> TransportDuration \<Rightarrow> 'w \<Rightarrow> TransportStatus \<times> 'w" where
  "WaitForSocket_server os socket waitForRead timeout w =
     (let readSet = (if waitForRead then {socket} else {});
          writeSet = (if waitForRead then {} else {socket})
      in case sys_select os (socket + 1)
                (if waitForRead then Some readSet else None)
                (if waitForRead then None else Some writeSet)
                (ToTimeval_server timeout) w of
           (result, w1) \<Rightarrow>
             (if 0 < result then (Ok, w1)
              else if result = 0 then (Timeout, w1)
              else (if waitForRead then ReadFailed else WriteFailed, w1)))"

definition SocketLocalPort :: "'w posix \<Rightarrow> int \<Rightarrow> 'w \<Rightarrow> uint16 \<times> 'w" where
  "SocketLocalPort os socket w =
     (case sys_getsockname os socket w of
        ((r, address), w1) \<Rightarrow>
          (if r \<noteq> 0 then (0, w1)
           else if ss_family address = c_AF_INET (pc os) then (ntohs (sin_port address), w1)
           else if ss_family address = c_AF_INET6 (pc os) then (ntohs (sin6_port address), w1)
           else (0, w1)))"

lemma server_helpers:
  "SocketRuntimeReady_server = SocketRuntimeReady" "LastSocketError_server = LastSocketError"
  "IsWouldBlock_server = IsWouldBlock" "CloseNativeSocket_server = CloseNativeSocket"
  "SetNonBlocking_server = SetNonBlocking" "ToTimeval_server = ToTimeval"
  "WaitForSocket_server = WaitForSocket"
proof -
  show tv: "ToTimeval_server = ToTimeval"
    by (simp add: fun_eq_iff ToTimeval_server_def ToTimeval_def)
  show "SetNonBlocking_server = SetNonBlocking"
    by (auto simp: fun_eq_iff SetNonBlocking_server_def SetNonBlocking_def split: prod.split)
  show "WaitForSocket_server = WaitForSocket"
    by (simp add: fun_eq_iff WaitForSocket_server_def WaitForSocket_def tv)
qed (simp_all add: fun_eq_iff SocketRuntimeReady_server_def SocketRuntimeReady_def
    LastSocketError_server_def LastSocketError_def IsWouldBlock_server_def IsWouldBlock_def
    CloseNativeSocket_server_def CloseNativeSocket_def)

lemma SocketLocalPort_keeps:
  assumes "\<And>fd. keeps obs (sys_getsockname os fd)"
  shows "keeps obs (SocketLocalPort os fd)"
  unfolding keeps_def SocketLocalPort_def
  by (auto split: prod.splits dest!: keepsD [OF assms])

section \<open>Accepted streams\<close>

record AcceptedTcpStream =
  acc_socket :: int
  acc_readTimeout :: TransportDuration
  acc_writeTimeout :: TransportDuration
  acc_open :: bool

definition AcceptedTcpStream_new ::
  "int \<Rightarrow> TransportDuration \<Rightarrow> TransportDuration \<Rightarrow> AcceptedTcpStream" where
  "AcceptedTcpStream_new socket readTimeout writeTimeout =
     \<lparr>acc_socket = socket, acc_readTimeout = readTimeout, acc_writeTimeout = writeTimeout,
      acc_open = True\<rparr>"

definition AcceptedTcpStream_Open ::
  "AcceptedTcpStream \<Rightarrow> 'w \<Rightarrow> TransportStatus \<times> AcceptedTcpStream \<times> 'w" where
  "AcceptedTcpStream_Open a w = (if acc_open a then AlreadyOpen else OpenFailed, a, w)"

definition AcceptedTcpStream_Close ::
  "'w posix \<Rightarrow> AcceptedTcpStream \<Rightarrow> 'w \<Rightarrow> TransportStatus \<times> AcceptedTcpStream \<times> 'w" where
  "AcceptedTcpStream_Close os a w =
     (let w1 = (if acc_socket a \<noteq> kInvalidSocket
                then CloseNativeSocket_server os (acc_socket a) w else w)
      in (Ok, a\<lparr>acc_socket := kInvalidSocket, acc_open := False\<rparr>, w1))"

definition AcceptedTcpStream_IsOpen :: "AcceptedTcpStream \<Rightarrow> bool" where
  "AcceptedTcpStream_IsOpen a = acc_open a"

definition AcceptedTcpStream_ReadSome ::
  "'w posix \<Rightarrow> buffer \<Rightarrow> size_t \<Rightarrow> AcceptedTcpStream \<Rightarrow> 'w \<Rightarrow>
   read_result \<times> AcceptedTcpStream \<times> 'w" where
  "AcceptedTcpStream_ReadSome os output outputSize a w =
     (if \<not> acc_open a then ((NotOpen, 0, output), a, w)
      else if output = None \<and> outputSize \<noteq> 0 then ((InvalidArgument, 0, output), a, w)
      else if outputSize = 0 then ((Ok, 0, output), a, w)
      else (case WaitForSocket_server os (acc_socket a) True (acc_readTimeout a) w of
        (waitStatus, w1) \<Rightarrow>
          (if waitStatus \<noteq> Ok then ((waitStatus, 0, output), a, w1)
           else (case sys_recv os (acc_socket a) (int_to_size (size_to_int outputSize)) w1 of
             ((r, bytes), w2) \<Rightarrow>
               (let received = ssize_to_int r; output' = copy_to bytes output
                in if 0 < received then ((Ok, int_to_size received, output'), a, w2)
                   else if received = 0 then
                     (case AcceptedTcpStream_Close os a w2 of
                        (_, a1, w3) \<Rightarrow> ((ConnectionClosed, 0, output'), a1, w3))
                   else if IsWouldBlock_server os (LastSocketError_server os w2)
                   then ((WouldBlock, 0, output'), a, w2)
                   else ((ReadFailed, 0, output'), a, w2))))))"

definition AcceptedTcpStream_WriteAll ::
  "'w posix \<Rightarrow> buffer \<Rightarrow> size_t \<Rightarrow> AcceptedTcpStream \<Rightarrow> 'w \<Rightarrow>
   (TransportStatus \<times> AcceptedTcpStream \<times> 'w) option" where
  "AcceptedTcpStream_WriteAll os input inputSize a w =
     (if \<not> acc_open a then Some (NotOpen, a, w)
      else if input = None \<and> inputSize \<noteq> 0 then Some (InvalidArgument, a, w)
      else (case write_loop
                   (WaitForSocket_server os (acc_socket a) False (acc_writeTimeout a))
                   (socket_put os (acc_socket a))
                   (\<lambda>w. IsWouldBlock_server os (LastSocketError_server os w))
                   (mem_of input) inputSize 0 w of
              None \<Rightarrow> None
            | Some (status, w1) \<Rightarrow> Some (status, a, w1)))"

definition AcceptedTcpStream_destroy :: "'w posix \<Rightarrow> AcceptedTcpStream \<Rightarrow> 'w \<Rightarrow> 'w" where
  "AcceptedTcpStream_destroy os a w = snd (snd (AcceptedTcpStream_Close os a w))"

definition AcceptedTcpStream_methods :: "'w posix \<Rightarrow> (AcceptedTcpStream \<times> 'w) IByteStream" where
  "AcceptedTcpStream_methods os =
     \<lparr>vOpen = (\<lambda>(a, w). AcceptedTcpStream_Open a w),
      vClose = (\<lambda>(a, w). AcceptedTcpStream_Close os a w),
      vIsOpen = (\<lambda>(a, w). AcceptedTcpStream_IsOpen a),
      vReadSome = (\<lambda>output outputSize (a, w). AcceptedTcpStream_ReadSome os output outputSize a w),
      vWriteAll = (\<lambda>input inputSize (a, w). AcceptedTcpStream_WriteAll os input inputSize a w)\<rparr>"

lemma AcceptedTcpStream_methods_simps [simp]:
  "vOpen (AcceptedTcpStream_methods os) (a, w) = AcceptedTcpStream_Open a w"
  "vClose (AcceptedTcpStream_methods os) (a, w) = AcceptedTcpStream_Close os a w"
  "vIsOpen (AcceptedTcpStream_methods os) (a, w) = AcceptedTcpStream_IsOpen a"
  "vReadSome (AcceptedTcpStream_methods os) output n (a, w) = AcceptedTcpStream_ReadSome os output n a w"
  "vWriteAll (AcceptedTcpStream_methods os) input n (a, w) = AcceptedTcpStream_WriteAll os input n a w"
  by (simp_all add: AcceptedTcpStream_methods_def)

section \<open>The listener\<close>

record TcpServerTransportOptions =
  srv_host :: string
  srv_port :: uint16
  srv_backlog :: int
  srv_acceptTimeout :: TransportDuration
  srv_readTimeout :: TransportDuration
  srv_writeTimeout :: TransportDuration

definition TcpServerTransportOptions_new :: TcpServerTransportOptions where
  "TcpServerTransportOptions_new = \<lparr>srv_host = '''', srv_port = 0, srv_backlog = 1,
     srv_acceptTimeout = \<lparr>milliseconds = 5000\<rparr>, srv_readTimeout = \<lparr>milliseconds = 5000\<rparr>,
     srv_writeTimeout = \<lparr>milliseconds = 5000\<rparr>\<rparr>"

record TcpServerTransport =
  srv_options :: TcpServerTransportOptions
  srv_socket :: int
  srv_open :: bool
  srv_localPort :: uint16

definition TcpServerTransport_new :: "TcpServerTransportOptions \<Rightarrow> TcpServerTransport" where
  "TcpServerTransport_new options =
     \<lparr>srv_options = options, srv_socket = kInvalidSocket, srv_open = False, srv_localPort = 0\<rparr>"

text \<open>
  The loop of Open over the resolved addresses; the result is the candidate that listens, with
  its local port, which Open stores in the object.
\<close>

fun TcpServerTransport_listen ::
  "'w posix \<Rightarrow> int \<Rightarrow> addrinfo list \<Rightarrow> 'w \<Rightarrow> (int \<times> uint16) option \<times> 'w" where
  "TcpServerTransport_listen os backlog [] w = (None, w)"
| "TcpServerTransport_listen os backlog (address # rest) w =
     (case sys_socket os (ai_family address) (ai_socktype address) (ai_protocol address) w of
        (candidate, w1) \<Rightarrow>
          (if candidate = kInvalidSocket then TcpServerTransport_listen os backlog rest w1
           else (case sys_setsockopt os candidate (c_SOL_SOCKET (pc os)) (c_SO_REUSEADDR (pc os)) 1 w1 of
             (_, w2) \<Rightarrow>
               (case SetNonBlocking_server os candidate w2 of
                 (nonBlocking, w3) \<Rightarrow>
                   (if \<not> nonBlocking then
                      TcpServerTransport_listen os backlog rest (CloseNativeSocket_server os candidate w3)
                    else (case sys_bind os candidate (ai_addr address) w3 of
                      (bound, w4) \<Rightarrow>
                        (if bound \<noteq> 0 then
                           TcpServerTransport_listen os backlog rest (CloseNativeSocket_server os candidate w4)
                         else (case sys_listen os candidate backlog w4 of
                           (listening, w5) \<Rightarrow>
                             (if listening \<noteq> 0 then
                                TcpServerTransport_listen os backlog rest
                                  (CloseNativeSocket_server os candidate w5)
                              else (case SocketLocalPort os candidate w5 of
                                (port, w6) \<Rightarrow> (Some (candidate, port), w6)))))))))))"

definition TcpServerTransport_Open ::
  "'w posix \<Rightarrow> TcpServerTransport \<Rightarrow> 'w \<Rightarrow> TransportStatus \<times> TcpServerTransport \<times> 'w" where
  "TcpServerTransport_Open os s w =
     (if srv_open s then (AlreadyOpen, s, w)
      else if srv_backlog (srv_options s) \<le> 0 then (InvalidArgument, s, w)
      else if \<not> SocketRuntimeReady_server then (OpenFailed, s, w)
      else
        (let hints = \<lparr>hint_flags = c_AI_PASSIVE (pc os), hint_family = c_AF_UNSPEC (pc os),
                      hint_socktype = c_SOCK_STREAM (pc os), hint_protocol = c_IPPROTO_TCP (pc os)\<rparr>;
             port = decimal (unat (srv_port (srv_options s)));
             host = (if srv_host (srv_options s) = '''' then None else Some (srv_host (srv_options s)))
         in case sys_getaddrinfo os host port hints w of
              ((r, addresses), w1) \<Rightarrow>
                (if r \<noteq> 0 then (OpenFailed, s, w1)
                 else (case TcpServerTransport_listen os (srv_backlog (srv_options s)) addresses w1 of
                         (None, w2) \<Rightarrow> (OpenFailed, s, sys_freeaddrinfo os addresses w2)
                       | (Some (candidate, localPort), w2) \<Rightarrow>
                           (Ok, s\<lparr>srv_socket := candidate, srv_open := True, srv_localPort := localPort\<rparr>,
                            sys_freeaddrinfo os addresses w2)))))"

definition TcpServerTransport_Close ::
  "'w posix \<Rightarrow> TcpServerTransport \<Rightarrow> 'w \<Rightarrow> TransportStatus \<times> TcpServerTransport \<times> 'w" where
  "TcpServerTransport_Close os s w =
     (let w1 = (if srv_socket s \<noteq> kInvalidSocket
                then CloseNativeSocket_server os (srv_socket s) w else w)
      in (Ok, s\<lparr>srv_socket := kInvalidSocket, srv_open := False, srv_localPort := 0\<rparr>, w1))"

definition TcpServerTransport_IsOpen :: "TcpServerTransport \<Rightarrow> bool" where
  "TcpServerTransport_IsOpen s = srv_open s"

definition TcpServerTransport_LocalPort :: "TcpServerTransport \<Rightarrow> uint16" where
  "TcpServerTransport_LocalPort s = srv_localPort s"

definition TcpServerTransport_destroy :: "'w posix \<Rightarrow> TcpServerTransport \<Rightarrow> 'w \<Rightarrow> 'w" where
  "TcpServerTransport_destroy os s w = snd (snd (TcpServerTransport_Close os s w))"

text \<open>
  The caller's smart pointer holds nothing or a stream accepted earlier; \<^verbatim>\<open>connection.reset()\<close>
  destroys that stream first, whatever the call goes on to report.
\<close>

definition connection_reset :: "'w posix \<Rightarrow> AcceptedTcpStream option \<Rightarrow> 'w \<Rightarrow> 'w" where
  "connection_reset os connection w =
     (case connection of None \<Rightarrow> w | Some a \<Rightarrow> AcceptedTcpStream_destroy os a w)"

definition TcpServerTransport_Accept ::
  "'w posix \<Rightarrow> AcceptedTcpStream option \<Rightarrow> TcpServerTransport \<Rightarrow> 'w \<Rightarrow>
   (TransportStatus \<times> AcceptedTcpStream option) \<times> TcpServerTransport \<times> 'w" where
  "TcpServerTransport_Accept os connection s w =
     (let w0 = connection_reset os connection w
      in if \<not> srv_open s then ((NotOpen, None), s, w0)
         else (case WaitForSocket_server os (srv_socket s) True (srv_acceptTimeout (srv_options s)) w0 of
           (waitStatus, w1) \<Rightarrow>
             (if waitStatus = Timeout then ((Timeout, None), s, w1)
              else if waitStatus \<noteq> Ok \<or> \<not> srv_open s then ((OpenFailed, None), s, w1)
              else (case sys_accept os (srv_socket s) w1 of
                (client, w2) \<Rightarrow>
                  (if client = kInvalidSocket then
                     ((if IsWouldBlock_server os (LastSocketError_server os w2) then WouldBlock
                       else OpenFailed, None), s, w2)
                   else (case SetNonBlocking_server os client w2 of
                     (nonBlocking, w3) \<Rightarrow>
                       (if \<not> nonBlocking then
                          ((OpenFailed, None), s, CloseNativeSocket_server os client w3)
                        else ((Ok, Some (AcceptedTcpStream_new client
                                (srv_readTimeout (srv_options s)) (srv_writeTimeout (srv_options s)))),
                              s, w3))))))))"

section \<open>Accepted streams are client streams\<close>

text \<open>The client stream with the same socket, timeouts and state.\<close>

definition as_tcp :: "AcceptedTcpStream \<Rightarrow> TcpStreamTransport" where
  "as_tcp a = \<lparr>tcp_options = TcpStreamTransportOptions_new\<lparr>tcp_readTimeout := acc_readTimeout a,
     tcp_writeTimeout := acc_writeTimeout a\<rparr>, tcp_socket = acc_socket a, tcp_open = acc_open a\<rparr>"

lemma as_tcp_simps [simp]:
  "tcp_open (as_tcp a) = acc_open a" "tcp_socket (as_tcp a) = acc_socket a"
  "tcp_readTimeout (tcp_options (as_tcp a)) = acc_readTimeout a"
  "tcp_writeTimeout (tcp_options (as_tcp a)) = acc_writeTimeout a"
  "as_tcp (a\<lparr>acc_socket := fd, acc_open := b\<rparr>) = (as_tcp a)\<lparr>tcp_socket := fd, tcp_open := b\<rparr>"
  by (simp_all add: as_tcp_def)

lemma as_tcp_Close:
  "TcpStreamTransport_Close os (as_tcp a) w = map_prod id (map_prod as_tcp id) (AcceptedTcpStream_Close os a w)"
  by (simp add: TcpStreamTransport_Close_def AcceptedTcpStream_Close_def server_helpers Let_def)

lemma as_tcp_ReadSome:
  "TcpStreamTransport_ReadSome os out n (as_tcp a) w =
     map_prod id (map_prod as_tcp id) (AcceptedTcpStream_ReadSome os out n a w)"
  by (auto simp: TcpStreamTransport_ReadSome_def AcceptedTcpStream_ReadSome_def as_tcp_Close server_helpers
      Let_def AcceptedTcpStream_Close_def split: prod.splits)

lemma as_tcp_WriteAll:
  "TcpStreamTransport_WriteAll os inp n (as_tcp a) w =
     map_option (map_prod id (map_prod as_tcp id)) (AcceptedTcpStream_WriteAll os inp n a w)"
  by (auto simp: TcpStreamTransport_WriteAll_def AcceptedTcpStream_WriteAll_def server_helpers
      split: option.splits)

text \<open>
  C23. A stream the listener accepted behaves call by call like a client stream with the same
  socket and timeouts: Close, ReadSome, WriteAll and the destructor return the same results,
  leave corresponding objects and do the same to the system. Only Open differs: an accepted
  stream that was closed cannot be opened again.
\<close>

theorem accepted_refines_tcp:
  "TcpStreamTransport_Close os (as_tcp a) w =
     map_prod id (map_prod as_tcp id) (AcceptedTcpStream_Close os a w) \<and>
   TcpStreamTransport_ReadSome os out n (as_tcp a) w =
     map_prod id (map_prod as_tcp id) (AcceptedTcpStream_ReadSome os out n a w) \<and>
   TcpStreamTransport_WriteAll os inp n (as_tcp a) w =
     map_option (map_prod id (map_prod as_tcp id)) (AcceptedTcpStream_WriteAll os inp n a w) \<and>
   TcpStreamTransport_destroy os (as_tcp a) w = AcceptedTcpStream_destroy os a w \<and>
   TcpStreamTransport_IsOpen (as_tcp a) = AcceptedTcpStream_IsOpen a \<and>
   AcceptedTcpStream_Open a w = (if AcceptedTcpStream_IsOpen a then AlreadyOpen else OpenFailed, a, w)"
  by (simp add: as_tcp_Close as_tcp_ReadSome as_tcp_WriteAll TcpStreamTransport_destroy_def
      AcceptedTcpStream_destroy_def TcpStreamTransport_IsOpen_def AcceptedTcpStream_IsOpen_def
      AcceptedTcpStream_Open_def)

text \<open>Results of the accepted stream, read as results of the client stream.\<close>

lemma as_tcp_results:
  "AcceptedTcpStream_Close os a w = (st, a', w') \<Longrightarrow>
     TcpStreamTransport_Close os (as_tcp a) w = (st, as_tcp a', w')"
  "AcceptedTcpStream_ReadSome os out n a w = (r, a', w') \<Longrightarrow>
     TcpStreamTransport_ReadSome os out n (as_tcp a) w = (r, as_tcp a', w')"
  "AcceptedTcpStream_WriteAll os inp n a w = Some (st, a', w') \<Longrightarrow>
     TcpStreamTransport_WriteAll os inp n (as_tcp a) w = Some (st, as_tcp a', w')"
  by (simp_all add: as_tcp_Close as_tcp_ReadSome as_tcp_WriteAll)

lemma AcceptedTcpStream_Close_closed:
  "\<not> acc_open a \<Longrightarrow> acc_socket a = kInvalidSocket \<Longrightarrow> AcceptedTcpStream_Close os a w = (Ok, a, w)"
  by (cases a) (simp add: AcceptedTcpStream_Close_def)

definition accepted_invar ::
  "'w posix \<Rightarrow> ('w \<Rightarrow> int set) \<Rightarrow> int set \<Rightarrow> AcceptedTcpStream \<times> 'w \<Rightarrow> bool" where
  "accepted_invar os fds base s \<longleftrightarrow> tcp_invar os fds base (as_tcp (fst s), snd s)"

interpretation accepted: byte_stream "AcceptedTcpStream_methods os" "accepted_invar os fds base"
  for os :: "'w posix" and fds :: "'w \<Rightarrow> int set" and base :: "int set"
proof (unfold_locales; (simp only: split_paired_all AcceptedTcpStream_methods_simps
      AcceptedTcpStream_IsOpen_def accepted_invar_def fst_conv snd_conv)?)
  fix a :: AcceptedTcpStream and w :: 'w and st a' w' out n k out' r
  assume inv: "tcp_invar os fds base (as_tcp a, w)"
  note D = tcp_invarD [OF inv, unfolded fst_conv snd_conv]
  note laws = TcpStreamTransport_methods_simps TcpStreamTransport_IsOpen_def as_tcp_simps
  show "acc_open a \<Longrightarrow> AcceptedTcpStream_Open a w = (AlreadyOpen, a, w)"
    "\<not> acc_open a \<Longrightarrow> AcceptedTcpStream_Open a w = (st, a', w') \<Longrightarrow> acc_open a' = (st = Ok)"
    by (auto simp: AcceptedTcpStream_Open_def)
  show "AcceptedTcpStream_Open a w = (st, a', w') \<Longrightarrow> tcp_invar os fds base (as_tcp a', w')"
    using inv by (auto simp: AcceptedTcpStream_Open_def)
  show "AcceptedTcpStream_Close os a w = (st, a', w') \<Longrightarrow> st = Ok \<and> \<not> acc_open a'"
    by (auto simp: AcceptedTcpStream_Close_def Let_def)
  show "\<not> acc_open a \<Longrightarrow> AcceptedTcpStream_Close os a w = (Ok, a, w)"
    using D(3) by (simp add: AcceptedTcpStream_Close_closed tcp_owns_def)
  show "AcceptedTcpStream_Close os a w = (st, a', w') \<Longrightarrow> tcp_invar os fds base (as_tcp a', w')"
    using tcp.invar_close [OF inv, unfolded laws, OF as_tcp_results(1)] .
  show "\<not> acc_open a \<Longrightarrow> AcceptedTcpStream_ReadSome os out n a w = ((NotOpen, 0, out), a, w)"
    "acc_open a \<Longrightarrow> n \<noteq> 0 \<Longrightarrow>
      AcceptedTcpStream_ReadSome os None n a w = ((InvalidArgument, 0, None), a, w)"
    "\<not> acc_open a \<Longrightarrow> AcceptedTcpStream_WriteAll os out n a w = Some (NotOpen, a, w)"
    "acc_open a \<Longrightarrow> n \<noteq> 0 \<Longrightarrow> AcceptedTcpStream_WriteAll os None n a w = Some (InvalidArgument, a, w)"
    by (simp_all add: AcceptedTcpStream_ReadSome_def AcceptedTcpStream_WriteAll_def)
  show "grants out n \<Longrightarrow> unat n < 2 ^ 31 \<Longrightarrow>
      AcceptedTcpStream_ReadSome os out n a w = ((st, k, out'), a', w') \<Longrightarrow>
      buffer_frame n k out out' \<and> (st \<noteq> Ok \<longrightarrow> k = 0 \<and> out' = out)"
    using tcp.read_frame [OF inv _ _ , unfolded laws, OF _ _ as_tcp_results(2)] .
  show "AcceptedTcpStream_ReadSome os out n a w = ((st, k, out'), a', w') \<Longrightarrow> acc_open a' \<longrightarrow> acc_open a"
    using tcp.read_open [OF inv, unfolded laws, OF as_tcp_results(2)]
    by (simp add: TcpStreamTransport_IsOpen_def)
  show "AcceptedTcpStream_ReadSome os out n a w = ((st, k, out'), a', w') \<Longrightarrow>
      st \<noteq> ConnectionClosed \<Longrightarrow> acc_open a' = acc_open a"
    using tcp.read_stays_open [OF inv, unfolded laws, OF as_tcp_results(2)]
    by (simp add: TcpStreamTransport_IsOpen_def)
  show "AcceptedTcpStream_WriteAll os out n a w = Some (st, a', w') \<Longrightarrow> acc_open a' = acc_open a"
    using tcp.write_open [OF inv, unfolded laws, OF as_tcp_results(3)]
    by (simp add: TcpStreamTransport_IsOpen_def)
  show "AcceptedTcpStream_ReadSome os out n a w = (r, a', w') \<Longrightarrow> tcp_invar os fds base (as_tcp a', w')"
    using tcp.invar_read [OF inv, unfolded laws, OF as_tcp_results(2)] .
  show "AcceptedTcpStream_WriteAll os out n a w = Some (st, a', w') \<Longrightarrow> tcp_invar os fds base (as_tcp a', w')"
    using tcp.invar_write [OF inv, unfolded laws, OF as_tcp_results(3)] .
qed

section \<open>Opening the listener\<close>

lemma listen_fds:
  assumes "TcpServerTransport_listen os backlog as w = (got, w')" and fd: "fd_contract os fds"
  shows "acquires (map_option fst got) (fds w) (fds w')"
  using assms(1)
proof (induction as arbitrary: w)
  case (Cons a as)
  note facts = fd_contract_keeps [OF fd]
  note sock = yields_fd_ok [OF fd_contract_opens(1) [OF fd]] yields_fd_failed [OF fd_contract_opens(1) [OF fd]]
  from Cons.prems show ?case
    unfolding TcpServerTransport_listen.simps server_helpers
    by (auto split: prod.splits if_splits
      dest!: Cons.IH sock keepsD [OF SetNonBlocking_keeps [OF facts(3)]] keepsD [OF facts(4)]
        keepsD [OF facts(6)] keepsD [OF facts(8)] keepsD [OF SocketLocalPort_keeps [OF facts(9)]]
      simp: CloseNativeSocket_fds [OF fd])
qed simp

lemma listen_live:
  assumes "TcpServerTransport_listen os backlog as w = (got, w')" and ai: "addrinfo_contract os live"
  shows "live w' = live w"
  using assms(1)
proof (induction as arbitrary: w)
  case (Cons a as)
  note facts = addrinfo_contract_keeps [OF ai]
  from Cons.prems show ?case
    unfolding TcpServerTransport_listen.simps server_helpers
    by (auto split: prod.splits if_splits
      dest!: Cons.IH keepsD [OF facts(1)] keepsD [OF SetNonBlocking_keeps [OF facts(3)]]
        keepsD [OF facts(4)] keepsD [OF facts(6)] keepsD [OF facts(8)]
        keepsD [OF SocketLocalPort_keeps [OF facts(9)]]
      simp: CloseNativeSocket_live [OF ai])
qed simp

lemma TcpServerTransport_Open_cases:
  assumes "TcpServerTransport_Open os s w = (st, s', w')" and "\<not> srv_open s"
  obtains (refused) "st = InvalidArgument" "s' = s" "w' = w" "srv_backlog (srv_options s) \<le> 0"
    | (unresolved) r as host port hints where "st = OpenFailed" "s' = s" "r \<noteq> 0"
        "sys_getaddrinfo os host port hints w = ((r, as), w')"
    | (resolved) as host port hints w1 got w2 where
        "sys_getaddrinfo os host port hints w = ((0, as), w1)"
        "TcpServerTransport_listen os (srv_backlog (srv_options s)) as w1 = (got, w2)"
        "st = (case got of None \<Rightarrow> OpenFailed | Some _ \<Rightarrow> Ok)"
        "s' = (case got of None \<Rightarrow> s
               | Some (c, p) \<Rightarrow> s\<lparr>srv_socket := c, srv_open := True, srv_localPort := p\<rparr>)"
        "w' = sys_freeaddrinfo os as w2"
proof -
  let ?host = "if srv_host (srv_options s) = '''' then None else Some (srv_host (srv_options s))"
  let ?port = "decimal (unat (srv_port (srv_options s)))"
  let ?hints = "\<lparr>hint_flags = c_AI_PASSIVE (pc os), hint_family = c_AF_UNSPEC (pc os),
    hint_socktype = c_SOCK_STREAM (pc os), hint_protocol = c_IPPROTO_TCP (pc os)\<rparr>"
  obtain r as w1 where ga: "sys_getaddrinfo os ?host ?port ?hints w = ((r, as), w1)"
    by (metis surj_pair)
  obtain got w2 where li: "TcpServerTransport_listen os (srv_backlog (srv_options s)) as w1 = (got, w2)"
    by (metis surj_pair)
  note eq = assms [unfolded TcpServerTransport_Open_def Let_def ga server_helpers SocketRuntimeReady_def]
  consider "srv_backlog (srv_options s) \<le> 0" | "0 < srv_backlog (srv_options s)" "r \<noteq> 0"
    | "0 < srv_backlog (srv_options s)" "r = 0" by linarith
  then show thesis
  proof cases
    case 1
    with eq show ?thesis by (intro refused) simp_all
  next
    case 2
    with eq have "w1 = w'" "st = OpenFailed" "s' = s" by auto
    with ga unresolved [OF _ _ 2(2)] show ?thesis by blast
  next
    case 3
    with ga have "sys_getaddrinfo os ?host ?port ?hints w = ((0, as), w1)" by simp
    from this li show ?thesis by (rule resolved) (use eq 3 li in \<open>auto split: option.splits\<close>)
  qed
qed

lemma server_Open_fds:
  assumes "TcpServerTransport_Open os s w = (st, s', w')" and "\<not> srv_open s"
    and fd: "fd_contract os fds"
  shows "acquires (if st = Ok then Some (srv_socket s') else None) (fds w) (fds w') \<and>
    (st = Ok \<longleftrightarrow> srv_open s') \<and> (st \<noteq> Ok \<longrightarrow> s' = s) \<and> st \<in> {Ok, InvalidArgument, OpenFailed}"
  using assms(1,2)
proof (cases rule: TcpServerTransport_Open_cases)
  case (unresolved r as host port hints)
  then show ?thesis using keepsD [OF fd_contract_keeps(1) [OF fd]] assms(2) by auto
next
  case (resolved as host port hints w1 got w2)
  have "fds w1 = fds w" using keepsD [OF fd_contract_keeps(1) [OF fd] resolved(1)] .
  moreover have "fds w' = fds w2" using resolved(5) fd_contract_keeps(2) [OF fd] by simp
  ultimately show ?thesis
    using listen_fds [OF resolved(2) fd] resolved(3,4) assms(2) by (cases got) auto
qed (use assms(2) in simp)

lemma server_Open_live:
  assumes "TcpServerTransport_Open os s w = (st, s', w')" and "\<not> srv_open s"
    and ai: "addrinfo_contract os live"
  shows "live w' = live w"
  using assms(1,2)
proof (cases rule: TcpServerTransport_Open_cases)
  case (unresolved r as host port hints)
  then show ?thesis using addrinfo_contract_lists(1) [OF ai] by auto
next
  case (resolved as host port hints w1 got w2)
  then show ?thesis
    using addrinfo_contract_lists [OF ai] listen_live [OF resolved(2) ai] by auto
qed simp

text \<open>
  C10. A call of Open on a closed listener never leaks: on Ok it holds exactly one fresh descriptor;
  on every failure, whichever of socket, fcntl, bind and listen failed for whichever of the
  addresses, the process holds the same descriptors as before and the listener is unchanged.
  The resolver's list is released on every path, and only Ok, InvalidArgument and OpenFailed
  are returned.
\<close>

theorem server_open_balanced:
  assumes "TcpServerTransport_Open os s w = (st, s', w')" and "\<not> srv_open s"
    and "fd_contract os fds" and "addrinfo_contract os live"
  shows "(if st = Ok
          then srv_open s' \<and> 0 \<le> srv_socket s' \<and> srv_socket s' \<notin> fds w \<and>
               fds w' = insert (srv_socket s') (fds w)
          else s' = s \<and> fds w' = fds w) \<and>
    live w' = live w \<and> st \<in> {Ok, InvalidArgument, OpenFailed}"
  using server_Open_fds [OF assms(1-3)] server_Open_live [OF assms(1,2,4)]
  by (cases "st = Ok") simp_all

definition sim_server :: TcpServerTransport where
  "sim_server = TcpServerTransport_new TcpServerTransportOptions_new"

lemmas server_eval = sim_eval sim_server_def TcpServerTransport_new_def TcpServerTransportOptions_new_def
  TcpServerTransport_Open_def TcpServerTransport_Close_def SocketLocalPort_def server_helpers SocketRuntimeReady_def
  SetNonBlocking_def CloseNativeSocket_def IsWouldBlock_def LastSocketError_def WaitForSocket_def

lemma sim_server_open:
  "TcpServerTransport_Open sim_os sim_server sim_init =
     (Ok, sim_server\<lparr>srv_socket := 3, srv_open := True, srv_localPort := 4059\<rparr>,
      sim_init\<lparr>sim_fds := [3, 0, 1, 2]\<rparr>)"
  by (simp add: server_eval ntohs_def)

theorem server_open_balanced_witness:
  "sim_fd_set (snd (snd (TcpServerTransport_Open sim_os sim_server sim_init))) = insert 3 (sim_fd_set sim_init) \<and>
   sim_live (snd (snd (TcpServerTransport_Open sim_os sim_server sim_init))) = sim_live sim_init"
  using server_open_balanced [OF sim_server_open _ sim_fd_contract sim_addrinfo_contract]
  unfolding sim_server_open by (simp add: sim_server_def TcpServerTransport_new_def)

subsection \<open>Lifecycle of the listener\<close>

definition srv_owns :: "('w \<Rightarrow> int set) \<Rightarrow> int set \<Rightarrow> TcpServerTransport \<Rightarrow> 'w \<Rightarrow> bool" where
  "srv_owns fds base s w \<longleftrightarrow>
     (if srv_open s then acquires (Some (srv_socket s)) base (fds w)
      else srv_socket s = kInvalidSocket \<and> srv_localPort s = 0 \<and> fds w = base)"

definition srv_invar ::
  "'w posix \<Rightarrow> ('w \<Rightarrow> int set) \<Rightarrow> int set \<Rightarrow> TcpServerTransport \<times> 'w \<Rightarrow> bool" where
  "srv_invar os fds base s \<longleftrightarrow> fd_contract os fds \<and> srv_owns fds base (fst s) (snd s)"

lemma server_Open_owns:
  assumes "TcpServerTransport_Open os s w = (st, s', w')" and "fd_contract os fds" and "srv_owns fds base s w"
  shows "srv_owns fds base s' w'"
proof (cases "srv_open s")
  case True
  with assms show ?thesis by (simp add: TcpServerTransport_Open_def)
next
  case False
  then show ?thesis
    using server_Open_fds [OF assms(1) _ assms(2)] assms(3) by (auto simp: srv_owns_def split: if_splits)
qed

lemma server_Close_owns:
  assumes "TcpServerTransport_Close os s w = (st, s', w')" and "fd_contract os fds" and "srv_owns fds base s w"
  shows "st = Ok \<and> srv_owns fds base s' w' \<and> \<not> srv_open s' \<and> (\<not> srv_open s \<longrightarrow> s' = s \<and> w' = w)"
  using assms CloseNativeSocket_fds [OF assms(2)]
  by (auto simp: TcpServerTransport_Close_def Let_def srv_owns_def server_helpers split: if_splits)

interpretation server: endpoint "\<lambda>(s, w). TcpServerTransport_Open os s w"
    "\<lambda>(s, w). TcpServerTransport_Close os s w" "\<lambda>(s, w). TcpServerTransport_IsOpen s"
    "srv_invar os fds base"
  for os :: "'w posix" and fds :: "'w \<Rightarrow> int set" and base :: "int set"
proof (unfold_locales; simp only: split_paired_all prod.case TcpServerTransport_IsOpen_def)
  fix s :: TcpServerTransport and w :: 'w and st s' w'
  assume "srv_invar os fds base (s, w)"
  then have D: "fd_contract os fds" "srv_owns fds base s w" by (simp_all add: srv_invar_def)
  show "srv_open s \<Longrightarrow> TcpServerTransport_Open os s w = (AlreadyOpen, s, w)"
    by (simp add: TcpServerTransport_Open_def)
  show "\<not> srv_open s \<Longrightarrow> TcpServerTransport_Open os s w = (st, s', w') \<Longrightarrow> srv_open s' = (st = Ok)"
    using server_Open_fds [OF _ _ D(1)] by metis
  show "TcpServerTransport_Close os s w = (st, s', w') \<Longrightarrow> st = Ok \<and> \<not> srv_open s'"
    using server_Close_owns [OF _ D] by metis
  show "\<not> srv_open s \<Longrightarrow> TcpServerTransport_Close os s w = (Ok, s, w)"
    using server_Close_owns [OF _ D] by (metis prod_cases3)
  show "TcpServerTransport_Open os s w = (st, s', w') \<Longrightarrow> srv_invar os fds base (s', w')"
    using server_Open_owns [OF _ D] D(1) by (simp add: srv_invar_def)
  show "TcpServerTransport_Close os s w = (st, s', w') \<Longrightarrow> srv_invar os fds base (s', w')"
    using server_Close_owns [OF _ D] D(1) by (simp add: srv_invar_def)
qed

section \<open>Accepting\<close>

lemma AcceptedTcpStream_newD:
  "a = AcceptedTcpStream_new fd r v \<Longrightarrow> acc_open a \<and> acc_readTimeout a = r \<and> acc_writeTimeout a = v"
  by (simp add: AcceptedTcpStream_new_def)

lemma connection_reset_fds:
  assumes "fd_contract os fds"
  shows "fds (connection_reset os connection w) =
    fds w - (case connection of None \<Rightarrow> {} | Some a \<Rightarrow> {acc_socket a} - {kInvalidSocket})"
  using CloseNativeSocket_fds [OF assms]
  by (simp add: connection_reset_def AcceptedTcpStream_destroy_def AcceptedTcpStream_Close_def server_helpers
      Let_def split: option.split)

lemma Accept_acquires:
  assumes "TcpServerTransport_Accept os connection s w = ((st, connection'), s', w')" and fd: "fd_contract os fds"
  shows "acquires (map_option acc_socket connection') (fds (connection_reset os connection w)) (fds w') \<and>
    s' = s \<and> (case connection' of None \<Rightarrow> st \<in> {NotOpen, Timeout, WouldBlock, OpenFailed}
      | Some a \<Rightarrow> st = Ok \<and> a = AcceptedTcpStream_new (acc_socket a)
          (srv_readTimeout (srv_options s)) (srv_writeTimeout (srv_options s))) \<and>
    (st = NotOpen \<longleftrightarrow> \<not> srv_open s)"
proof -
  note facts = fd_contract_keeps [OF fd]
  note accept = yields_fd_ok [OF fd_contract_opens(2) [OF fd]] yields_fd_failed [OF fd_contract_opens(2) [OF fd]]
  show ?thesis
    using assms(1) unfolding TcpServerTransport_Accept_def server_helpers Let_def
    by (auto split: prod.splits if_splits
      dest!: accept keepsD [OF WaitForSocket_keeps [OF facts(10)]] keepsD [OF SetNonBlocking_keeps [OF facts(3)]]
      simp: CloseNativeSocket_fds [OF fd] AcceptedTcpStream_new_def)
qed

text \<open>
  C9. Accept neither leaks nor loses a descriptor. The connection passed in is destroyed first and
  its descriptor released. The call returns Ok exactly when it hands over a new open stream,
  which then owns one fresh descriptor and carries the configured timeouts; on every other
  outcome, a client whose descriptor could not be made non-blocking included, no new descriptor
  remains. The listener is unchanged, and the status is one of Ok, NotOpen (exactly when the listener
  is closed), Timeout, WouldBlock and OpenFailed.
\<close>

theorem server_accept_balanced:
  assumes "TcpServerTransport_Accept os connection s w = ((st, connection'), s', w')"
    and "fd_contract os fds"
    and "case connection of None \<Rightarrow> held = {} | Some a \<Rightarrow> held = {acc_socket a} - {kInvalidSocket}"
  shows "(case connection' of
      None \<Rightarrow> st \<in> {NotOpen, Timeout, WouldBlock, OpenFailed} \<and> fds w' = fds w - held
    | Some a \<Rightarrow> st = Ok \<and> acc_open a \<and> 0 \<le> acc_socket a \<and> acc_socket a \<notin> fds w - held \<and>
        fds w' = insert (acc_socket a) (fds w - held) \<and>
        acc_readTimeout a = srv_readTimeout (srv_options s) \<and>
        acc_writeTimeout a = srv_writeTimeout (srv_options s)) \<and>
    s' = s \<and> (st = NotOpen \<longleftrightarrow> \<not> srv_open s)"
proof -
  have held: "fds (connection_reset os connection w) = fds w - held"
    using connection_reset_fds [OF assms(2), of connection w] assms(3) by (auto split: option.splits)
  show ?thesis
    using Accept_acquires [OF assms(1,2)] unfolding held
    by (cases connection') (auto dest: AcceptedTcpStream_newD)
qed

definition sim_listener :: TcpServerTransport where
  "sim_listener = sim_server\<lparr>srv_socket := 3, srv_open := True, srv_localPort := 4059\<rparr>"

lemma sim_accept:
  "TcpServerTransport_Accept sim_os None sim_listener (sim_init\<lparr>sim_fds := [3, 0, 1, 2]\<rparr>) =
     ((Ok, Some (AcceptedTcpStream_new 4 \<lparr>milliseconds = 5000\<rparr> \<lparr>milliseconds = 5000\<rparr>)), sim_listener,
      sim_init\<lparr>sim_fds := [4, 3, 0, 1, 2]\<rparr>)"
  by (simp add: TcpServerTransport_Accept_def connection_reset_def sim_listener_def server_eval)

theorem server_accept_balanced_witness:
  "4 \<notin> sim_fd_set (sim_init\<lparr>sim_fds := [3, 0, 1, 2]\<rparr>) \<and>
   sim_fd_set (sim_init\<lparr>sim_fds := [4, 3, 0, 1, 2]\<rparr>) =
     insert 4 (sim_fd_set (sim_init\<lparr>sim_fds := [3, 0, 1, 2]\<rparr>))"
  using server_accept_balanced [OF sim_accept sim_fd_contract, of "{}"]
  by (simp add: AcceptedTcpStream_new_def)

section \<open>A listener and its connections\<close>

text \<open>
  All that can happen to one listener, the connections accepted from it (in the hands of its
  client, in a list) and the system: calls on the listener, calls on any connection, and the end
  of a connection's lifetime, in any order.
\<close>

inductive server_step ::
  "'w posix \<Rightarrow> TcpServerTransport \<times> AcceptedTcpStream list \<times> 'w \<Rightarrow>
   TcpServerTransport \<times> AcceptedTcpStream list \<times> 'w \<Rightarrow> bool" for os where
  Step_Open: "TcpServerTransport_Open os s w = (st, s', w') \<Longrightarrow> server_step os (s, as, w) (s', as, w')"
| Step_Close: "TcpServerTransport_Close os s w = (st, s', w') \<Longrightarrow> server_step os (s, as, w) (s', as, w')"
| Step_Accept: "TcpServerTransport_Accept os None s w = ((Ok, Some a), s', w') \<Longrightarrow>
    server_step os (s, as, w) (s', a # as, w')"
| Step_Accept_fails: "TcpServerTransport_Accept os None s w = ((st, None), s', w') \<Longrightarrow>
    server_step os (s, as, w) (s', as, w')"
| Step_Conn_Close: "AcceptedTcpStream_Close os a w = (st, a', w') \<Longrightarrow>
    server_step os (s, xs @ a # ys, w) (s, xs @ a' # ys, w')"
| Step_Conn_Read: "AcceptedTcpStream_ReadSome os out n a w = (r, a', w') \<Longrightarrow>
    server_step os (s, xs @ a # ys, w) (s, xs @ a' # ys, w')"
| Step_Conn_Write: "AcceptedTcpStream_WriteAll os inp n a w = Some (st, a', w') \<Longrightarrow>
    server_step os (s, xs @ a # ys, w) (s, xs @ a' # ys, w')"
| Step_Conn_Destroy: "AcceptedTcpStream_destroy os a w = w' \<Longrightarrow>
    server_step os (s, xs @ a # ys, w) (s, xs @ ys, w')"

text \<open>The descriptors the listener and the connections believe to own.\<close>

definition conn_handles :: "AcceptedTcpStream list \<Rightarrow> int list" where
  "conn_handles as = map acc_socket (filter acc_open as)"

definition server_handles :: "TcpServerTransport \<Rightarrow> AcceptedTcpStream list \<Rightarrow> int list" where
  "server_handles s as = (if srv_open s then [srv_socket s] else []) @ conn_handles as"

definition server_inv :: "('w \<Rightarrow> int set) \<Rightarrow> int set \<Rightarrow> TcpServerTransport \<times> AcceptedTcpStream list \<times> 'w \<Rightarrow> bool" where
  "server_inv fds base c \<longleftrightarrow>
     (case c of (s, as, w) \<Rightarrow>
        distinct (server_handles s as) \<and> set (server_handles s as) \<inter> base = {} \<and>
        fds w = base \<union> set (server_handles s as) \<and> (\<forall>fd \<in> set (server_handles s as). 0 \<le> fd) \<and>
        (srv_open s \<or> srv_socket s = kInvalidSocket \<and> srv_localPort s = 0) \<and>
        (\<forall>a \<in> set as. acc_open a \<or> acc_socket a = kInvalidSocket))"

lemma conn_handles_simps [simp]:
  "conn_handles [] = []" "conn_handles (as @ bs) = conn_handles as @ conn_handles bs"
  "conn_handles (a # as) = (if acc_open a then [acc_socket a] else []) @ conn_handles as"
  by (simp_all add: conn_handles_def)

text \<open>Seen from the listener, or from one connection, the other descriptors are just there.\<close>

lemma server_inv_listener:
  "server_inv fds base (s, as, w) \<longleftrightarrow>
   srv_owns fds (base \<union> set (conn_handles as)) s w \<and> distinct (conn_handles as) \<and>
   set (conn_handles as) \<inter> base = {} \<and> (\<forall>fd \<in> set (conn_handles as). 0 \<le> fd) \<and>
   (\<forall>a \<in> set as. acc_open a \<or> acc_socket a = kInvalidSocket)"
  by (auto simp: server_inv_def srv_owns_def server_handles_def)

lemma server_inv_connection:
  "server_inv fds base (s, xs @ a # ys, w) \<longleftrightarrow>
   tcp_owns fds (base \<union> set (server_handles s (xs @ ys))) (as_tcp a) w \<and> distinct (server_handles s (xs @ ys)) \<and>
   set (server_handles s (xs @ ys)) \<inter> base = {} \<and> (\<forall>fd \<in> set (server_handles s (xs @ ys)). 0 \<le> fd) \<and>
   (srv_open s \<or> srv_socket s = kInvalidSocket \<and> srv_localPort s = 0) \<and>
   (\<forall>a \<in> set (xs @ ys). acc_open a \<or> acc_socket a = kInvalidSocket)"
  by (auto simp: server_inv_def tcp_owns_def server_handles_def)

lemma server_step_inv:
  assumes "server_step os c c'" and "server_inv fds base c" and fd: "fd_contract os fds"
  shows "server_inv fds base c'"
  using assms(1,2)
proof (induction rule: server_step.induct)
  case (Step_Open s w st s' w' as)
  then show ?case using server_Open_owns [OF Step_Open(1) fd] by (simp add: server_inv_listener)
next
  case (Step_Close s w st s' w' as)
  then show ?case using server_Close_owns [OF Step_Close(1) fd] by (simp add: server_inv_listener)
next
  case (Step_Accept s w a s' w' as)
  from Accept_acquires [OF Step_Accept(1) fd] have
    "s' = s" "acc_socket a \<notin> fds w" "0 \<le> acc_socket a" "fds w' = insert (acc_socket a) (fds w)" "acc_open a"
    by (auto simp: connection_reset_def dest: AcceptedTcpStream_newD)
  with Step_Accept(2) show ?case by (auto simp: server_inv_def server_handles_def)
next
  case (Step_Accept_fails s w st s' w' as)
  from Accept_acquires [OF Step_Accept_fails(1) fd] have "s' = s" "fds w' = fds w"
    by (auto simp: connection_reset_def)
  with Step_Accept_fails(2) show ?case by (simp add: server_inv_def)
next
  case (Step_Conn_Close a w st a' w' s xs ys)
  then show ?case
    using Close_owns [OF as_tcp_results(1) [OF Step_Conn_Close(1)] fd] by (simp add: server_inv_connection)
next
  case (Step_Conn_Read out n a w r a' w' s xs ys)
  then show ?case
    using ReadSome_owns [OF as_tcp_results(2) fd] by (cases r) (simp add: server_inv_connection)
next
  case (Step_Conn_Write inp n a w st a' w' s xs ys)
  then show ?case
    using WriteAll_owns [OF as_tcp_results(3) [OF Step_Conn_Write(1)] fd] by (simp add: server_inv_connection)
next
  case (Step_Conn_Destroy a w w' s xs ys)
  obtain st a' w2 where close: "AcceptedTcpStream_Close os a w = (st, a', w2)" using prod_cases3 by blast
  then have "w2 = w'" using Step_Conn_Destroy(1) by (simp add: AcceptedTcpStream_destroy_def)
  moreover note inv = Step_Conn_Destroy(2) [unfolded server_inv_connection]
  ultimately have "fds w' = base \<union> set (server_handles s (xs @ ys))"
    using Close_owns [OF as_tcp_results(1) [OF close] fd conjunct1 [OF inv]] by (simp add: tcp_owns_def)
  with inv show ?case by (simp add: server_inv_def)
qed

text \<open>
  C8. In every state that a listener and the connections accepted from it can reach, by any
  interleaving of calls on the listener, calls on the connections and destructions of connections,
  the process holds exactly the descriptors it held at the start, the listener's while it is open,
  and one for each open connection; these are pairwise distinct, so no two objects ever share
  a descriptor and none is closed by an object that does not own it. A closed listener has
  local port zero.
\<close>

theorem server_reachable_handles:
  assumes "(server_step os)\<^sup>*\<^sup>* (TcpServerTransport_new options, [], w) (s, as, w')"
    and "fd_contract os fds"
  shows "fds w' = fds w \<union> set (server_handles s as) \<and> distinct (server_handles s as) \<and>
    set (server_handles s as) \<inter> fds w = {} \<and>
    (\<not> TcpServerTransport_IsOpen s \<longrightarrow> TcpServerTransport_LocalPort s = 0)"
proof -
  have "server_inv fds (fds w) (s, as, w')"
    using assms(1)
  proof (induction rule: rtranclp_induct)
    case base
    show ?case by (simp add: server_inv_def server_handles_def TcpServerTransport_new_def)
  next
    case (step c c')
    then show ?case using server_step_inv assms(2) by blast
  qed
  then show ?thesis
    by (auto simp: server_inv_def TcpServerTransport_IsOpen_def TcpServerTransport_LocalPort_def)
qed

theorem server_reachable_handles_witness:
  "sim_fd_set (sim_init\<lparr>sim_fds := [4, 3, 0, 1, 2]\<rparr>) =
     sim_fd_set sim_init \<union> set (server_handles sim_listener
       [AcceptedTcpStream_new 4 \<lparr>milliseconds = 5000\<rparr> \<lparr>milliseconds = 5000\<rparr>]) \<and>
   distinct (server_handles sim_listener
       [AcceptedTcpStream_new 4 \<lparr>milliseconds = 5000\<rparr> \<lparr>milliseconds = 5000\<rparr>])"
proof -
  have "server_step sim_os (sim_server, [], sim_init) (sim_listener, [], sim_init\<lparr>sim_fds := [3, 0, 1, 2]\<rparr>)"
    unfolding sim_listener_def by (rule Step_Open [OF sim_server_open])
  moreover have "server_step sim_os (sim_listener, [], sim_init\<lparr>sim_fds := [3, 0, 1, 2]\<rparr>)
      (sim_listener, [AcceptedTcpStream_new 4 \<lparr>milliseconds = 5000\<rparr> \<lparr>milliseconds = 5000\<rparr>],
       sim_init\<lparr>sim_fds := [4, 3, 0, 1, 2]\<rparr>)"
    by (rule Step_Accept [OF sim_accept])
  ultimately have "(server_step sim_os)\<^sup>*\<^sup>* (TcpServerTransport_new TcpServerTransportOptions_new, [], sim_init)
      (sim_listener, [AcceptedTcpStream_new 4 \<lparr>milliseconds = 5000\<rparr> \<lparr>milliseconds = 5000\<rparr>],
       sim_init\<lparr>sim_fds := [4, 3, 0, 1, 2]\<rparr>)"
    unfolding sim_server_def [symmetric] by (meson converse_rtranclp_into_rtranclp rtranclp.rtrancl_refl)
  from server_reachable_handles [OF this sim_fd_contract] show ?thesis by blast
qed

end
