(* ===== verification/Udp_Transport.thy ===== *)
theory Udp_Transport
  imports Socket_Helpers Posix_Sim
begin

text \<open>
  \<^verbatim>\<open>udp_transport.hpp/.cpp\<close>: datagrams over UDP. As in the listener's file, the helpers are the
  file's own copies (suffix \<open>_udp\<close>); all but the errno test equal the stream's. Theorems: Open
  leaks no descriptor and no address list over its nested resolutions, the transport keeps the
  datagram contract, a received datagram is whole or still there, a sent datagram is whole.
\<close>

unbundle bit_operations_syntax

section \<open>The helpers of this file\<close>

definition SocketRuntimeReady_udp :: bool where
  "SocketRuntimeReady_udp = True"

definition LastSocketError_udp :: "'w posix \<Rightarrow> 'w \<Rightarrow> int" where
  "LastSocketError_udp os w = sys_errno os w"

definition IsWouldBlock_udp :: "'w posix \<Rightarrow> int \<Rightarrow> bool" where
  "IsWouldBlock_udp os error \<longleftrightarrow> error = c_EWOULDBLOCK (pc os) \<or> error = c_EAGAIN (pc os)"

definition CloseNativeSocket_udp :: "'w posix \<Rightarrow> int \<Rightarrow> 'w \<Rightarrow> 'w" where
  "CloseNativeSocket_udp os socket w = snd (sys_close os socket w)"

definition SetNonBlocking_udp :: "'w posix \<Rightarrow> int \<Rightarrow> 'w \<Rightarrow> bool \<times> 'w" where
  "SetNonBlocking_udp os socket w =
     (case sys_fcntl os socket (c_F_GETFL (pc os)) 0 w of
        (flags, w1) \<Rightarrow>
          (if 0 \<le> flags then
             (case sys_fcntl os socket (c_F_SETFL (pc os)) (flags OR c_O_NONBLOCK (pc os)) w1 of
                (r, w2) \<Rightarrow> (r = 0, w2))
           else (False, w1)))"

definition PendingDatagramSize :: "'w posix \<Rightarrow> int \<Rightarrow> 'w \<Rightarrow> size_t option \<times> 'w" where
  "PendingDatagramSize os socket w =
     (case sys_ioctl_FIONREAD os socket w of
        ((r, pending), w1) \<Rightarrow>
          (if r \<noteq> 0 \<or> pending < 0 then (None, w1) else (Some (int_to_size pending), w1)))"

definition ToTimeval_udp :: "TransportDuration \<Rightarrow> timeval" where
  "ToTimeval_udp timeout =
     \<lparr>tv_sec = uint (milliseconds timeout div 1000),
      tv_usec = uint ((milliseconds timeout mod 1000) * 1000)\<rparr>"

definition WaitForSocket_udp ::
  "'w posix \<Rightarrow> int \<Rightarrow> bool \<Rightarrow> TransportDuration \<Rightarrow> 'w \<Rightarrow> TransportStatus \<times> 'w" where
  "WaitForSocket_udp os socket waitForRead timeout w =
     (let readSet = (if waitForRead then {socket} else {});
          writeSet = (if waitForRead then {} else {socket})
      in case sys_select os (socket + 1)
                (if waitForRead then Some readSet else None)
                (if waitForRead then None else Some writeSet)
                (ToTimeval_udp timeout) w of
           (result, w1) \<Rightarrow>
             (if 0 < result then (Ok, w1)
              else if result = 0 then (Timeout, w1)
              else (if waitForRead then ReadFailed else WriteFailed, w1)))"

definition BuildPort_udp :: "uint16 \<Rightarrow> string" where
  "BuildPort_udp portValue = decimal (unat portValue)"

text \<open>The empty list stands for the null pointer.\<close>

definition ResolveUdpAddress ::
  "'w posix \<Rightarrow> string \<Rightarrow> uint16 \<Rightarrow> int \<Rightarrow> int \<Rightarrow> 'w \<Rightarrow> addrinfo list \<times> 'w" where
  "ResolveUdpAddress os host portValue family flags w =
     (let hints = \<lparr>hint_flags = flags, hint_family = family,
                   hint_socktype = c_SOCK_DGRAM (pc os), hint_protocol = c_IPPROTO_UDP (pc os)\<rparr>;
          port = BuildPort_udp portValue;
          node = (if host = '''' then None else Some host)
      in case sys_getaddrinfo os node port hints w of
           ((r, addresses), w1) \<Rightarrow> (if r \<noteq> 0 then ([], w1) else (addresses, w1)))"

definition BoundLocalPort :: "'w posix \<Rightarrow> int \<Rightarrow> 'w \<Rightarrow> uint16 option \<times> 'w" where
  "BoundLocalPort os socket w =
     (case sys_getsockname os socket w of
        ((r, address), w1) \<Rightarrow>
          (if r \<noteq> 0 then (None, w1)
           else if ss_family address = c_AF_INET (pc os) then (Some (ntohs (sin_port address)), w1)
           else if ss_family address = c_AF_INET6 (pc os) then (Some (ntohs (sin6_port address)), w1)
           else (None, w1)))"

lemma udp_helpers:
  "SocketRuntimeReady_udp = SocketRuntimeReady" "LastSocketError_udp = LastSocketError"
  "CloseNativeSocket_udp = CloseNativeSocket" "SetNonBlocking_udp = SetNonBlocking"
  "ToTimeval_udp = ToTimeval" "WaitForSocket_udp = WaitForSocket" "BuildPort_udp = BuildPort"
proof -
  show tv: "ToTimeval_udp = ToTimeval"
    by (simp add: fun_eq_iff ToTimeval_udp_def ToTimeval_def)
  show "SetNonBlocking_udp = SetNonBlocking"
    by (auto simp: fun_eq_iff SetNonBlocking_udp_def SetNonBlocking_def split: prod.split)
  show "WaitForSocket_udp = WaitForSocket"
    by (simp add: fun_eq_iff WaitForSocket_udp_def WaitForSocket_def tv)
qed (simp_all add: fun_eq_iff SocketRuntimeReady_udp_def SocketRuntimeReady_def BuildPort_udp_def BuildPort_def
    LastSocketError_udp_def LastSocketError_def CloseNativeSocket_udp_def CloseNativeSocket_def)

section \<open>The object\<close>

record UdpTransportOptions =
  udp_localHost :: string
  udp_localPort :: uint16
  udp_remoteHost :: string
  udp_remotePort :: uint16
  udp_receiveTimeout :: TransportDuration
  udp_sendTimeout :: TransportDuration

definition UdpTransportOptions_new :: UdpTransportOptions where
  "UdpTransportOptions_new = \<lparr>udp_localHost = ''0.0.0.0'', udp_localPort = 0, udp_remoteHost = '''',
     udp_remotePort = 0, udp_receiveTimeout = \<lparr>milliseconds = 5000\<rparr>,
     udp_sendTimeout = \<lparr>milliseconds = 5000\<rparr>\<rparr>"

record UdpTransport =
  udp_options :: UdpTransportOptions
  udp_socket :: int
  udp_open :: bool
  udp_remoteConfigured :: bool

definition UdpTransport_new :: "UdpTransportOptions \<Rightarrow> UdpTransport" where
  "UdpTransport_new options = \<lparr>udp_options = options, udp_socket = kInvalidSocket, udp_open = False,
     udp_remoteConfigured = False\<rparr>"

section \<open>Methods\<close>

text \<open>The inner loop of Open: bind to the first local address that accepts it.\<close>

fun UdpTransport_bind :: "'w posix \<Rightarrow> int \<Rightarrow> addrinfo list \<Rightarrow> 'w \<Rightarrow> bool \<times> 'w" where
  "UdpTransport_bind os candidate [] w = (False, w)"
| "UdpTransport_bind os candidate (local # rest) w =
     (case sys_bind os candidate (ai_addr local) w of
        (r, w1) \<Rightarrow> (if r = 0 then (True, w1) else UdpTransport_bind os candidate rest w1))"

text \<open>The outer loop: the socket of the first candidate that could be bound and connected.\<close>

fun UdpTransport_candidates ::
  "'w posix \<Rightarrow> UdpTransportOptions \<Rightarrow> bool \<Rightarrow> addrinfo list \<Rightarrow> 'w \<Rightarrow> int option \<times> 'w" where
  "UdpTransport_candidates os options hasRemote [] w = (None, w)"
| "UdpTransport_candidates os options hasRemote (address # rest) w =
     (case sys_socket os (ai_family address) (c_SOCK_DGRAM (pc os)) (c_IPPROTO_UDP (pc os)) w of
        (candidate, w1) \<Rightarrow>
          (if candidate = kInvalidSocket then UdpTransport_candidates os options hasRemote rest w1
           else (case SetNonBlocking_udp os candidate w1 of
             (nonBlocking, w2) \<Rightarrow>
               (if \<not> nonBlocking then
                  UdpTransport_candidates os options hasRemote rest (CloseNativeSocket_udp os candidate w2)
                else (case ResolveUdpAddress os (udp_localHost options) (udp_localPort options)
                             (ai_family address) (c_AI_PASSIVE (pc os)) w2 of
                  (localAddresses, w3) \<Rightarrow>
                    (case UdpTransport_bind os candidate localAddresses w3 of
                      (bound, w4) \<Rightarrow>
                        (let w5 = (if localAddresses \<noteq> [] then sys_freeaddrinfo os localAddresses w4 else w4)
                         in if \<not> bound then
                              UdpTransport_candidates os options hasRemote rest
                                (CloseNativeSocket_udp os candidate w5)
                            else if hasRemote then
                              (case sys_connect os candidate (ai_addr address) w5 of
                                (r, w6) \<Rightarrow>
                                  (if r \<noteq> 0 then
                                     UdpTransport_candidates os options hasRemote rest
                                       (CloseNativeSocket_udp os candidate w6)
                                   else (Some candidate, w6)))
                            else (Some candidate, w5))))))))"

definition UdpTransport_Open ::
  "'w posix \<Rightarrow> UdpTransport \<Rightarrow> 'w \<Rightarrow> TransportStatus \<times> UdpTransport \<times> 'w" where
  "UdpTransport_Open os u w =
     (let options = udp_options u; hasRemote = udp_remoteHost options \<noteq> ''''
      in if udp_open u then (AlreadyOpen, u, w)
         else if (udp_remoteHost options = '''' \<and> udp_remotePort options \<noteq> 0) \<or>
                 (udp_remoteHost options \<noteq> '''' \<and> udp_remotePort options = 0)
         then (InvalidArgument, u, w)
         else if \<not> SocketRuntimeReady_udp then (OpenFailed, u, w)
         else (case (if hasRemote
                     then ResolveUdpAddress os (udp_remoteHost options) (udp_remotePort options)
                            (c_AF_UNSPEC (pc os)) 0 w
                     else ([], w)) of
           (remoteAddresses, w1) \<Rightarrow>
             (if hasRemote \<and> remoteAddresses = [] then (OpenFailed, u, w1)
              else (case (if hasRemote then (remoteAddresses, w1)
                          else ResolveUdpAddress os (udp_localHost options) (udp_localPort options)
                                 (c_AF_UNSPEC (pc os)) (c_AI_PASSIVE (pc os)) w1) of
                (firstAddress, w2) \<Rightarrow>
                  (if firstAddress = [] then (OpenFailed, u, w2)
                   else (case UdpTransport_candidates os options hasRemote firstAddress w2 of
                     (chosen, w3) \<Rightarrow>
                       (let w4 = (if hasRemote then sys_freeaddrinfo os remoteAddresses w3
                                  else sys_freeaddrinfo os firstAddress w3)
                        in case chosen of
                             None \<Rightarrow> (OpenFailed, u, w4)
                           | Some candidate \<Rightarrow>
                               (Ok, u\<lparr>udp_socket := candidate, udp_open := True,
                                      udp_remoteConfigured := hasRemote\<rparr>, w4))))))))"

definition UdpTransport_Close ::
  "'w posix \<Rightarrow> UdpTransport \<Rightarrow> 'w \<Rightarrow> TransportStatus \<times> UdpTransport \<times> 'w" where
  "UdpTransport_Close os u w =
     (let w1 = (if udp_socket u \<noteq> kInvalidSocket then CloseNativeSocket_udp os (udp_socket u) w else w)
      in (Ok, u\<lparr>udp_socket := kInvalidSocket, udp_open := False, udp_remoteConfigured := False\<rparr>, w1))"

definition UdpTransport_IsOpen :: "UdpTransport \<Rightarrow> bool" where
  "UdpTransport_IsOpen u = udp_open u"

definition UdpTransport_Send ::
  "'w posix \<Rightarrow> buffer \<Rightarrow> size_t \<Rightarrow> UdpTransport \<Rightarrow> 'w \<Rightarrow> TransportStatus \<times> UdpTransport \<times> 'w" where
  "UdpTransport_Send os input inputSize u w =
     (if \<not> udp_open u then (NotOpen, u, w)
      else if \<not> udp_remoteConfigured u then (InvalidArgument, u, w)
      else if input = None \<and> inputSize \<noteq> 0 then (InvalidArgument, u, w)
      else (case WaitForSocket_udp os (udp_socket u) False (udp_sendTimeout (udp_options u)) w of
        (waitStatus, w1) \<Rightarrow>
          (if waitStatus \<noteq> Ok then (if waitStatus = Timeout then Timeout else WriteFailed, u, w1)
           else (case sys_send os (udp_socket u) (mem_of input) (int_to_size (size_to_int inputSize)) w1 of
             (r, w2) \<Rightarrow>
               (let sent = ssize_to_int r
                in if sent < 0 then
                     (if IsWouldBlock_udp os (LastSocketError_udp os w2) then WouldBlock else WriteFailed, u, w2)
                   else if int_to_size sent \<noteq> inputSize then (WriteFailed, u, w2)
                   else (Ok, u, w2))))))"

definition UdpTransport_Receive ::
  "'w posix \<Rightarrow> buffer \<Rightarrow> size_t \<Rightarrow> UdpTransport \<Rightarrow> 'w \<Rightarrow> read_result \<times> UdpTransport \<times> 'w" where
  "UdpTransport_Receive os output outputSize u w =
     (if \<not> udp_open u then ((NotOpen, 0, output), u, w)
      else if output = None \<and> outputSize \<noteq> 0 then ((InvalidArgument, 0, output), u, w)
      else (case WaitForSocket_udp os (udp_socket u) True (udp_receiveTimeout (udp_options u)) w of
        (waitStatus, w1) \<Rightarrow>
          (if waitStatus \<noteq> Ok then ((waitStatus, 0, output), u, w1)
           else (case PendingDatagramSize os (udp_socket u) w1 of
             (None, w2) \<Rightarrow> ((ReadFailed, 0, output), u, w2)
           | (Some pending, w2) \<Rightarrow>
               (if outputSize < pending then ((OutputBufferTooSmall, 0, output), u, w2)
                else (case sys_recv os (udp_socket u) (int_to_size (size_to_int outputSize)) w2 of
                  ((r, bytes), w3) \<Rightarrow>
                    (let received = ssize_to_int r; output' = copy_to bytes output
                     in if 0 \<le> received then ((Ok, int_to_size received, output'), u, w3)
                        else (if IsWouldBlock_udp os (LastSocketError_udp os w3)
                              then (WouldBlock, 0, output') else (ReadFailed, 0, output'), u, w3))))))))"

definition UdpTransport_LocalPort :: "'w posix \<Rightarrow> UdpTransport \<Rightarrow> 'w \<Rightarrow> uint16 \<times> 'w" where
  "UdpTransport_LocalPort os u w =
     (if \<not> udp_open u then (0, w)
      else (case BoundLocalPort os (udp_socket u) w of
              (Some port, w1) \<Rightarrow> (port, w1)
            | (None, w1) \<Rightarrow> (0, w1)))"

definition UdpTransport_destroy :: "'w posix \<Rightarrow> UdpTransport \<Rightarrow> 'w \<Rightarrow> 'w" where
  "UdpTransport_destroy os u w = snd (snd (UdpTransport_Close os u w))"

definition UdpTransport_methods :: "'w posix \<Rightarrow> (UdpTransport \<times> 'w) IDatagramTransport" where
  "UdpTransport_methods os =
     \<lparr>dOpen = (\<lambda>(u, w). UdpTransport_Open os u w),
      dClose = (\<lambda>(u, w). UdpTransport_Close os u w),
      dIsOpen = (\<lambda>(u, w). UdpTransport_IsOpen u),
      dSend = (\<lambda>input inputSize (u, w). UdpTransport_Send os input inputSize u w),
      dReceive = (\<lambda>output outputSize (u, w). UdpTransport_Receive os output outputSize u w)\<rparr>"

lemma UdpTransport_methods_simps [simp]:
  "dOpen (UdpTransport_methods os) (u, w) = UdpTransport_Open os u w"
  "dClose (UdpTransport_methods os) (u, w) = UdpTransport_Close os u w"
  "dIsOpen (UdpTransport_methods os) (u, w) = UdpTransport_IsOpen u"
  "dSend (UdpTransport_methods os) input n (u, w) = UdpTransport_Send os input n u w"
  "dReceive (UdpTransport_methods os) output n (u, w) = UdpTransport_Receive os output n u w"
  by (simp_all add: UdpTransport_methods_def)

section \<open>Opening\<close>

lemma ResolveUdpAddress_keeps:
  assumes "\<And>node service hints. keeps obs (sys_getaddrinfo os node service hints)"
  shows "keeps obs (ResolveUdpAddress os host port family flags)"
  unfolding keeps_def ResolveUdpAddress_def Let_def
  by (auto split: prod.splits dest!: keepsD [OF assms])

lemma ResolveUdpAddress_live:
  assumes "addrinfo_contract os live" and "ResolveUdpAddress os host port family flags w = (as, w')"
  shows "live w' = (if as = [] then live w else live w + 1)"
  using assms(2) unfolding ResolveUdpAddress_def Let_def
  by (auto split: prod.splits if_splits dest!: addrinfo_contract_lists(1) [OF assms(1)])

lemma bind_keeps:
  assumes "\<And>fd a. keeps obs (sys_bind os fd a)"
  shows "UdpTransport_bind os c as w = (b, w') \<Longrightarrow> obs w' = obs w"
  by (induction as arbitrary: w) (auto split: prod.splits if_splits dest!: keepsD [OF assms])

lemma candidates_fds:
  assumes "UdpTransport_candidates os options hasRemote as w = (got, w')" and fd: "fd_contract os fds"
  shows "acquires got (fds w) (fds w')"
  using assms(1)
proof (induction as arbitrary: w hasRemote)
  case (Cons a as)
  note facts = fd_contract_keeps [OF fd]
  note sock = yields_fd_ok [OF fd_contract_opens(1) [OF fd]] yields_fd_failed [OF fd_contract_opens(1) [OF fd]]
  from Cons.prems show ?case
    unfolding UdpTransport_candidates.simps udp_helpers Let_def
    by (auto split: prod.splits if_splits
      dest!: Cons.IH sock keepsD [OF SetNonBlocking_keeps [OF facts(3)]] bind_keeps [OF facts(6)]
        keepsD [OF facts(7)] keepsD [OF ResolveUdpAddress_keeps [OF facts(1)]]
      simp: CloseNativeSocket_fds [OF fd] facts(2))
qed simp

lemma candidates_live:
  assumes "UdpTransport_candidates os options hasRemote as w = (got, w')" and ai: "addrinfo_contract os live"
  shows "live w' = live w"
  using assms(1)
proof (induction as arbitrary: w hasRemote)
  case (Cons a as)
  note facts = addrinfo_contract_keeps [OF ai]
  from Cons.prems show ?case
    unfolding UdpTransport_candidates.simps udp_helpers Let_def
    by (auto split: prod.splits if_splits
      dest!: Cons.IH keepsD [OF facts(1)] keepsD [OF SetNonBlocking_keeps [OF facts(3)]]
        bind_keeps [OF facts(6)] keepsD [OF facts(7)] ResolveUdpAddress_live [OF ai]
      simp: CloseNativeSocket_live [OF ai] addrinfo_contract_lists(2) [OF ai])
qed simp

lemma UdpTransport_Open_cases:
  assumes "UdpTransport_Open os u w = (st, u', w')" and "\<not> udp_open u"
  obtains (refused) "st = InvalidArgument" "u' = u" "w' = w"
    | (unresolved) host port family flags where "st = OpenFailed" "u' = u"
        "ResolveUdpAddress os host port family flags w = ([], w')"
    | (resolved) host port family flags as w1 got w2 where "as \<noteq> []"
        "ResolveUdpAddress os host port family flags w = (as, w1)"
        "UdpTransport_candidates os (udp_options u) (udp_remoteHost (udp_options u) \<noteq> '''') as w1 = (got, w2)"
        "st = (case got of None \<Rightarrow> OpenFailed | Some _ \<Rightarrow> Ok)"
        "u' = (case got of None \<Rightarrow> u | Some c \<Rightarrow> u\<lparr>udp_socket := c, udp_open := True,
                 udp_remoteConfigured := (udp_remoteHost (udp_options u) \<noteq> '''')\<rparr>)"
        "w' = sys_freeaddrinfo os as w2"
proof -
  let ?o = "udp_options u"
  let ?remote = "udp_remoteHost ?o \<noteq> ''''"
  let ?host = "if ?remote then udp_remoteHost ?o else udp_localHost ?o"
  let ?port = "if ?remote then udp_remotePort ?o else udp_localPort ?o"
  let ?flags = "if ?remote then 0 else c_AI_PASSIVE (pc os)"
  let ?family = "c_AF_UNSPEC (pc os)"
  obtain as w1 where re: "ResolveUdpAddress os ?host ?port ?family ?flags w = (as, w1)"
    by fastforce
  obtain got w2 where ca: "UdpTransport_candidates os ?o ?remote as w1 = (got, w2)" by fastforce
  note eq = assms [unfolded UdpTransport_Open_def Let_def udp_helpers SocketRuntimeReady_def]
  show thesis
  proof (cases "st = InvalidArgument")
    case True
    then have "u' = u" "w' = w" using eq by (auto split: if_splits prod.splits option.splits)
    with True show ?thesis by (rule refused)
  next
    case False
    then have ok: "?remote \<longleftrightarrow> udp_remotePort ?o \<noteq> 0" using eq by (auto split: if_splits)
    show ?thesis
    proof (cases "as = []")
      case True
      have "st = OpenFailed" "u' = u" "w' = w1" using eq ok re True by (auto split: if_splits)
      with re True show ?thesis by (auto intro: unresolved)
    next
      case nonempty: False
      from nonempty re ca show ?thesis
        by (rule resolved) (use eq ok re ca nonempty in \<open>auto split: if_splits option.splits\<close>)
    qed
  qed
qed

lemma udp_Open_fds:
  assumes "UdpTransport_Open os u w = (st, u', w')" and "\<not> udp_open u" and fd: "fd_contract os fds"
  shows "acquires (if st = Ok then Some (udp_socket u') else None) (fds w) (fds w') \<and>
    (st = Ok \<longleftrightarrow> udp_open u') \<and> (st \<noteq> Ok \<longrightarrow> u' = u) \<and>
    (st = Ok \<longrightarrow> (udp_remoteConfigured u' \<longleftrightarrow> udp_remoteHost (udp_options u) \<noteq> '''')) \<and>
    st \<in> {Ok, InvalidArgument, OpenFailed}"
  using assms(1,2)
proof (cases rule: UdpTransport_Open_cases)
  case (unresolved host port family flags)
  then show ?thesis
    using keepsD [OF ResolveUdpAddress_keeps [OF fd_contract_keeps(1) [OF fd]]] assms(2) by auto
next
  case (resolved host port family flags as w1 got w2)
  have "fds w1 = fds w" using keepsD [OF ResolveUdpAddress_keeps [OF fd_contract_keeps(1) [OF fd]] resolved(2)] .
  moreover have "fds w' = fds w2" using resolved(6) fd_contract_keeps(2) [OF fd] by simp
  ultimately show ?thesis
    using candidates_fds [OF resolved(3) fd] resolved(4,5) assms(2) by (cases got) auto
qed (use assms(2) in simp)

lemma udp_Open_live:
  assumes "UdpTransport_Open os u w = (st, u', w')" and "\<not> udp_open u" and ai: "addrinfo_contract os live"
  shows "live w' = live w"
  using assms(1,2)
proof (cases rule: UdpTransport_Open_cases)
  case (unresolved host port family flags)
  then show ?thesis using ResolveUdpAddress_live [OF ai] by fastforce
next
  case (resolved host port family flags as w1 got w2)
  then show ?thesis
    using ResolveUdpAddress_live [OF ai resolved(2)] candidates_live [OF resolved(3) ai]
      addrinfo_contract_lists(2) [OF ai] by simp
qed simp

text \<open>
  C13. A call of Open on a closed UDP transport never leaks: on Ok it holds exactly one fresh
  descriptor and Send is enabled exactly when a remote endpoint is configured; on every failure the process
  holds the same descriptors and the transport is unchanged. Every address list is released
  exactly once, the ones resolved per candidate inside the loop included. Only Ok, InvalidArgument
  and OpenFailed are returned.
\<close>

theorem udp_open_balanced:
  assumes "UdpTransport_Open os u w = (st, u', w')" and "\<not> udp_open u"
    and "fd_contract os fds" and "addrinfo_contract os live"
  shows "(if st = Ok
          then udp_open u' \<and> 0 \<le> udp_socket u' \<and> udp_socket u' \<notin> fds w \<and>
               fds w' = insert (udp_socket u') (fds w) \<and>
               (udp_remoteConfigured u' \<longleftrightarrow> udp_remoteHost (udp_options u) \<noteq> '''')
          else u' = u \<and> fds w' = fds w) \<and>
    live w' = live w \<and> st \<in> {Ok, InvalidArgument, OpenFailed}"
  using udp_Open_fds [OF assms(1-3)] udp_Open_live [OF assms(1,2,4)]
  by (cases "st = Ok") simp_all

definition sim_udp_new :: UdpTransport where
  "sim_udp_new = UdpTransport_new (UdpTransportOptions_new\<lparr>udp_remoteHost := ''meter'', udp_remotePort := 4059\<rparr>)"

definition sim_udp :: UdpTransport where
  "sim_udp = sim_udp_new\<lparr>udp_socket := 3, udp_open := True, udp_remoteConfigured := True\<rparr>"

lemmas udp_eval = sim_eval sim_udp_new_def sim_udp_def UdpTransport_new_def UdpTransportOptions_new_def
  udp_helpers SocketRuntimeReady_def SetNonBlocking_def CloseNativeSocket_def LastSocketError_def
  WaitForSocket_def ResolveUdpAddress_def PendingDatagramSize_def

lemma sim_udp_open:
  "UdpTransport_Open sim_os sim_udp_new (sim_init\<lparr>sim_connect := [101, 0],
       sim_addrs := sim_addrs sim_init @ sim_addrs sim_init\<rparr>) =
     (Ok, sim_udp, sim_init\<lparr>sim_fds := [3, 0, 1, 2], sim_addrs := sim_addrs sim_init @ sim_addrs sim_init,
        sim_connect := []\<rparr>)"
  by (simp add: UdpTransport_Open_def udp_eval)

theorem udp_open_balanced_witness:
  "3 \<notin> sim_fd_set sim_init \<and> sim_fd_set (sim_init\<lparr>sim_fds := [3, 0, 1, 2]\<rparr>) = insert 3 (sim_fd_set sim_init) \<and>
   udp_remoteConfigured sim_udp"
  using udp_open_balanced [OF sim_udp_open _ sim_fd_contract sim_addrinfo_contract]
  by (simp add: sim_udp_def sim_udp_new_def UdpTransport_new_def UdpTransportOptions_new_def)

section \<open>Lifecycle\<close>

definition udp_owns :: "('w \<Rightarrow> int set) \<Rightarrow> int set \<Rightarrow> UdpTransport \<Rightarrow> 'w \<Rightarrow> bool" where
  "udp_owns fds base u w \<longleftrightarrow>
     (if udp_open u then acquires (Some (udp_socket u)) base (fds w)
      else udp_socket u = kInvalidSocket \<and> \<not> udp_remoteConfigured u \<and> fds w = base)"

definition udp_invar :: "'w posix \<Rightarrow> ('w \<Rightarrow> int set) \<Rightarrow> int set \<Rightarrow> UdpTransport \<times> 'w \<Rightarrow> bool" where
  "udp_invar os fds base s \<longleftrightarrow>
     fd_contract os fds \<and> recv_contract os \<and> udp_owns fds base (fst s) (snd s)"

lemma udp_invar_cong:
  "udp_invar os fds base (u, w) \<Longrightarrow> u' = u \<and> fds w' = fds w \<Longrightarrow> udp_invar os fds base (u', w')"
  by (auto simp only: udp_invar_def udp_owns_def fst_conv snd_conv)

lemma udp_Open_owns:
  assumes "UdpTransport_Open os u w = (st, u', w')" and "fd_contract os fds" and "udp_owns fds base u w"
  shows "udp_owns fds base u' w'"
proof (cases "udp_open u")
  case True
  with assms show ?thesis by (simp add: UdpTransport_Open_def)
next
  case False
  then show ?thesis
    using udp_Open_fds [OF assms(1) _ assms(2)] assms(3) by (auto simp: udp_owns_def split: if_splits)
qed

lemma udp_Close_owns:
  assumes "UdpTransport_Close os u w = (st, u', w')" and "fd_contract os fds" and "udp_owns fds base u w"
  shows "st = Ok \<and> udp_owns fds base u' w' \<and> \<not> udp_open u' \<and> (\<not> udp_open u \<longrightarrow> u' = u \<and> w' = w)"
  using assms CloseNativeSocket_fds [OF assms(2)]
  by (auto simp: UdpTransport_Close_def Let_def udp_owns_def udp_helpers split: if_splits)

lemma udp_Send_owns:
  assumes "UdpTransport_Send os input n u w = (st, u', w')" and fd: "fd_contract os fds"
  shows "u' = u \<and> fds w' = fds w"
proof -
  note facts = fd_contract_keeps [OF fd]
  show ?thesis
    using assms(1) unfolding UdpTransport_Send_def udp_helpers Let_def
    by (auto split: prod.splits if_splits
      dest!: keepsD [OF WaitForSocket_keeps [OF facts(10)]] keepsD [OF facts(12)])
qed

lemma PendingDatagramSize_keeps:
  assumes "\<And>fd. keeps obs (sys_ioctl_FIONREAD os fd)"
  shows "keeps obs (PendingDatagramSize os fd)"
  unfolding keeps_def PendingDatagramSize_def
  by (auto split: prod.splits dest!: keepsD [OF assms])

lemma UdpTransport_Receive_cases:
  assumes "UdpTransport_Receive os out n u w = ((st, k, out'), u', w')" and "udp_open u"
    and "out \<noteq> None \<or> n = 0"
  obtains (unready) "WaitForSocket os (udp_socket u) True (udp_receiveTimeout (udp_options u)) w = (st, w')"
        "st = Timeout \<or> st = ReadFailed" "k = 0" "out' = out" "u' = u"
    | (unknown) w1 where
        "WaitForSocket os (udp_socket u) True (udp_receiveTimeout (udp_options u)) w = (Ok, w1)"
        "PendingDatagramSize os (udp_socket u) w1 = (None, w')"
        "st = ReadFailed" "k = 0" "out' = out" "u' = u"
    | (small) w1 pending where
        "WaitForSocket os (udp_socket u) True (udp_receiveTimeout (udp_options u)) w = (Ok, w1)"
        "PendingDatagramSize os (udp_socket u) w1 = (Some pending, w')" "n < pending"
        "st = OutputBufferTooSmall" "k = 0" "out' = out" "u' = u"
    | (received) w1 pending w2 r bs where
        "WaitForSocket os (udp_socket u) True (udp_receiveTimeout (udp_options u)) w = (Ok, w1)"
        "PendingDatagramSize os (udp_socket u) w1 = (Some pending, w2)" "pending \<le> n"
        "sys_recv os (udp_socket u) (int_to_size (size_to_int n)) w2 = ((r, bs), w')"
        "out' = copy_to bs out" "u' = u"
        "k = (if 0 \<le> ssize_to_int r then int_to_size (ssize_to_int r) else 0)"
        "st = (if 0 \<le> ssize_to_int r then Ok
               else if IsWouldBlock_udp os (LastSocketError os w') then WouldBlock else ReadFailed)"
  using assms
  by (auto simp: UdpTransport_Receive_def udp_helpers Let_def
      split: prod.splits if_splits option.splits dest: WaitForSocket_status)

lemma Receive_closed:
  "\<not> udp_open u \<Longrightarrow> UdpTransport_Receive os out n u w = ((NotOpen, 0, out), u, w)"
  by (simp add: UdpTransport_Receive_def)

lemma Receive_null:
  "udp_open u \<Longrightarrow> n \<noteq> 0 \<Longrightarrow> UdpTransport_Receive os None n u w = ((InvalidArgument, 0, None), u, w)"
  by (simp add: UdpTransport_Receive_def)

lemma Receive_owns:
  assumes "UdpTransport_Receive os out n u w = ((st, k, out'), u', w')" and fd: "fd_contract os fds"
  shows "u' = u \<and> fds w' = fds w"
proof (cases "udp_open u \<and> (out \<noteq> None \<or> n = 0)")
  case False
  then show ?thesis using assms(1) by (cases "udp_open u"; cases out) (auto simp: Receive_closed Receive_null)
next
  case True
  note facts = fd_contract_keeps [OF fd]
  from assms(1) conjunct1 [OF True] conjunct2 [OF True] show ?thesis
    by (cases rule: UdpTransport_Receive_cases)
      (auto dest!: keepsD [OF WaitForSocket_keeps [OF facts(10)]] keepsD [OF facts(11)]
        keepsD [OF PendingDatagramSize_keeps [OF facts(13)]])
qed

lemma Receive_frame:
  assumes "UdpTransport_Receive os out n u w = ((st, k, out'), u', w')"
    and "recv_contract os" and "grants out n" and "unat n < 2 ^ 31"
  shows "buffer_frame n k out out' \<and> (st \<noteq> Ok \<longrightarrow> k = 0 \<and> out' = out)"
proof (cases "udp_open u \<and> (out \<noteq> None \<or> n = 0)")
  case False
  then show ?thesis using assms(1) by (cases "udp_open u"; cases out) (auto simp: Receive_closed Receive_null)
next
  case True
  from assms(1) conjunct1 [OF True] conjunct2 [OF True] show ?thesis
  proof (cases rule: UdpTransport_Receive_cases)
    case (received w1 pending w2 r bs)
    from recv_narrow [OF assms(2,4) received(4)]
    have r: "(ssize_to_int r = -1 \<and> bs = []) \<or> (ssize_to_int r = int (length bs) \<and> length bs \<le> unat n)"
      by blast
    show ?thesis
    proof (cases out)
      case None
      with True r received(5,7,8) show ?thesis by (auto simp: buffer_frame_def cast_simps)
    next
      case (Some buf)
      with r received(5,7,8) assms(3) unat_of_nat_le [of "length bs" n] show ?thesis
        by (cases "ssize_to_int r = -1") (auto simp: cast_simps)
    qed
  qed auto
qed

interpretation udp: datagram_transport "UdpTransport_methods os" "udp_invar os fds base"
  for os :: "'w posix" and fds :: "'w \<Rightarrow> int set" and base :: "int set"
proof (unfold_locales; (simp only: split_paired_all UdpTransport_methods_simps UdpTransport_IsOpen_def)?)
  fix u :: UdpTransport and w :: 'w and st u' w' out n k out' r
  assume inv: "udp_invar os fds base (u, w)"
  then have D: "fd_contract os fds" "recv_contract os" "udp_owns fds base u w"
    by (simp_all add: udp_invar_def)
  show "udp_open u \<Longrightarrow> UdpTransport_Open os u w = (AlreadyOpen, u, w)"
    by (simp add: UdpTransport_Open_def)
  show "\<not> udp_open u \<Longrightarrow> UdpTransport_Open os u w = (st, u', w') \<Longrightarrow> udp_open u' = (st = Ok)"
    using udp_Open_fds [OF _ _ D(1)] by metis
  show "UdpTransport_Close os u w = (st, u', w') \<Longrightarrow> st = Ok \<and> \<not> udp_open u'"
    using udp_Close_owns [OF _ D(1,3)] by metis
  show "\<not> udp_open u \<Longrightarrow> UdpTransport_Close os u w = (Ok, u, w)"
    using udp_Close_owns [OF _ D(1,3)] by (metis prod_cases3)
  show "UdpTransport_Open os u w = (st, u', w') \<Longrightarrow> udp_invar os fds base (u', w')"
    using udp_Open_owns [OF _ D(1,3)] D by (simp add: udp_invar_def)
  show "UdpTransport_Close os u w = (st, u', w') \<Longrightarrow> udp_invar os fds base (u', w')"
    using udp_Close_owns [OF _ D(1,3)] D by (simp add: udp_invar_def)
  show "\<not> udp_open u \<Longrightarrow> UdpTransport_Send os out n u w = (NotOpen, u, w)"
    "udp_open u \<Longrightarrow> n \<noteq> 0 \<Longrightarrow> UdpTransport_Send os None n u w = (InvalidArgument, u, w)"
    by (simp_all add: UdpTransport_Send_def)
  show "UdpTransport_Send os out n u w = (st, u', w') \<Longrightarrow> udp_open u' = udp_open u"
    using udp_Send_owns [OF _ D(1)] by metis
  show "UdpTransport_Send os out n u w = (st, u', w') \<Longrightarrow> udp_invar os fds base (u', w')"
    using udp_invar_cong [OF inv udp_Send_owns [OF _ D(1)]] .
  show "\<not> udp_open u \<Longrightarrow> UdpTransport_Receive os out n u w = ((NotOpen, 0, out), u, w)"
    by (rule Receive_closed)
  show "udp_open u \<Longrightarrow> n \<noteq> 0 \<Longrightarrow> UdpTransport_Receive os None n u w = ((InvalidArgument, 0, None), u, w)"
    by (rule Receive_null)
  show "grants out n \<Longrightarrow> unat n < 2 ^ 31 \<Longrightarrow>
      UdpTransport_Receive os out n u w = ((st, k, out'), u', w') \<Longrightarrow>
      buffer_frame n k out out' \<and> (st \<noteq> Ok \<longrightarrow> k = 0 \<and> out' = out)"
    using Receive_frame [OF _ D(2)] by metis
  show "UdpTransport_Receive os out n u w = (r, u', w') \<Longrightarrow> udp_open u' = udp_open u"
    using Receive_owns [OF _ D(1)] by (metis prod_cases3)
  show "UdpTransport_Receive os out n u w = (r, u', w') \<Longrightarrow> udp_invar os fds base (u', w')"
    using udp_invar_cong [OF inv Receive_owns [OF _ D(1)]] by (cases r) simp
qed

text \<open>
  Whatever a client does with a UDP transport, in any order and number of Open, Close, Send and
  Receive calls: while it is open the process holds exactly one descriptor more than before it
  was built, the transport's own, and while it is closed none more; Send is enabled only while it is
  open; and after the destructor the process holds what it held before.
\<close>

theorem udp_session_no_leak:
  assumes "datagram_run (UdpTransport_methods os) calls (UdpTransport_new options, w) = (sts, u, w')"
    and "fd_contract os fds" and "recv_contract os"
  shows "(if UdpTransport_IsOpen u
          then udp_socket u \<notin> fds w \<and> fds w' = insert (udp_socket u) (fds w)
          else udp_socket u = kInvalidSocket \<and> \<not> udp_remoteConfigured u \<and> fds w' = fds w) \<and>
    fds (UdpTransport_destroy os u w') = fds w"
proof -
  have init: "udp_invar os fds (fds w) (UdpTransport_new options, w)"
    using assms(2,3) by (simp add: udp_invar_def udp_owns_def UdpTransport_new_def)
  have owns: "udp_owns fds (fds w) u w'"
    using udp.dgram_run_invar [OF init assms(1)] by (simp add: udp_invar_def)
  obtain st u4 w4 where close: "UdpTransport_Close os u w' = (st, u4, w4)" using prod_cases3 by blast
  have "fds w4 = fds w" using udp_Close_owns [OF close assms(2) owns] by (simp add: udp_owns_def)
  then show ?thesis
    using owns close by (auto simp: udp_owns_def UdpTransport_IsOpen_def UdpTransport_destroy_def)
qed

lemma sim_udp_session:
  "datagram_run (UdpTransport_methods sim_os)
     [DgramOpen, DgramReceive (Some [0, 0]) 2, DgramReceive (Some [0, 0]) 2, DgramClose, DgramOpen]
     (sim_udp_new, sim_init\<lparr>sim_in := [[5, 6, 7], [8]]\<rparr>) =
   ([Ok, OutputBufferTooSmall, OutputBufferTooSmall, Ok, Ok], sim_udp,
    sim_init\<lparr>sim_in := [[5, 6, 7], [8]], sim_fds := [3, 0, 1, 2]\<rparr>)"
  by (simp add: UdpTransport_Open_def UdpTransport_Close_def UdpTransport_Receive_def udp_eval int_to_size_def)

theorem udp_session_no_leak_witness:
  "3 \<notin> sim_fd_set sim_init \<and>
   sim_fd_set (UdpTransport_destroy sim_os sim_udp
     (sim_init\<lparr>sim_in := [[5, 6, 7], [8]], sim_fds := [3, 0, 1, 2]\<rparr>)) = sim_fd_set sim_init"
  using udp_session_no_leak [OF sim_udp_session [unfolded sim_udp_new_def] sim_fd_contract sim_recv_contract]
  by (simp add: UdpTransport_IsOpen_def sim_udp_def sim_udp_new_def)

section \<open>Datagrams\<close>

text \<open>
  C11. Receive keeps datagram boundaries, for buffers of less than \<open>2^31\<close> bytes and datagrams of at most 65535. With a
  datagram waiting, it returns exactly that datagram,
  whole, at the start of the caller's buffer, with its length, and removes it; or reports
  OutputBufferTooSmall exactly when the buffer is shorter than the datagram, which then stays first
  in the queue for a retry with a larger buffer; or reports that the system refused, with nothing
  consumed and nothing stored. Datagrams that arrive meanwhile stay behind it.
\<close>

theorem udp_receive_whole:
  assumes "UdpTransport_Receive os (Some buf) n u w = ((st, k, out'), u', w')"
    and "udp_open u" and "unat n < 2 ^ 31" and "unat n \<le> length buf"
    and wait: "WaitForSocket os (udp_socket u) True (udp_receiveTimeout (udp_options u)) w = (Ok, w1)"
    and queue: "inq w1 = d # rest" "length d \<le> 65535"
    and dgram: "datagram_in_contract os (udp_socket u) inq"
  shows "\<exists>more.
    (st = Ok \<and> length d \<le> unat n \<and> unat k = length d \<and> out' = Some (d @ drop (length d) buf) \<and>
       inq w' = rest @ more) \<or>
    (st = OutputBufferTooSmall \<and> unat n < length d \<and> k = 0 \<and> out' = Some buf \<and> inq w' = d # rest @ more) \<or>
    (st \<in> {ReadFailed, WouldBlock} \<and> k = 0 \<and> out' = Some buf \<and> inq w' = d # rest @ more)"
proof -
  note D = datagram_in_contractD [OF dgram]
  have ioctl: "(\<exists>more. inq w2 = d # rest @ more) \<and> (p = None \<or> p = Some (of_nat (length d)))"
    if "PendingDatagramSize os (udp_socket u) w1 = (p, w2)" for p w2
    using that D(1) [of w1] queue
    by (fastforce simp: PendingDatagramSize_def int_to_size_of_nat split: prod.splits if_splits)
  have size: "unat (of_nat (length d) :: size_t) = length d" using queue(2) by (simp add: unat_of_nat_size)
  from assms(1,2) option.distinct(2) [THEN disjI1, of buf "n = 0"] show ?thesis
  proof (cases rule: UdpTransport_Receive_cases)
    case unready
    with wait show ?thesis by auto
  next
    case (unknown w1')
    with wait ioctl show ?thesis by auto
  next
    case (small w1' pending)
    with wait ioctl [of "Some pending" w'] size show ?thesis by (auto simp: word_less_nat_alt)
  next
    case (received w1' pending w2 r bs)
    then have fits: "length d \<le> unat n" and len: "int_to_size (size_to_int n) = n"
      using wait ioctl [of "Some pending" w2] size assms(3) by (auto simp: word_le_nat_alt size_cast_id)
    obtain more where "inq w2 = d # rest @ more" using received(1,2) wait ioctl [of "Some pending" w2] by auto
    from D(2) [OF received(4) this] obtain more' where
      "(r = -1 \<and> bs = [] \<and> inq w' = d # rest @ more') \<or> (bs = d \<and> r = int (length d) \<and> inq w' = rest @ more')"
      using len fits by fastforce
    then show ?thesis
      using received(5-8) fits size queue(2) by (auto simp: ssize_to_int_small int_to_size_of_nat)
  qed
qed

lemma sim_udp_receive:
  "UdpTransport_Receive sim_datagram_os (Some [0, 0, 0, 0]) 4 sim_udp (sim_init\<lparr>sim_in := [[5, 6, 7], [8]]\<rparr>) =
     ((Ok, 3, Some [5, 6, 7, 0]), sim_udp, sim_init\<lparr>sim_in := [[8]]\<rparr>)"
  by (simp add: UdpTransport_Receive_def udp_eval sim_datagram_os_def size_to_int_small int_to_size_uint
      ssize_to_int_small int_to_size_def)

lemma sim_udp_wait:
  "WaitForSocket sim_datagram_os (udp_socket sim_udp) True (udp_receiveTimeout (udp_options sim_udp))
     (sim_init\<lparr>sim_in := [[5, 6, 7], [8]]\<rparr>) = (Ok, sim_init\<lparr>sim_in := [[5, 6, 7], [8]]\<rparr>)"
  by (simp add: udp_eval sim_datagram_os_def)

theorem udp_receive_whole_witness:
  "\<exists>more. [[8 :: byte]] = [[8]] @ more \<and> Some [5, 6, 7, 0 :: byte] = Some ([5, 6, 7] @ drop 3 [0, 0, 0, 0])"
  using udp_receive_whole [OF sim_udp_receive _ _ _ sim_udp_wait _ _ sim_datagram_in_contract,
      of "[5, 6, 7]" "[[8]]"]
  by (simp add: sim_udp_def)

text \<open>
  C12. Send hands over one whole datagram or nothing: with a remote endpoint configured and a size below \<open>2^31\<close>, Ok means that
  exactly the caller's bytes left as one datagram, and any other status (Timeout, WouldBlock,
  WriteFailed) that none did. The transport is unchanged.
\<close>

theorem udp_send_whole:
  assumes "UdpTransport_Send os (Some buf) n u w = (st, u', w')"
    and "udp_open u" and "udp_remoteConfigured u" and "unat n < 2 ^ 31" and "unat n \<le> length buf"
    and dgram: "datagram_out_contract os (udp_socket u) outq"
  shows "outq w' = outq w @ (if st = Ok then [take (unat n) buf] else []) \<and>
    st \<in> {Ok, Timeout, WouldBlock, WriteFailed} \<and> u' = u"
proof -
  note D = datagram_out_contractD [OF dgram]
  obtain s1 w1 where wait: "WaitForSocket os (udp_socket u) False (udp_sendTimeout (udp_options u)) w = (s1, w1)"
    by fastforce
  obtain r w2 where send: "sys_send os (udp_socket u) buf n w1 = (r, w2)" by fastforce
  have w1: "outq w1 = outq w" using keepsD [OF WaitForSocket_keeps [OF D(2)] wait] .
  have cast: "ssize_to_int (uint n) = uint n" "ssize_to_int (-1) = -1"
    using uint_less_of_unat [OF assms(4)] uint_nonnegative [of n]
    by (intro ssize_to_int_small; linarith)+
  show ?thesis
    using assms(1-4) D(1) [OF send] w1
    by (auto simp: UdpTransport_Send_def udp_helpers wait send Let_def size_cast_id cast int_to_size_uint
        split: if_splits)
qed

lemma sim_udp_send:
  "UdpTransport_Send sim_datagram_os (Some [1, 2, 3]) 2 sim_udp sim_init =
     (Ok, sim_udp, sim_init\<lparr>sim_sent := [[1, 2]]\<rparr>)"
  by (simp add: UdpTransport_Send_def udp_eval sim_datagram_os_def size_to_int_small int_to_size_uint
      ssize_to_int_small int_to_size_def)

theorem udp_send_whole_witness:
  "sim_sent (sim_init\<lparr>sim_sent := [[1, 2]]\<rparr>) = sim_sent sim_init @ [take (unat (2 :: size_t)) [1, 2, 3]]"
  using udp_send_whole [OF sim_udp_send _ _ _ _ sim_datagram_out_contract]
  by (simp add: sim_udp_def)

end
