(* ===== verification/Serial_Transport.thy ===== *)
theory Serial_Transport
  imports Socket_Helpers Posix_Sim
begin

text \<open>
  \<^verbatim>\<open>serial_transport.hpp/.cpp\<close>, POSIX branch: a serial line as a byte stream. Unlike the socket streams
  it passes sizes to the system unnarrowed, so its theorems hold for every size. Theorems: the
  stream contract, no descriptor leak, reads deliver what the device delivered, WriteAll writes all
  or fails. The configured line settings are checked by Open but never reach the device.
\<close>

unbundle bit_operations_syntax

section \<open>The object\<close>

datatype SerialParity = ParityNone | ParityEven | ParityOdd

datatype SerialStopBits = StopBitsOne | StopBitsTwo

record SerialTransportOptions =
  ser_deviceName :: string
  ser_baudRate :: uint32
  ser_dataBits :: byte
  ser_parity :: SerialParity
  ser_stopBits :: SerialStopBits
  ser_readTimeout :: TransportDuration
  ser_writeTimeout :: TransportDuration

definition SerialTransportOptions_new :: SerialTransportOptions where
  "SerialTransportOptions_new = \<lparr>ser_deviceName = '''', ser_baudRate = 9600, ser_dataBits = 8,
     ser_parity = ParityNone, ser_stopBits = StopBitsOne,
     ser_readTimeout = \<lparr>milliseconds = 5000\<rparr>, ser_writeTimeout = \<lparr>milliseconds = 5000\<rparr>\<rparr>"

record SerialTransport =
  ser_options :: SerialTransportOptions
  ser_handle :: int
  ser_open :: bool

abbreviation kInvalidSerialHandle :: int where
  "kInvalidSerialHandle \<equiv> -1"

section \<open>The helpers of this file\<close>

definition ToTimeval_serial :: "TransportDuration \<Rightarrow> timeval" where
  "ToTimeval_serial timeout =
     \<lparr>tv_sec = uint (milliseconds timeout div 1000),
      tv_usec = uint ((milliseconds timeout mod 1000) * 1000)\<rparr>"

definition WaitForHandle ::
  "'w posix \<Rightarrow> int \<Rightarrow> bool \<Rightarrow> TransportDuration \<Rightarrow> 'w \<Rightarrow> TransportStatus \<times> 'w" where
  "WaitForHandle os handle waitForRead timeout w =
     (let readSet = (if waitForRead then {handle} else {});
          writeSet = (if waitForRead then {} else {handle})
      in case sys_select os (handle + 1)
                (if waitForRead then Some readSet else None)
                (if waitForRead then None else Some writeSet)
                (ToTimeval_serial timeout) w of
           (result, w1) \<Rightarrow>
             (if 0 < result then (Ok, w1)
              else if result = 0 then (Timeout, w1)
              else (if waitForRead then ReadFailed else WriteFailed, w1)))"

definition OpenNativeSerial :: "'w posix \<Rightarrow> SerialTransportOptions \<Rightarrow> 'w \<Rightarrow> int \<times> 'w" where
  "OpenNativeSerial os options w =
     sys_open os (ser_deviceName options)
       (c_O_RDWR (pc os) OR c_O_NOCTTY (pc os) OR c_O_NONBLOCK (pc os)) w"

definition CloseNativeSerial :: "'w posix \<Rightarrow> int \<Rightarrow> 'w \<Rightarrow> 'w" where
  "CloseNativeSerial os handle w = snd (sys_close os handle w)"

text \<open>The errno test of the reads and writes of this file.\<close>

definition serial_would_block :: "'w posix \<Rightarrow> 'w \<Rightarrow> bool" where
  "serial_would_block os w \<longleftrightarrow> sys_errno os w = c_EAGAIN (pc os) \<or> sys_errno os w = c_EWOULDBLOCK (pc os)"

definition NativeRead ::
  "'w posix \<Rightarrow> int \<Rightarrow> buffer \<Rightarrow> size_t \<Rightarrow> TransportDuration \<Rightarrow> 'w \<Rightarrow> read_result \<times> 'w" where
  "NativeRead os handle output outputSize timeout w =
     (case WaitForHandle os handle True timeout w of
        (waitStatus, w1) \<Rightarrow>
          (if waitStatus \<noteq> Ok then ((waitStatus, 0, output), w1)
           else (case sys_read os handle outputSize w1 of
             ((received, bytes), w2) \<Rightarrow>
               (let output' = copy_to bytes output
                in if 0 \<le> received then ((Ok, int_to_size received, output'), w2)
                   else if serial_would_block os w2 then ((WouldBlock, 0, output'), w2)
                   else ((ReadFailed, 0, output'), w2)))))"

definition NativeWriteAll ::
  "'w posix \<Rightarrow> int \<Rightarrow> buffer \<Rightarrow> size_t \<Rightarrow> TransportDuration \<Rightarrow> 'w \<Rightarrow> (TransportStatus \<times> 'w) option" where
  "NativeWriteAll os handle input inputSize timeout w =
     write_loop (WaitForHandle os handle False timeout) (sys_write os handle) (serial_would_block os)
       (mem_of input) inputSize 0 w"

definition OptionsAreValid :: "SerialTransportOptions \<Rightarrow> bool" where
  "OptionsAreValid options \<longleftrightarrow>
     ser_deviceName options \<noteq> '''' \<and> ser_baudRate options \<noteq> 0 \<and>
     5 \<le> ser_dataBits options \<and> ser_dataBits options \<le> 8"

lemma serial_helpers: "ToTimeval_serial = ToTimeval" "WaitForHandle = WaitForSocket"
  "CloseNativeSerial = CloseNativeSocket"
proof -
  show tv: "ToTimeval_serial = ToTimeval"
    by (simp add: fun_eq_iff ToTimeval_serial_def ToTimeval_def)
  show "WaitForHandle = WaitForSocket"
    by (simp add: fun_eq_iff WaitForHandle_def WaitForSocket_def tv)
  show "CloseNativeSerial = CloseNativeSocket"
    by (simp add: fun_eq_iff CloseNativeSerial_def CloseNativeSocket_def)
qed

section \<open>Methods\<close>

definition SerialTransport_new :: "SerialTransportOptions \<Rightarrow> SerialTransport" where
  "SerialTransport_new options =
     \<lparr>ser_options = options, ser_handle = kInvalidSerialHandle, ser_open = False\<rparr>"

definition SerialTransport_Open ::
  "'w posix \<Rightarrow> SerialTransport \<Rightarrow> 'w \<Rightarrow> TransportStatus \<times> SerialTransport \<times> 'w" where
  "SerialTransport_Open os t w =
     (if ser_open t then (AlreadyOpen, t, w)
      else if \<not> OptionsAreValid (ser_options t) then (InvalidArgument, t, w)
      else (case OpenNativeSerial os (ser_options t) w of
        (handle, w1) \<Rightarrow>
          (if handle = kInvalidSerialHandle then (OpenFailed, t, w1)
           else (Ok, t\<lparr>ser_handle := handle, ser_open := True\<rparr>, w1))))"

definition SerialTransport_Close ::
  "'w posix \<Rightarrow> SerialTransport \<Rightarrow> 'w \<Rightarrow> TransportStatus \<times> SerialTransport \<times> 'w" where
  "SerialTransport_Close os t w =
     (let w1 = (if ser_handle t \<noteq> kInvalidSerialHandle then CloseNativeSerial os (ser_handle t) w else w)
      in (Ok, t\<lparr>ser_handle := kInvalidSerialHandle, ser_open := False\<rparr>, w1))"

definition SerialTransport_IsOpen :: "SerialTransport \<Rightarrow> bool" where
  "SerialTransport_IsOpen t = ser_open t"

definition SerialTransport_ReadSome ::
  "'w posix \<Rightarrow> buffer \<Rightarrow> size_t \<Rightarrow> SerialTransport \<Rightarrow> 'w \<Rightarrow> read_result \<times> SerialTransport \<times> 'w" where
  "SerialTransport_ReadSome os output outputSize t w =
     (if \<not> ser_open t then ((NotOpen, 0, output), t, w)
      else if output = None \<and> outputSize \<noteq> 0 then ((InvalidArgument, 0, output), t, w)
      else if outputSize = 0 then ((Ok, 0, output), t, w)
      else (case NativeRead os (ser_handle t) output outputSize (ser_readTimeout (ser_options t)) w of
              (r, w1) \<Rightarrow> (r, t, w1)))"

definition SerialTransport_WriteAll ::
  "'w posix \<Rightarrow> buffer \<Rightarrow> size_t \<Rightarrow> SerialTransport \<Rightarrow> 'w \<Rightarrow>
   (TransportStatus \<times> SerialTransport \<times> 'w) option" where
  "SerialTransport_WriteAll os input inputSize t w =
     (if \<not> ser_open t then Some (NotOpen, t, w)
      else if input = None \<and> inputSize \<noteq> 0 then Some (InvalidArgument, t, w)
      else if inputSize = 0 then Some (Ok, t, w)
      else (case NativeWriteAll os (ser_handle t) input inputSize (ser_writeTimeout (ser_options t)) w of
              None \<Rightarrow> None
            | Some (status, w1) \<Rightarrow> Some (status, t, w1)))"

definition SerialTransport_destroy :: "'w posix \<Rightarrow> SerialTransport \<Rightarrow> 'w \<Rightarrow> 'w" where
  "SerialTransport_destroy os t w = snd (snd (SerialTransport_Close os t w))"

definition SerialTransport_methods :: "'w posix \<Rightarrow> (SerialTransport \<times> 'w) IByteStream" where
  "SerialTransport_methods os =
     \<lparr>vOpen = (\<lambda>(t, w). SerialTransport_Open os t w),
      vClose = (\<lambda>(t, w). SerialTransport_Close os t w),
      vIsOpen = (\<lambda>(t, w). SerialTransport_IsOpen t),
      vReadSome = (\<lambda>output outputSize (t, w). SerialTransport_ReadSome os output outputSize t w),
      vWriteAll = (\<lambda>input inputSize (t, w). SerialTransport_WriteAll os input inputSize t w)\<rparr>"

lemma SerialTransport_methods_simps [simp]:
  "vOpen (SerialTransport_methods os) (t, w) = SerialTransport_Open os t w"
  "vClose (SerialTransport_methods os) (t, w) = SerialTransport_Close os t w"
  "vIsOpen (SerialTransport_methods os) (t, w) = SerialTransport_IsOpen t"
  "vReadSome (SerialTransport_methods os) output n (t, w) = SerialTransport_ReadSome os output n t w"
  "vWriteAll (SerialTransport_methods os) input n (t, w) = SerialTransport_WriteAll os input n t w"
  by (simp_all add: SerialTransport_methods_def)

section \<open>Reading\<close>

lemma NativeRead_result:
  assumes "NativeRead os fd (Some buf) n timeout w = ((st, k, out'), w')" and "read_contract os"
  shows "(st = Ok \<longrightarrow> (\<exists>w1 bs. WaitForSocket os fd True timeout w = (Ok, w1) \<and>
        sys_read os fd n w1 = ((int (length bs), bs), w') \<and> length bs \<le> unat n \<and> unat k = length bs \<and>
        out' = Some (bs @ drop (length bs) buf))) \<and>
    (st \<noteq> Ok \<longrightarrow> k = 0 \<and> out' = Some buf) \<and> st \<in> {Ok, Timeout, ReadFailed, WouldBlock}"
proof -
  obtain s1 w1 where wait: "WaitForSocket os fd True timeout w = (s1, w1)" by fastforce
  obtain r bs w2 where rd: "sys_read os fd n w1 = ((r, bs), w2)" by (metis surj_pair)
  have "(r = -1 \<and> bs = []) \<or> (r = int (length bs) \<and> length bs \<le> unat n)"
    using assms(2) rd by (auto simp: read_contract_def dest: receivesD)
  then show ?thesis
    using assms(1) wait rd WaitForSocket_status [OF wait] unat_of_nat_le [of "length bs" n]
    by (auto simp: NativeRead_def serial_helpers Let_def int_to_size_of_nat split: if_splits)
qed

lemma serial_ReadSome_closed:
  "\<not> ser_open t \<Longrightarrow> SerialTransport_ReadSome os out n t w = ((NotOpen, 0, out), t, w)"
  by (simp add: SerialTransport_ReadSome_def)

lemma serial_ReadSome_null:
  "ser_open t \<Longrightarrow> n \<noteq> 0 \<Longrightarrow>
   SerialTransport_ReadSome os None n t w = ((InvalidArgument, 0, None), t, w)"
  by (simp add: SerialTransport_ReadSome_def)

lemma serial_ReadSome_open:
  "ser_open t \<Longrightarrow> SerialTransport_ReadSome os (Some buf) n t w =
   (if n = 0 then ((Ok, 0, Some buf), t, w)
    else case NativeRead os (ser_handle t) (Some buf) n (ser_readTimeout (ser_options t)) w of
           (r, w1) \<Rightarrow> (r, t, w1))"
  by (simp add: SerialTransport_ReadSome_def)

text \<open>
  C26. Reading from an open serial line delivers exactly what the device delivered, for a buffer of any
  size: Ok (for a non-zero size) means one read whose bytes stand at the start of the buffer with
  their number reported and the rest of the memory untouched; every other status reports zero
  bytes and leaves the memory as it was. The line stays open in every case, also when the device
  reports its end by a read of zero bytes, which is reported as Ok with zero bytes and never as
  ConnectionClosed.
\<close>

theorem serial_read_delivers:
  assumes "SerialTransport_ReadSome os (Some buf) n t w = ((st, k, out'), t', w')"
    and "ser_open t" and "unat n \<le> length buf" and "read_contract os"
  shows "(st = Ok \<and> n \<noteq> 0 \<longrightarrow>
      (\<exists>w1 bs. WaitForSocket os (ser_handle t) True (ser_readTimeout (ser_options t)) w = (Ok, w1) \<and>
         sys_read os (ser_handle t) n w1 = ((int (length bs), bs), w') \<and> length bs \<le> unat n \<and>
         unat k = length bs \<and> out' = Some (bs @ drop (length bs) buf))) \<and>
    (st \<noteq> Ok \<longrightarrow> k = 0 \<and> out' = Some buf) \<and> t' = t \<and> st \<in> {Ok, Timeout, ReadFailed, WouldBlock}"
proof (cases "n = 0")
  case True
  with assms(1,2) show ?thesis by (simp add: serial_ReadSome_open)
next
  case False
  with assms(1,2) have "NativeRead os (ser_handle t) (Some buf) n (ser_readTimeout (ser_options t)) w =
      ((st, k, out'), w')" and "t' = t"
    by (auto simp: serial_ReadSome_open split: prod.splits)
  then show ?thesis using NativeRead_result [OF _ assms(4)] by blast
qed

definition sim_serial_options :: SerialTransportOptions where
  "sim_serial_options = SerialTransportOptions_new\<lparr>ser_deviceName := ''/dev/ttyUSB0''\<rparr>"

definition sim_serial :: SerialTransport where
  "sim_serial = \<lparr>ser_options = sim_serial_options, ser_handle = 3, ser_open = True\<rparr>"

lemma sim_serial_read:
  "SerialTransport_ReadSome sim_os (Some [0, 0, 0]) 3 sim_serial (sim_init\<lparr>sim_in := [[7, 8]]\<rparr>) =
     ((Ok, 2, Some [7, 8, 0]), sim_serial, sim_init)"
  by (simp add: serial_ReadSome_open sim_serial_def NativeRead_def serial_helpers WaitForSocket_def sim_eval
      int_to_size_def)

theorem serial_read_delivers_witness:
  "\<exists>w1 bs. sys_read sim_os 3 3 w1 = ((int (length bs), bs), sim_init) \<and>
     Some [7, 8, 0 :: byte] = Some (bs @ drop (length bs) [0, 0, 0])"
  using serial_read_delivers [OF sim_serial_read _ _ sim_read_contract] by (auto simp: sim_serial_def)

section \<open>Ownership and lifecycle\<close>

definition ser_owns :: "('w \<Rightarrow> int set) \<Rightarrow> int set \<Rightarrow> SerialTransport \<Rightarrow> 'w \<Rightarrow> bool" where
  "ser_owns fds base t w \<longleftrightarrow>
     (if ser_open t then acquires (Some (ser_handle t)) base (fds w)
      else ser_handle t = kInvalidSerialHandle \<and> fds w = base)"

definition ser_invar :: "'w posix \<Rightarrow> ('w \<Rightarrow> int set) \<Rightarrow> int set \<Rightarrow> SerialTransport \<times> 'w \<Rightarrow> bool" where
  "ser_invar os fds base s \<longleftrightarrow>
     fd_contract os fds \<and> read_contract os \<and> ser_owns fds base (fst s) (snd s)"

lemma ser_invar_cong:
  "ser_invar os fds base (t, w) \<Longrightarrow> t' = t \<and> fds w' = fds w \<Longrightarrow> ser_invar os fds base (t', w')"
  by (auto simp only: ser_invar_def ser_owns_def fst_conv snd_conv)

lemma serial_Open_result:
  assumes "SerialTransport_Open os t w = (st, t', w')" and "\<not> ser_open t" and fd: "fd_contract os fds"
  shows "acquires (if st = Ok then Some (ser_handle t') else None) (fds w) (fds w') \<and>
    (st = Ok \<longleftrightarrow> ser_open t') \<and> (st \<noteq> Ok \<longrightarrow> t' = t) \<and> st \<in> {Ok, InvalidArgument, OpenFailed}"
  using assms(1,2) yields_fd_ok [OF fd_contract_opens(3) [OF fd]] yields_fd_failed [OF fd_contract_opens(3) [OF fd]]
  by (auto simp: SerialTransport_Open_def OpenNativeSerial_def split: prod.splits if_splits)

lemma serial_Open_owns:
  assumes "SerialTransport_Open os t w = (st, t', w')" and "fd_contract os fds" and "ser_owns fds base t w"
  shows "ser_owns fds base t' w'"
proof (cases "ser_open t")
  case True
  with assms show ?thesis by (simp add: SerialTransport_Open_def)
next
  case False
  then show ?thesis
    using serial_Open_result [OF assms(1) _ assms(2)] assms(3) by (auto simp: ser_owns_def split: if_splits)
qed

lemma serial_Close_owns:
  assumes "SerialTransport_Close os t w = (st, t', w')" and "fd_contract os fds" and "ser_owns fds base t w"
  shows "st = Ok \<and> ser_owns fds base t' w' \<and> \<not> ser_open t' \<and> (\<not> ser_open t \<longrightarrow> t' = t \<and> w' = w)"
  using assms CloseNativeSocket_fds [OF assms(2)]
  by (auto simp: SerialTransport_Close_def Let_def ser_owns_def serial_helpers split: if_splits)

lemma serial_ReadSome_keeps:
  assumes "SerialTransport_ReadSome os out n t w = (r, t', w')" and fd: "fd_contract os fds"
  shows "t' = t \<and> fds w' = fds w"
proof -
  note facts = fd_contract_keeps [OF fd]
  show ?thesis
    using assms(1) unfolding SerialTransport_ReadSome_def NativeRead_def serial_helpers Let_def
    by (auto split: prod.splits if_splits
      dest!: keepsD [OF WaitForSocket_keeps [OF facts(10)]] keepsD [OF facts(14)])
qed

lemma serial_ReadSome_frame:
  assumes "SerialTransport_ReadSome os out n t w = ((st, k, out'), t', w')"
    and "read_contract os" and "grants out n"
  shows "buffer_frame n k out out' \<and> (st \<noteq> Ok \<longrightarrow> k = 0 \<and> out' = out)"
proof (cases "ser_open t \<and> n \<noteq> 0 \<and> out \<noteq> None")
  case False
  then show ?thesis
    using assms(1) by (cases "ser_open t"; cases out; cases "n = 0")
      (auto simp: serial_ReadSome_closed serial_ReadSome_null SerialTransport_ReadSome_def)
next
  case True
  then obtain buf where buf: "out = Some buf" "unat n \<le> length buf" using assms(3) by auto
  with True assms(1) have "NativeRead os (ser_handle t) (Some buf) n (ser_readTimeout (ser_options t)) w =
      ((st, k, out'), w')"
    by (auto simp: serial_ReadSome_open split: prod.splits)
  from NativeRead_result [OF this assms(2)] buf show ?thesis
    by (cases "st = Ok") auto
qed

section \<open>Writing\<close>

lemma sys_write_puts: "write_contract os fd out \<Longrightarrow> puts out limit (sys_write os fd)"
  unfolding puts_def write_contract_def by (fastforce dest: transmitsD)

lemma serial_WriteAll_keeps:
  assumes "SerialTransport_WriteAll os input n t w = Some (st, t', w')" and fd: "fd_contract os fds"
  shows "t' = t \<and> fds w' = fds w"
  using assms(1) fd_contract_keeps(10,15) [OF fd]
  by (auto simp: SerialTransport_WriteAll_def NativeWriteAll_def serial_helpers split: if_splits option.splits
      dest!: write_loop_keeps [OF _ WaitForSocket_keeps, where obs = fds])

interpretation serial: byte_stream "SerialTransport_methods os" "ser_invar os fds base"
  for os :: "'w posix" and fds :: "'w \<Rightarrow> int set" and base :: "int set"
proof (unfold_locales; (simp only: split_paired_all SerialTransport_methods_simps SerialTransport_IsOpen_def)?)
  fix t :: SerialTransport and w :: 'w and st t' w' out n k out' r
  assume inv: "ser_invar os fds base (t, w)"
  then have D: "fd_contract os fds" "read_contract os" "ser_owns fds base t w"
    by (simp_all add: ser_invar_def)
  show "ser_open t \<Longrightarrow> SerialTransport_Open os t w = (AlreadyOpen, t, w)"
    by (simp add: SerialTransport_Open_def)
  show "\<not> ser_open t \<Longrightarrow> SerialTransport_Open os t w = (st, t', w') \<Longrightarrow> ser_open t' = (st = Ok)"
    using serial_Open_result [OF _ _ D(1)] by metis
  show "SerialTransport_Close os t w = (st, t', w') \<Longrightarrow> st = Ok \<and> \<not> ser_open t'"
    using serial_Close_owns [OF _ D(1,3)] by metis
  show "\<not> ser_open t \<Longrightarrow> SerialTransport_Close os t w = (Ok, t, w)"
    using serial_Close_owns [OF _ D(1,3)] by (metis prod_cases3)
  show "SerialTransport_Open os t w = (st, t', w') \<Longrightarrow> ser_invar os fds base (t', w')"
    using serial_Open_owns [OF _ D(1,3)] D by (simp add: ser_invar_def)
  show "SerialTransport_Close os t w = (st, t', w') \<Longrightarrow> ser_invar os fds base (t', w')"
    using serial_Close_owns [OF _ D(1,3)] D by (simp add: ser_invar_def)
  show "\<not> ser_open t \<Longrightarrow> SerialTransport_ReadSome os out n t w = ((NotOpen, 0, out), t, w)"
    by (rule serial_ReadSome_closed)
  show "ser_open t \<Longrightarrow> n \<noteq> 0 \<Longrightarrow>
      SerialTransport_ReadSome os None n t w = ((InvalidArgument, 0, None), t, w)"
    by (rule serial_ReadSome_null)
  show "grants out n \<Longrightarrow> unat n < 2 ^ 31 \<Longrightarrow>
      SerialTransport_ReadSome os out n t w = ((st, k, out'), t', w') \<Longrightarrow>
      buffer_frame n k out out' \<and> (st \<noteq> Ok \<longrightarrow> k = 0 \<and> out' = out)"
    using serial_ReadSome_frame [OF _ D(2)] by metis
  show "SerialTransport_ReadSome os out n t w = ((st, k, out'), t', w') \<Longrightarrow> ser_open t' \<longrightarrow> ser_open t"
    using serial_ReadSome_keeps [OF _ D(1)] by metis
  show "SerialTransport_ReadSome os out n t w = ((st, k, out'), t', w') \<Longrightarrow>
      st \<noteq> ConnectionClosed \<Longrightarrow> ser_open t' = ser_open t"
    using serial_ReadSome_keeps [OF _ D(1)] by metis
  show "\<not> ser_open t \<Longrightarrow> SerialTransport_WriteAll os out n t w = Some (NotOpen, t, w)"
    "ser_open t \<Longrightarrow> n \<noteq> 0 \<Longrightarrow> SerialTransport_WriteAll os None n t w = Some (InvalidArgument, t, w)"
    by (simp_all add: SerialTransport_WriteAll_def)
  show "SerialTransport_WriteAll os out n t w = Some (st, t', w') \<Longrightarrow> ser_open t' = ser_open t"
    using serial_WriteAll_keeps [OF _ D(1)] by metis
  show "SerialTransport_ReadSome os out n t w = (r, t', w') \<Longrightarrow> ser_invar os fds base (t', w')"
    using ser_invar_cong [OF inv serial_ReadSome_keeps [OF _ D(1)]] .
  show "SerialTransport_WriteAll os out n t w = Some (st, t', w') \<Longrightarrow> ser_invar os fds base (t', w')"
    using ser_invar_cong [OF inv serial_WriteAll_keeps [OF _ D(1)]] .
qed

text \<open>
  Whatever a client does with a serial line, in any order and number of calls: while it is open
  the process holds exactly one descriptor more than before, while it is closed none more, it is
  open only after a successful Open with no Close after it, and after the destructor the process
  holds what it held before.
\<close>

theorem serial_session_no_leak:
  assumes "stream_run (SerialTransport_methods os) calls (SerialTransport_new options, w) = Some (log, t, w')"
    and "fd_contract os fds" and "read_contract os"
  shows "(if SerialTransport_IsOpen t
          then ser_handle t \<notin> fds w \<and> fds w' = insert (ser_handle t) (fds w)
          else ser_handle t = kInvalidSerialHandle \<and> fds w' = fds w) \<and>
    (SerialTransport_IsOpen t \<longrightarrow> opened_last log) \<and>
    fds (SerialTransport_destroy os t w') = fds w"
proof -
  have init: "ser_invar os fds (fds w) (SerialTransport_new options, w)"
    using assms(2,3) by (simp add: ser_invar_def ser_owns_def SerialTransport_new_def)
  have owns: "ser_owns fds (fds w) t w'"
    using serial.run_invar [OF init assms(1)] by (simp add: ser_invar_def)
  obtain st t2 w2 where close: "SerialTransport_Close os t w' = (st, t2, w2)" using prod_cases3 by blast
  have "fds w2 = fds w" using serial_Close_owns [OF close assms(2) owns] by (simp add: ser_owns_def)
  moreover have "SerialTransport_IsOpen t \<Longrightarrow> opened_last log"
    using serial.is_open_only_after_open [OF init _ assms(1)]
    by (simp add: SerialTransport_IsOpen_def SerialTransport_new_def)
  ultimately show ?thesis
    using owns close by (auto simp: ser_owns_def SerialTransport_IsOpen_def SerialTransport_destroy_def)
qed

lemmas serial_eval = sim_eval sim_serial_def sim_serial_options_def SerialTransportOptions_new_def
  SerialTransport_new_def SerialTransport_Open_def SerialTransport_Close_def OptionsAreValid_def
  OpenNativeSerial_def NativeRead_def NativeWriteAll_def serial_helpers WaitForSocket_def serial_ReadSome_open
  SerialTransport_WriteAll_def CloseNativeSocket_def

lemma sim_serial_session:
  "stream_run (SerialTransport_methods sim_os) [CallOpen, CallReadSome (Some [0]) 1, CallClose, CallClose]
     (SerialTransport_new sim_serial_options, sim_init) =
   Some ([(CallOpen, Ok), (CallReadSome (Some [0]) 1, Ok), (CallClose, Ok), (CallClose, Ok)],
     SerialTransport_new sim_serial_options, sim_init)"
  by (simp add: serial_eval)

theorem serial_session_no_leak_witness:
  "sim_fd_set (SerialTransport_destroy sim_os (SerialTransport_new sim_serial_options) sim_init) =
     sim_fd_set sim_init"
  using serial_session_no_leak [OF sim_serial_session sim_fd_contract sim_read_contract] by blast

text \<open>
  C24. WriteAll on an open serial line writes the whole input or reports a failure, for an input of any
  size: a prefix of the input leaves in order however the device splits it, the status is Ok exactly
  when the prefix is the whole input, and Timeout or WriteFailed otherwise. It returns as soon as
  every spurious wake-up brings some counter of the system down.
\<close>

theorem serial_write_all:
  assumes "ser_open t" and "unat n \<le> length input" and "write_contract os (ser_handle t) out"
    and "wakes \<mu> (WaitForHandle os (ser_handle t) False (ser_writeTimeout (ser_options t)))
           (sys_write os (ser_handle t)) (serial_would_block os)"
  shows "\<exists>st w' k. SerialTransport_WriteAll os (Some input) n t w = Some (st, t, w') \<and> k \<le> unat n \<and>
    out w' = out w @ take k input \<and> (st = Ok \<longleftrightarrow> k = unat n) \<and> st \<in> {Ok, Timeout, WriteFailed}"
proof (cases "n = 0")
  case True
  with assms(1) show ?thesis by (simp add: SerialTransport_WriteAll_def)
next
  case False
  note puts = sys_write_puts [OF assms(3), of n]
  from write_loop_returns [OF puts assms(4), of 0 input w] obtain st w' where
    loop: "NativeWriteAll os (ser_handle t) (Some input) n (ser_writeTimeout (ser_options t)) w = Some (st, w')"
    by (auto simp: NativeWriteAll_def)
  have "keeps out (WaitForHandle os (ser_handle t) False (ser_writeTimeout (ser_options t)))"
    unfolding serial_helpers using assms(3) by (intro WaitForSocket_keeps) (simp add: write_contract_def)
  from write_loop_sound [OF loop [unfolded NativeWriteAll_def] this puts] assms(2)
  obtain k where "k \<le> unat n" "out w' = out w @ take k input" "st = Ok \<longleftrightarrow> k = unat n"
    "st \<in> {Ok, Timeout, WriteFailed}"
    by auto
  moreover have "SerialTransport_WriteAll os (Some input) n t w = Some (st, t, w')"
    using assms(1) False loop by (simp add: SerialTransport_WriteAll_def)
  ultimately show ?thesis by blast
qed

text \<open>The device of \<open>sim_wake_os\<close>, read as a serial line.\<close>

definition sim_serial_os :: "sim posix" where
  "sim_serial_os = sim_os\<lparr>sys_write := sys_send sim_wake_os\<rparr>"

lemma sim_serial_os_write_contract: "write_contract sim_serial_os fd sim_out"
  using sim_wake_send_contract sim_send_contract
  by (simp add: write_contract_def send_contract_def sim_serial_os_def)

lemma sim_serial_wakes:
  "wakes (\<lambda>w. if sim_room w = 0 then 1 else 0) (WaitForHandle sim_serial_os fd False timeout)
     (sys_write sim_serial_os fd) (serial_would_block sim_serial_os)"
  unfolding wakes_def serial_helpers
  by (auto simp: WaitForSocket_def sim_serial_os_def sim_wake_os_def sim_os_def Let_def sim_transmit_def
      split: prod.splits if_splits list.splits)

theorem serial_write_all_witness:
  "\<exists>st w' k. SerialTransport_WriteAll sim_serial_os (Some [1, 2, 3, 4, 5, 6]) 6 sim_serial
       (sim_init\<lparr>sim_room := 0\<rparr>) = Some (st, sim_serial, w') \<and> k \<le> unat (6 :: size_t) \<and>
     sim_out w' = sim_out (sim_init\<lparr>sim_room := 0\<rparr>) @ take k [1, 2, 3, 4, 5, 6] \<and>
     (st = Ok \<longleftrightarrow> k = unat (6 :: size_t)) \<and> st \<in> {Ok, Timeout, WriteFailed}"
  by (rule serial_write_all [OF _ _ sim_serial_os_write_contract sim_serial_wakes]) (simp_all add: sim_serial_def)

section \<open>Line settings\<close>

text \<open>
  C38. The line settings of the options do not reach the device: two closed serial transports for the
  same device name, both with options Open accepts, open alike, with the same status, handle and
  effect on the system, whatever their baud rate, data bits, parity and stop bits.
\<close>

theorem serial_line_settings_ignored:
  assumes "\<not> ser_open t1" and "\<not> ser_open t2"
    and "OptionsAreValid (ser_options t1)" and "OptionsAreValid (ser_options t2)"
    and "ser_deviceName (ser_options t1) = ser_deviceName (ser_options t2)"
    and "SerialTransport_Open os t1 w = (st1, t1', w1)" and "SerialTransport_Open os t2 w = (st2, t2', w2)"
  shows "st1 = st2 \<and> w1 = w2 \<and> (st1 = Ok \<longrightarrow> ser_handle t1' = ser_handle t2')"
  using assms by (auto simp: SerialTransport_Open_def OpenNativeSerial_def split: prod.splits if_splits)

lemma sim_serial_open:
  "SerialTransport_Open sim_os (SerialTransport_new (sim_serial_options\<lparr>ser_baudRate := b, ser_parity := p\<rparr>)) sim_init =
     (if b = 0 then (InvalidArgument, SerialTransport_new (sim_serial_options\<lparr>ser_baudRate := b, ser_parity := p\<rparr>), sim_init)
      else (Ok, \<lparr>ser_options = sim_serial_options\<lparr>ser_baudRate := b, ser_parity := p\<rparr>, ser_handle = 3, ser_open = True\<rparr>,
      sim_init\<lparr>sim_fds := [3, 0, 1, 2]\<rparr>))"
  by (simp add: serial_eval)

theorem serial_line_settings_ignored_witness:
  "ser_handle (fst (snd (SerialTransport_Open sim_os
       (SerialTransport_new (sim_serial_options\<lparr>ser_baudRate := 300, ser_parity := ParityEven\<rparr>)) sim_init))) =
   ser_handle (fst (snd (SerialTransport_Open sim_os
       (SerialTransport_new (sim_serial_options\<lparr>ser_baudRate := 9600, ser_parity := ParityNone\<rparr>)) sim_init)))"
  using serial_line_settings_ignored
    [of "SerialTransport_new (sim_serial_options\<lparr>ser_baudRate := 300, ser_parity := ParityEven\<rparr>)"
        "SerialTransport_new (sim_serial_options\<lparr>ser_baudRate := 9600, ser_parity := ParityNone\<rparr>)" sim_os sim_init]
  unfolding sim_serial_open
  by (simp add: SerialTransport_new_def OptionsAreValid_def sim_serial_options_def SerialTransportOptions_new_def)

end
