(* ===== verification/Serial_Discovery.thy ===== *)
theory Serial_Discovery
  imports Posix_Os "HOL-Library.List_Lexorder" "HOL-Library.Char_ord" "HOL-Library.Multiset"
begin

text \<open>
  \<^verbatim>\<open>serial_port_discovery.hpp/.cpp\<close>, POSIX branch: listing the serial devices under \<^verbatim>\<open>/dev\<close>. The directory
  calls are a parameter, \<open>dos\<close>; the loop over \<^verbatim>\<open>readdir\<close> is a partial function and returns when
  the directory has finitely many entries (\<open>dir_contract\<close>).
\<close>

section \<open>Directory streams\<close>

record 'w dirent_os =
  sys_opendir :: "string \<Rightarrow> 'w \<Rightarrow> int option \<times> 'w"
  sys_readdir :: "int \<Rightarrow> 'w \<Rightarrow> string option \<times> 'w"
  sys_closedir :: "int \<Rightarrow> 'w \<Rightarrow> 'w"

text \<open>
  What is relied on: a directory stream yields the names of the directory one by one and then
  null, and \<^verbatim>\<open>closedir\<close> gives the stream back. \<open>pending d w\<close> are the names stream \<open>d\<close> has still to yield,
  \<open>streams w\<close> counts the open streams.
\<close>

definition dir_contract ::
  "'w dirent_os \<Rightarrow> (string \<Rightarrow> string list) \<Rightarrow> (int \<Rightarrow> 'w \<Rightarrow> string list) \<Rightarrow> ('w \<Rightarrow> int) \<Rightarrow> bool" where
  "dir_contract dos names pending streams \<longleftrightarrow>
     (\<forall>path w r w'. sys_opendir dos path w = (r, w') \<longrightarrow>
        (case r of None \<Rightarrow> streams w' = streams w
         | Some d \<Rightarrow> streams w' = streams w + 1 \<and> pending d w' = names path)) \<and>
     (\<forall>d w. fst (sys_readdir dos d w) = (case pending d w of [] \<Rightarrow> None | n # _ \<Rightarrow> Some n) \<and>
        pending d (snd (sys_readdir dos d w)) = tl (pending d w) \<and>
        streams (snd (sys_readdir dos d w)) = streams w) \<and>
     (\<forall>d w. streams (sys_closedir dos d w) = streams w - 1)"

lemma dir_contractD:
  assumes "dir_contract dos names pending streams"
  shows "sys_opendir dos path w = (None, w') \<Longrightarrow> streams w' = streams w"
    "sys_opendir dos path w = (Some d, w') \<Longrightarrow> streams w' = streams w + 1 \<and> pending d w' = names path"
    "sys_readdir dos d w = (e, w') \<Longrightarrow> e = (case pending d w of [] \<Rightarrow> None | n # _ \<Rightarrow> Some n) \<and>
       pending d w' = tl (pending d w) \<and> streams w' = streams w"
    "streams (sys_closedir dos d w) = streams w - 1"
  using assms unfolding dir_contract_def by (fastforce, fastforce, metis fst_conv snd_conv, blast)

section \<open>Listing ports\<close>

record SerialPortInfo =
  port_device :: string
  port_displayName :: string
  port_hardwareId :: string

definition SerialPortInfo_new :: "string \<Rightarrow> SerialPortInfo" where
  "SerialPortInfo_new deviceValue =
     \<lparr>port_device = deviceValue, port_displayName = '''', port_hardwareId = ''''\<rparr>"

section \<open>The interface\<close>

text \<open>
  \<^verbatim>\<open>ISerialPortDiscovery\<close>: listing returns Ok and replaces what the vector held; the devices are names the
  serial transport accepts (not empty), each listed once.
\<close>

locale serial_port_discovery =
  fixes ListPorts :: "SerialPortInfo list \<Rightarrow> 's \<Rightarrow> ((TransportStatus \<times> SerialPortInfo list) \<times> 's) option"
    and invar :: "'s \<Rightarrow> bool"
  assumes list_returns: "invar s \<Longrightarrow> \<exists>ports' s'. ListPorts ports s = Some ((Ok, ports'), s')"
    and list_clears: "invar s \<Longrightarrow> ListPorts ports s = ListPorts [] s"
    and list_devices: "invar s \<Longrightarrow> ListPorts ports s = Some ((st, ports'), s') \<Longrightarrow>
      distinct (map port_device ports') \<and> (\<forall>p \<in> set ports'. port_device p \<noteq> [] \<and> port_displayName p \<noteq> [])"
begin

lemma device_identifies_port:
  assumes "invar s" and "ListPorts ports s = Some ((st, ports'), s')"
    and "p \<in> set ports'" and "q \<in> set ports'" and "port_device p = port_device q"
  shows "p = q"
  using list_devices [OF assms(1,2)] assms(3-) by (auto simp: distinct_map dest: inj_onD)

lemma lookup_by_device:
  assumes "invar s" and "p \<in> set ports'" and "ListPorts ports s = Some ((st, ports'), s')"
  shows "find (\<lambda>q. port_device q = port_device p) ports' = Some p"
proof -
  obtain q where q: "find (\<lambda>q. port_device q = port_device p) ports' = Some q"
    using assms(2) by (cases "find (\<lambda>q. port_device q = port_device p) ports'") (auto simp: find_None_iff)
  then have "q \<in> set ports'" "port_device q = port_device p" by (auto simp: find_Some_iff)
  then show ?thesis using q device_identifies_port [OF assms(1,3) _ assms(2)] by simp
qed

end

section \<open>The POSIX listing\<close>

definition HasPrefix :: "string \<Rightarrow> string \<Rightarrow> bool" where
  "HasPrefix value prefix \<longleftrightarrow> take (length prefix) value = prefix"

text \<open>The condition of the loop body.\<close>

definition is_port_name :: "string \<Rightarrow> bool" where
  "is_port_name name \<longleftrightarrow> HasPrefix name ''ttyS'' \<or> HasPrefix name ''ttyUSB'' \<or>
     HasPrefix name ''ttyACM'' \<or> HasPrefix name ''cu.''"

partial_function (option) read_ports ::
  "'w dirent_os \<Rightarrow> string \<Rightarrow> int \<Rightarrow> SerialPortInfo list \<Rightarrow> 'w \<Rightarrow> (SerialPortInfo list \<times> 'w) option" where
  "read_ports dos directory dir ports w =
     (case sys_readdir dos dir w of
        (None, w1) \<Rightarrow> Some (ports, w1)
      | (Some name, w1) \<Rightarrow>
          (if is_port_name name then
             (let info = (SerialPortInfo_new (directory @ ''/'' @ name))\<lparr>port_displayName := name\<rparr>
              in read_ports dos directory dir (ports @ [info]) w1)
           else read_ports dos directory dir ports w1))"

definition AppendUnixPortsFromDirectory ::
  "'w dirent_os \<Rightarrow> string \<Rightarrow> SerialPortInfo list \<Rightarrow> 'w \<Rightarrow> (SerialPortInfo list \<times> 'w) option" where
  "AppendUnixPortsFromDirectory dos directory ports w =
     (case sys_opendir dos directory w of
        (None, w1) \<Rightarrow> Some (ports, w1)
      | (Some dir, w1) \<Rightarrow>
          (case read_ports dos directory dir ports w1 of
             None \<Rightarrow> None
           | Some (ports', w2) \<Rightarrow> Some (ports', sys_closedir dos dir w2)))"

text \<open>
  \<^verbatim>\<open>std::sort\<close> returns some permutation that is sorted by the device; the model takes the stable one.
  When no two devices are equal there is only one.
\<close>

definition PlatformSerialPortDiscovery_ListPorts ::
  "'w dirent_os \<Rightarrow> SerialPortInfo list \<Rightarrow> 'w \<Rightarrow> ((TransportStatus \<times> SerialPortInfo list) \<times> 'w) option" where
  "PlatformSerialPortDiscovery_ListPorts dos ports w =
     (case AppendUnixPortsFromDirectory dos ''/dev'' [] w of
        None \<Rightarrow> None
      | Some (ports', w1) \<Rightarrow> Some ((Ok, sort_key port_device ports'), w1))"

section \<open>The listing is the sorted set of ports\<close>

definition port_info :: "string \<Rightarrow> string \<Rightarrow> SerialPortInfo" where
  "port_info directory name = \<lparr>port_device = directory @ ''/'' @ name, port_displayName = name, port_hardwareId = ''''\<rparr>"

lemma read_ports_result:
  assumes "dir_contract dos names pending streams"
  shows "\<exists>w'. read_ports dos directory d ports w =
      Some (ports @ map (port_info directory) (filter is_port_name (pending d w)), w') \<and>
    streams w' = streams w"
proof (induction "pending d w" arbitrary: w ports)
  case Nil
  obtain e w1 where rd: "sys_readdir dos d w = (e, w1)" by fastforce
  with Nil dir_contractD(3) [OF assms rd] show ?case by (simp add: read_ports.simps)
next
  case (Cons n ns)
  obtain e w1 where rd: "sys_readdir dos d w = (e, w1)" by fastforce
  note D = dir_contractD(3) [OF assms rd]
  have e: "e = Some n" and rest: "ns = pending d w1" and st: "streams w1 = streams w"
    using D Cons.hyps(2) [symmetric] by simp_all
  have info: "(SerialPortInfo_new (directory @ ''/'' @ n))\<lparr>port_displayName := n\<rparr> = port_info directory n"
    by (simp add: port_info_def SerialPortInfo_new_def)
  show ?case
    using Cons.hyps(1) [OF rest, of "if is_port_name n then ports @ [port_info directory n] else ports"]
      Cons.hyps(2) [symmetric] rest st
    by (cases "is_port_name n")
      (simp_all only: read_ports.simps [of dos directory d ports w] rd e prod.case option.case if_True if_False
        Let_def info [unfolded append.simps] filter.simps list.map append_assoc append.simps)
qed

lemma port_info_devices_distinct:
  "distinct ns \<Longrightarrow> distinct (map port_device (map (port_info directory) ns))"
  by (auto simp: distinct_map port_info_def inj_on_def)

lemma ListPorts_result:
  assumes "dir_contract dos names pending streams" and "distinct (names ''/dev'')"
  shows "\<exists>ports' w'. PlatformSerialPortDiscovery_ListPorts dos ports w = Some ((Ok, ports'), w') \<and>
    streams w' = streams w \<and>
    set ports' = (if fst (sys_opendir dos ''/dev'' w) = None then {}
      else port_info ''/dev'' ` set (filter is_port_name (names ''/dev''))) \<and>
    sorted_wrt (<) (map port_device ports') \<and>
    (\<forall>ys. mset ys = mset ports' \<and> sorted (map port_device ys) \<longrightarrow> ys = ports')"
proof -
  obtain r w1 where op: "sys_opendir dos ''/dev'' w = (r, w1)" by fastforce
  define found where "found = (if r = None then []
    else map (port_info ''/dev'') (filter is_port_name (names ''/dev'')))"
  have dist: "distinct (map port_device found)"
    using assms(2) port_info_devices_distinct [of "filter is_port_name (names ''/dev'')" "''/dev''"]
    by (simp add: found_def)
  have "\<exists>w'. AppendUnixPortsFromDirectory dos ''/dev'' [] w = Some (found, w') \<and> streams w' = streams w"
  proof (cases r)
    case None
    with op dir_contractD(1) [OF assms(1)] show ?thesis
      by (simp add: AppendUnixPortsFromDirectory_def found_def)
  next
    case (Some d)
    with op dir_contractD(2) [OF assms(1)]
    have d: "streams w1 = streams w + 1" "pending d w1 = names ''/dev''" by auto
    from read_ports_result [OF assms(1), of "''/dev''" d "[]" w1] obtain w2 where
      "read_ports dos ''/dev'' d [] w1 = Some (found, w2)" "streams w2 = streams w1"
      using Some d(2) by (auto simp: found_def)
    then show ?thesis
      using Some op d(1) dir_contractD(4) [OF assms(1)] by (simp add: AppendUnixPortsFromDirectory_def)
  qed
  then obtain w' where "PlatformSerialPortDiscovery_ListPorts dos ports w = Some ((Ok, sort_key port_device found), w')"
    and "streams w' = streams w"
    by (auto simp: PlatformSerialPortDiscovery_ListPorts_def)
  moreover have "set (sort_key port_device found) = (if r = None then {}
      else port_info ''/dev'' ` set (filter is_port_name (names ''/dev'')))"
    by (auto simp: found_def)
  moreover have "distinct (map port_device (sort_key port_device found))"
    using dist by (metis distinct_map mset_sort set_sort mset_eq_imp_distinct_iff)
  then have "sorted_wrt (<) (map port_device (sort_key port_device found))"
    by (simp add: strict_sorted_iff)
  moreover have "ys = sort_key port_device found"
    if "mset ys = mset (sort_key port_device found)" "sorted (map port_device ys)" for ys
  proof -
    have "inj_on port_device (set_mset (mset found))" using dist by (simp add: distinct_map)
    then show ?thesis using that sort_key_inj_key_eq [of found ys port_device] by simp
  qed
  ultimately show ?thesis using op by auto
qed


lemma is_port_name_nonempty: "is_port_name name \<Longrightarrow> name \<noteq> ''''"
  by (auto simp: is_port_name_def HasPrefix_def)

interpretation posix_discovery: serial_port_discovery "PlatformSerialPortDiscovery_ListPorts dos"
    "\<lambda>_. dir_contract dos names pending streams \<and> distinct (names ''/dev'')"
  for dos :: "'w dirent_os" and names pending streams
proof unfold_locales
  fix s :: 'w and ports
  show "PlatformSerialPortDiscovery_ListPorts dos ports s = PlatformSerialPortDiscovery_ListPorts dos [] s"
    by (simp add: PlatformSerialPortDiscovery_ListPorts_def)
  assume inv: "dir_contract dos names pending streams \<and> distinct (names ''/dev'')"
  from ListPorts_result [OF conjunct1 [OF inv] conjunct2 [OF inv], of ports s] obtain found s1 where
    found: "PlatformSerialPortDiscovery_ListPorts dos ports s = Some ((Ok, found), s1)"
      "set found = (if fst (sys_opendir dos ''/dev'' s) = None then {}
        else port_info ''/dev'' ` set (filter is_port_name (names ''/dev'')))"
      "sorted_wrt (<) (map port_device found)" by blast
  then show "\<exists>ports' s'. PlatformSerialPortDiscovery_ListPorts dos ports s = Some ((Ok, ports'), s')" by blast
  fix st ports' s'
  assume "PlatformSerialPortDiscovery_ListPorts dos ports s = Some ((st, ports'), s')"
  with found(1) have "ports' = found" by simp
  moreover have "distinct (map port_device found)"
    using found(3) strict_sorted_iff [of "map port_device found"] by simp
  ultimately show "distinct (map port_device ports') \<and> (\<forall>p \<in> set ports'. port_device p \<noteq> [] \<and> port_displayName p \<noteq> [])"
    using found(2) by (auto simp: port_info_def is_port_name_nonempty)
qed




end
