(* ===== verification/Tls_Stream.thy ===== *)
theory Tls_Stream
  imports Tcp_Stream Fake_Transport
begin

text \<open>
  \<^verbatim>\<open>tls_stream_transport.hpp/.cpp\<close>: a stream over a lower stream and a TLS backend, both held by nullable
  pointers. The pointers are options of method tables; the objects they point to live in the
  state \<open>'s\<close> the tables act on. The component is a client of the stream interface: its lemmas are
  proved once in the locale \<open>byte_stream\<close>, for any lower stream that keeps the contract, and used
  for a lower TCP stream through that interpretation.
\<close>

section \<open>Backends\<close>

record TlsStreamTransportOptions =
  tls_serverName :: string
  tls_verifyPeer :: bool

definition TlsStreamTransportOptions_new :: TlsStreamTransportOptions where
  "TlsStreamTransportOptions_new = \<lparr>tls_serverName = '''', tls_verifyPeer = True\<rparr>"

record 's ITlsStreamBackend =
  bHandshake :: "'s IByteStream \<Rightarrow> TlsStreamTransportOptions \<Rightarrow> 's \<Rightarrow> TransportStatus \<times> 's"
  bClose :: "'s IByteStream \<Rightarrow> 's \<Rightarrow> TransportStatus \<times> 's"
  bReadSome :: "'s IByteStream \<Rightarrow> buffer \<Rightarrow> size_t \<Rightarrow> 's \<Rightarrow> read_result \<times> 's"
  bWriteAll :: "'s IByteStream \<Rightarrow> buffer \<Rightarrow> size_t \<Rightarrow> 's \<Rightarrow> (TransportStatus \<times> 's) option"

definition UnsupportedTlsStreamBackend_Handshake ::
  "'s IByteStream \<Rightarrow> TlsStreamTransportOptions \<Rightarrow> 's \<Rightarrow> TransportStatus \<times> 's" where
  "UnsupportedTlsStreamBackend_Handshake lower options s = (UnsupportedFeature, s)"

definition UnsupportedTlsStreamBackend_Close :: "'s IByteStream \<Rightarrow> 's \<Rightarrow> TransportStatus \<times> 's" where
  "UnsupportedTlsStreamBackend_Close lower s = vClose lower s"

definition UnsupportedTlsStreamBackend_ReadSome ::
  "'s IByteStream \<Rightarrow> buffer \<Rightarrow> size_t \<Rightarrow> 's \<Rightarrow> read_result \<times> 's" where
  "UnsupportedTlsStreamBackend_ReadSome lower output outputSize s = ((UnsupportedFeature, 0, output), s)"

definition UnsupportedTlsStreamBackend_WriteAll ::
  "'s IByteStream \<Rightarrow> buffer \<Rightarrow> size_t \<Rightarrow> 's \<Rightarrow> (TransportStatus \<times> 's) option" where
  "UnsupportedTlsStreamBackend_WriteAll lower input inputSize s = Some (UnsupportedFeature, s)"

definition UnsupportedTlsStreamBackend :: "'s ITlsStreamBackend" where
  "UnsupportedTlsStreamBackend =
     \<lparr>bHandshake = UnsupportedTlsStreamBackend_Handshake, bClose = UnsupportedTlsStreamBackend_Close,
      bReadSome = UnsupportedTlsStreamBackend_ReadSome, bWriteAll = UnsupportedTlsStreamBackend_WriteAll\<rparr>"

section \<open>The stream\<close>

record 's TlsStreamTransport =
  tls_lower :: "'s IByteStream option"
  tls_backend :: "'s ITlsStreamBackend option"
  tls_options :: TlsStreamTransportOptions
  tls_open :: bool

definition TlsStreamTransport_new ::
  "'s IByteStream option \<Rightarrow> 's ITlsStreamBackend option \<Rightarrow> TlsStreamTransportOptions \<Rightarrow> 's TlsStreamTransport" where
  "TlsStreamTransport_new lower backend options =
     \<lparr>tls_lower = lower, tls_backend = backend, tls_options = options, tls_open = False\<rparr>"

definition HasValidConfiguration :: "'s TlsStreamTransport \<Rightarrow> bool" where
  "HasValidConfiguration t =
     (if tls_lower t = None \<or> tls_backend t = None then False
      else if tls_verifyPeer (tls_options t) \<and> tls_serverName (tls_options t) = '''' then False
      else True)"

text \<open>
  Past \<open>HasValidConfiguration\<close> neither pointer is null; the null cases of the matches below are
  the calls through a null pointer that cannot happen there.
\<close>

definition TlsStreamTransport_Open ::
  "'s TlsStreamTransport \<Rightarrow> 's \<Rightarrow> TransportStatus \<times> 's TlsStreamTransport \<times> 's" where
  "TlsStreamTransport_Open t s =
     (if tls_open t then (AlreadyOpen, t, s)
      else if \<not> HasValidConfiguration t then (InvalidArgument, t, s)
      else (case (tls_lower t, tls_backend t) of
        (Some lower, Some backend) \<Rightarrow>
          (case vOpen lower s of
             (openStatus, s1) \<Rightarrow>
               (if openStatus \<noteq> Ok \<and> openStatus \<noteq> AlreadyOpen then (openStatus, t, s1)
                else (case bHandshake backend lower (tls_options t) s1 of
                  (handshakeStatus, s2) \<Rightarrow>
                    (if handshakeStatus \<noteq> Ok then (handshakeStatus, t, snd (vClose lower s2))
                     else (Ok, t\<lparr>tls_open := True\<rparr>, s2)))))
      | _ \<Rightarrow> (InvalidArgument, t, s)))"

definition TlsStreamTransport_Close ::
  "'s TlsStreamTransport \<Rightarrow> 's \<Rightarrow> TransportStatus \<times> 's TlsStreamTransport \<times> 's" where
  "TlsStreamTransport_Close t s =
     (if \<not> tls_open t then
        (case tls_lower t of
           None \<Rightarrow> (Ok, t, s)
         | Some lower \<Rightarrow> (Ok, t, snd (vClose lower s)))
      else
        (case (case (tls_backend t, tls_lower t) of
                 (Some backend, Some lower) \<Rightarrow> bClose backend lower s
               | _ \<Rightarrow> (Ok, s)) of
           (status, s1) \<Rightarrow>
             (case (case tls_lower t of
                      None \<Rightarrow> (status, s1)
                    | Some lower \<Rightarrow>
                        (case vClose lower s1 of
                           (lowerStatus, s2) \<Rightarrow> (if status = Ok then lowerStatus else status, s2))) of
                (status', s2) \<Rightarrow> (status', t\<lparr>tls_open := False\<rparr>, s2))))"

definition TlsStreamTransport_IsOpen :: "'s TlsStreamTransport \<Rightarrow> 's \<Rightarrow> bool" where
  "TlsStreamTransport_IsOpen t s \<longleftrightarrow>
     tls_open t \<and> (case tls_lower t of None \<Rightarrow> False | Some lower \<Rightarrow> vIsOpen lower s)"

definition TlsStreamTransport_ReadSome ::
  "buffer \<Rightarrow> size_t \<Rightarrow> 's TlsStreamTransport \<Rightarrow> 's \<Rightarrow> read_result \<times> 's TlsStreamTransport \<times> 's" where
  "TlsStreamTransport_ReadSome output outputSize t s =
     (if \<not> tls_open t then ((NotOpen, 0, output), t, s)
      else if output = None \<and> outputSize \<noteq> 0 then ((InvalidArgument, 0, output), t, s)
      else (case (tls_lower t, tls_backend t) of
        (Some lower, Some backend) \<Rightarrow>
          (case bReadSome backend lower output outputSize s of (r, s1) \<Rightarrow> (r, t, s1))
      | _ \<Rightarrow> ((NotOpen, 0, output), t, s)))"

definition TlsStreamTransport_WriteAll ::
  "buffer \<Rightarrow> size_t \<Rightarrow> 's TlsStreamTransport \<Rightarrow> 's \<Rightarrow> (TransportStatus \<times> 's TlsStreamTransport \<times> 's) option" where
  "TlsStreamTransport_WriteAll input inputSize t s =
     (if \<not> tls_open t then Some (NotOpen, t, s)
      else if input = None \<and> inputSize \<noteq> 0 then Some (InvalidArgument, t, s)
      else (case (tls_lower t, tls_backend t) of
        (Some lower, Some backend) \<Rightarrow>
          (case bWriteAll backend lower input inputSize s of
             None \<Rightarrow> None
           | Some (status, s1) \<Rightarrow> Some (status, t, s1))
      | _ \<Rightarrow> Some (NotOpen, t, s)))"

definition TlsStreamTransport_destroy :: "'s TlsStreamTransport \<Rightarrow> 's \<Rightarrow> 's" where
  "TlsStreamTransport_destroy t s = snd (snd (TlsStreamTransport_Close t s))"

definition TlsStreamTransport_methods :: "('s TlsStreamTransport \<times> 's) IByteStream" where
  "TlsStreamTransport_methods =
     \<lparr>vOpen = (\<lambda>(t, s). TlsStreamTransport_Open t s),
      vClose = (\<lambda>(t, s). TlsStreamTransport_Close t s),
      vIsOpen = (\<lambda>(t, s). TlsStreamTransport_IsOpen t s),
      vReadSome = (\<lambda>output outputSize (t, s). TlsStreamTransport_ReadSome output outputSize t s),
      vWriteAll = (\<lambda>input inputSize (t, s). TlsStreamTransport_WriteAll input inputSize t s)\<rparr>"

lemma TlsStreamTransport_methods_simps [simp]:
  "vOpen TlsStreamTransport_methods (t, s) = TlsStreamTransport_Open t s"
  "vClose TlsStreamTransport_methods (t, s) = TlsStreamTransport_Close t s"
  "vIsOpen TlsStreamTransport_methods (t, s) = TlsStreamTransport_IsOpen t s"
  "vReadSome TlsStreamTransport_methods output n (t, s) = TlsStreamTransport_ReadSome output n t s"
  "vWriteAll TlsStreamTransport_methods input n (t, s) = TlsStreamTransport_WriteAll input n t s"
  by (simp_all add: TlsStreamTransport_methods_def)

section \<open>Over any stream that keeps the contract\<close>

text \<open>
  What is relied on of a backend, whose code is not part of the repository apart from the
  unsupported one: it uses the lower stream through its methods, so it keeps the lower stream's invariant.
\<close>

definition backend_respects :: "'s ITlsStreamBackend \<Rightarrow> 's IByteStream \<Rightarrow> ('s \<Rightarrow> bool) \<Rightarrow> bool" where
  "backend_respects b lower invar \<longleftrightarrow>
     (\<forall>options s r s'. invar s \<longrightarrow> bHandshake b lower options s = (r, s') \<longrightarrow> invar s') \<and>
     (\<forall>s r s'. invar s \<longrightarrow> bClose b lower s = (r, s') \<longrightarrow> invar s') \<and>
     (\<forall>out n s r s'. invar s \<longrightarrow> bReadSome b lower out n s = (r, s') \<longrightarrow> invar s') \<and>
     (\<forall>inp n s r s'. invar s \<longrightarrow> bWriteAll b lower inp n s = Some (r, s') \<longrightarrow> invar s')"

lemma backend_respectsD:
  assumes "backend_respects b lower invar" and "invar s"
  shows "bHandshake b lower options s = (r, s') \<Longrightarrow> invar s'" "bClose b lower s = (r, s') \<Longrightarrow> invar s'"
    "bReadSome b lower out n s = (rr, s') \<Longrightarrow> invar s'" "bWriteAll b lower inp n s = Some (r, s') \<Longrightarrow> invar s'"
  using assms unfolding backend_respects_def by blast+

context byte_stream
begin

lemma unsupported_respects: "backend_respects UnsupportedTlsStreamBackend S invar"
  unfolding backend_respects_def
  by (auto simp: UnsupportedTlsStreamBackend_def UnsupportedTlsStreamBackend_Handshake_def
      UnsupportedTlsStreamBackend_Close_def UnsupportedTlsStreamBackend_ReadSome_def
      UnsupportedTlsStreamBackend_WriteAll_def dest: invar_close)

lemma lower_closed:
  assumes "invar s"
  shows "\<not> vIsOpen S (snd (vClose S s))" "invar (snd (vClose S s))" "fst (vClose S s) = Ok"
    "vClose S (snd (vClose S s)) = (Ok, snd (vClose S s))"
proof -
  obtain st s1 where c: "vClose S s = (st, s1)" by fastforce
  show "\<not> vIsOpen S (snd (vClose S s))" "fst (vClose S s) = Ok" using c close_result [OF assms c] by simp_all
  show "invar (snd (vClose S s))" using c invar_close [OF assms c] by simp
  show "vClose S (snd (vClose S s)) = (Ok, snd (vClose S s))" using c close_idempotent [OF assms c] by simp
qed

lemma tls_open_result:
  assumes "invar s" and "backend_respects b S invar" and "tls_lower t = Some S" and "tls_backend t = Some b"
    and "TlsStreamTransport_Open t s = (st, t', s')" and "\<not> tls_open t" and "HasValidConfiguration t"
  shows "invar s' \<and> (if st = Ok then t' = t\<lparr>tls_open := True\<rparr> else t' = t \<and> \<not> vIsOpen S s')"
proof -
  obtain o1 s1 where op: "vOpen S s = (o1, s1)" by fastforce
  obtain h s2 where hs: "bHandshake b S (tls_options t) s1 = (h, s2)" by fastforce
  have inv1: "invar s1" using invar_open [OF assms(1) op] .
  have inv2: "invar s2" using backend_respectsD(1) [OF assms(2) inv1 hs] .
  have eq: "TlsStreamTransport_Open t s =
      (if o1 \<noteq> Ok \<and> o1 \<noteq> AlreadyOpen then (o1, t, s1)
       else if h \<noteq> Ok then (h, t, snd (vClose S s2)) else (Ok, t\<lparr>tls_open := True\<rparr>, s2))"
    using assms(3,4,6,7) op hs by (simp add: TlsStreamTransport_Open_def)
  have "\<not> vIsOpen S s1" if "o1 \<noteq> Ok" "o1 \<noteq> AlreadyOpen"
    using that op open_again [OF assms(1)] open_result [OF assms(1) _ op] by (cases "vIsOpen S s") auto
  then show ?thesis
    using assms(5) eq inv1 inv2 lower_closed [OF inv2] by (auto split: if_splits)
qed

lemma tls_close_result:
  assumes "invar s" and "backend_respects b S invar" and "tls_lower t = Some S" and "tls_backend t = Some b"
    and "TlsStreamTransport_Close t s = (st, t', s')"
  shows "invar s' \<and> t' = t\<lparr>tls_open := False\<rparr> \<and> \<not> vIsOpen S s' \<and> TlsStreamTransport_Close t' s' = (Ok, t', s') \<and>
    (if tls_open t then st = fst (bClose b S s) else st = Ok)"
proof (cases "tls_open t")
  case False
  then have "t = t\<lparr>tls_open := False\<rparr>" by simp
  with False assms(3,5) lower_closed [OF assms(1)] show ?thesis
    by (auto simp: TlsStreamTransport_Close_def)
next
  case True
  obtain c s1 where cl: "bClose b S s = (c, s1)" by fastforce
  have inv1: "invar s1" using backend_respectsD(2) [OF assms(2,1) cl] .
  with True assms(3-5) cl lower_closed [OF inv1] show ?thesis
    by (auto simp: TlsStreamTransport_Close_def split: prod.splits)
qed

text \<open>Every call on the stream keeps the lower stream's invariant and the pointers.\<close>

lemma tls_step_invar:
  assumes "invar s" and "backend_respects b S invar" and "tls_lower t = Some S" and "tls_backend t = Some b"
    and "stream_step TlsStreamTransport_methods c (t, s) = Some (st, t', s')"
  shows "invar s' \<and> tls_lower t' = Some S \<and> tls_backend t' = Some b"
proof (cases c)
  case CallOpen
  then have op: "TlsStreamTransport_Open t s = (st, t', s')" using assms(5) by simp
  show ?thesis
  proof (cases "tls_open t \<or> \<not> HasValidConfiguration t")
    case True
    with op assms(1,3,4) show ?thesis by (auto simp: TlsStreamTransport_Open_def split: if_splits)
  next
    case False
    with tls_open_result [OF assms(1-4) op] assms(3,4) show ?thesis by (auto split: if_splits)
  qed
next
  case CallClose
  with assms(5) tls_close_result [OF assms(1-4)] assms(3,4) show ?thesis by auto
next
  case (CallReadSome out n)
  then obtain r where "TlsStreamTransport_ReadSome out n t s = (r, t', s')"
    using assms(5) by (auto split: prod.splits)
  with assms(1,3,4) backend_respectsD(3) [OF assms(2,1)] show ?thesis
    by (auto simp: TlsStreamTransport_ReadSome_def split: if_splits prod.splits)
next
  case (CallWriteAll inp n)
  with assms(1,3-5) backend_respectsD(4) [OF assms(2,1)] show ?thesis
    by (auto simp: TlsStreamTransport_WriteAll_def split: if_splits option.splits)
qed

lemma tls_run_invar:
  assumes "invar s" and "backend_respects b S invar" and "tls_lower t = Some S" and "tls_backend t = Some b"
    and "stream_run TlsStreamTransport_methods cs (t, s) = Some (log, t', s')"
  shows "invar s' \<and> tls_lower t' = Some S \<and> tls_backend t' = Some b"
  using assms(1,3-5)
proof (induction cs arbitrary: t s log)
  case (Cons c cs)
  from Cons.prems(4) obtain st ts1 log' where step: "stream_step TlsStreamTransport_methods c (t, s) = Some (st, ts1)"
    and run: "stream_run TlsStreamTransport_methods cs ts1 = Some (log', t', s')"
    by (rule stream_run_ConsE)
  obtain t1 s1 where ts1: "ts1 = (t1, s1)" by fastforce
  from tls_step_invar [OF Cons.prems(1) assms(2) Cons.prems(2,3) step [unfolded ts1]]
  show ?case using Cons.IH run ts1 by blast
qed simp

lemma tls_destroy_closes:
  assumes "invar s" and "backend_respects b S invar" and "tls_lower t = Some S" and "tls_backend t = Some b"
  shows "invar (TlsStreamTransport_destroy t s) \<and> \<not> vIsOpen S (TlsStreamTransport_destroy t s)"
proof -
  obtain st t' s' where close: "TlsStreamTransport_Close t s = (st, t', s')" using prod_cases3 by blast
  with tls_close_result [OF assms close] show ?thesis by (simp add: TlsStreamTransport_destroy_def)
qed

end

section \<open>Over a TCP stream\<close>

text \<open>
  C28. A TLS Open that fails leaves nothing open: over a TCP stream and with any backend that uses it
  through its methods, Open of a closed and well-configured TLS stream that returns anything but Ok leaves
  the TLS stream as it was, the TCP stream closed, and the process with the descriptors
  it had without it, whether the connect failed or the handshake did, and also when the TCP stream had
  been open before the call.
\<close>

theorem tls_open_failure_closes_tcp:
  assumes "TlsStreamTransport_Open t (tcp, w) = (st, t', tcp', w')"
    and "tls_lower t = Some (TcpStreamTransport_methods os)" and "tls_backend t = Some backend"
    and "backend_respects backend (TcpStreamTransport_methods os) (tcp_invar os fds base)"
    and "tcp_invar os fds base (tcp, w)" and "\<not> tls_open t" and "HasValidConfiguration t" and "st \<noteq> Ok"
  shows "t' = t \<and> \<not> TcpStreamTransport_IsOpen tcp' \<and> tcp_socket tcp' = kInvalidSocket \<and> fds w' = base"
proof -
  have "tcp_invar os fds base (tcp', w') \<and> t' = t \<and> \<not> TcpStreamTransport_IsOpen tcp'"
    using tcp.tls_open_result [OF assms(5,4,2,3,1,6,7)] assms(8) by simp
  then show ?thesis by (auto simp: tcp_invar_def tcp_owns_def TcpStreamTransport_IsOpen_def)
qed

definition sim_tls :: "(TcpStreamTransport \<times> sim) TlsStreamTransport" where
  "sim_tls = TlsStreamTransport_new (Some (TcpStreamTransport_methods sim_os)) (Some UnsupportedTlsStreamBackend)
     \<lparr>tls_serverName = ''meter'', tls_verifyPeer = True\<rparr>"

lemma sim_tls_open:
  "TlsStreamTransport_Open sim_tls (TcpStreamTransport_new sim_tcp_options, sim_init) =
     (UnsupportedFeature, sim_tls, TcpStreamTransport_new sim_tcp_options, sim_init)"
  by (simp add: TlsStreamTransport_Open_def HasValidConfiguration_def sim_tls_def TlsStreamTransport_new_def
      UnsupportedTlsStreamBackend_def UnsupportedTlsStreamBackend_Handshake_def tcp_eval)

lemma sim_tls_pointers:
  "tls_lower sim_tls = Some (TcpStreamTransport_methods sim_os)"
  "tls_backend sim_tls = Some UnsupportedTlsStreamBackend" "\<not> tls_open sim_tls" "HasValidConfiguration sim_tls"
  by (simp_all add: sim_tls_def TlsStreamTransport_new_def HasValidConfiguration_def)

lemma sim_tcp_fresh: "tcp_invar sim_os sim_fd_set (sim_fd_set sim_init) (TcpStreamTransport_new sim_tcp_options, sim_init)"
  by (rule tcp_new_invar [OF sim_fd_contract sim_recv_contract])

theorem tls_open_failure_closes_tcp_witness:
  "\<not> TcpStreamTransport_IsOpen (TcpStreamTransport_new sim_tcp_options)"
  using tls_open_failure_closes_tcp [OF sim_tls_open sim_tls_pointers(1,2) tcp.unsupported_respects
      sim_tcp_fresh sim_tls_pointers(3,4)] by simp

text \<open>
  C29. Any session on a TLS stream over a fresh TCP stream, with any backend that uses the TCP stream
  through its methods, ends without a leak: after the TLS stream's destructor the TCP stream is closed and
  the process holds the descriptors it held at the start. Close closes both layers and a second
  Close changes nothing and returns Ok; the first returns the backend's own status when the stream was open.
\<close>

theorem tls_session_no_leak:
  assumes "stream_run TlsStreamTransport_methods calls
      (TlsStreamTransport_new (Some (TcpStreamTransport_methods os)) (Some backend) options,
       TcpStreamTransport_new tcp_opts, w) = Some (log, t, tcp, w')"
    and "backend_respects backend (TcpStreamTransport_methods os) (tcp_invar os fds (fds w))"
    and "fd_contract os fds" and "recv_contract os"
    and "TlsStreamTransport_Close t (tcp, w') = (st, t2, tcp2, w2)"
  shows "\<not> TlsStreamTransport_IsOpen t2 (tcp2, w2) \<and> \<not> TcpStreamTransport_IsOpen tcp2 \<and> fds w2 = fds w \<and>
    TlsStreamTransport_Close t2 (tcp2, w2) = (Ok, t2, tcp2, w2) \<and>
    st = (if tls_open t then fst (bClose backend (TcpStreamTransport_methods os) (tcp, w')) else Ok) \<and>
    TlsStreamTransport_destroy t (tcp, w') = (tcp2, w2)"
proof -
  let ?tls = "TlsStreamTransport_new (Some (TcpStreamTransport_methods os)) (Some backend) options"
  note init = tcp_new_invar [OF assms(3,4), of w tcp_opts]
  have "tls_lower ?tls = Some (TcpStreamTransport_methods os)" "tls_backend ?tls = Some backend"
    by (simp_all add: TlsStreamTransport_new_def)
  from tcp.tls_run_invar [OF init assms(2) this assms(1)]
  have inv: "tcp_invar os fds (fds w) (tcp, w')" and ptrs: "tls_lower t = Some (TcpStreamTransport_methods os)"
    "tls_backend t = Some backend" by simp_all
  from tcp.tls_close_result [OF inv assms(2) ptrs assms(5), unfolded TcpStreamTransport_methods_simps]
  have "tcp_invar os fds (fds w) (tcp2, w2)" and "\<not> TcpStreamTransport_IsOpen tcp2"
    and "TlsStreamTransport_Close t2 (tcp2, w2) = (Ok, t2, tcp2, w2)" and "t2 = t\<lparr>tls_open := False\<rparr>"
    and "if tls_open t then st = fst (bClose backend (TcpStreamTransport_methods os) (tcp, w')) else st = Ok"
    by blast+
  then show ?thesis
    using assms(5) by (auto simp: tcp_invar_def tcp_owns_def TcpStreamTransport_IsOpen_def
        TlsStreamTransport_IsOpen_def TlsStreamTransport_destroy_def split: if_splits)
qed

text \<open>A backend that passes everything through: the session opens, reads a byte and is still open when it ends.\<close>

definition null_backend :: "'s ITlsStreamBackend" where
  "null_backend = \<lparr>bHandshake = (\<lambda>lower options s. (Ok, s)), bClose = (\<lambda>lower s. (Ok, s)),
     bReadSome = vReadSome, bWriteAll = vWriteAll\<rparr>"

lemma null_backend_respects:
  "backend_respects null_backend (TcpStreamTransport_methods os) (tcp_invar os fds base)"
  unfolding backend_respects_def null_backend_def
  using tcp.invar_read tcp.invar_write by fastforce

definition sim_tls_null :: "(TcpStreamTransport \<times> sim) TlsStreamTransport" where
  "sim_tls_null = \<lparr>tls_lower = Some (TcpStreamTransport_methods sim_os), tls_backend = Some null_backend,
     tls_options = \<lparr>tls_serverName = ''meter'', tls_verifyPeer = True\<rparr>, tls_open = True\<rparr>"

lemma sim_tls_session:
  "stream_run TlsStreamTransport_methods [CallOpen, CallReadSome (Some [0]) 1]
     (TlsStreamTransport_new (Some (TcpStreamTransport_methods sim_os)) (Some null_backend)
        \<lparr>tls_serverName = ''meter'', tls_verifyPeer = True\<rparr>, TcpStreamTransport_new sim_tcp_options,
      sim_init\<lparr>sim_in := [[5]]\<rparr>) =
   Some ([(CallOpen, Ok), (CallReadSome (Some [0]) 1, Ok)], sim_tls_null, sim_tcp, sim_init\<lparr>sim_fds := [3, 0, 1, 2]\<rparr>)"
  by (simp add: TlsStreamTransport_methods_def TlsStreamTransport_Open_def TlsStreamTransport_ReadSome_def
      HasValidConfiguration_def TlsStreamTransport_new_def sim_tls_null_def null_backend_def TcpStreamTransport_ReadSome_def
      sim_tcp_def tcp_eval size_to_int_small int_to_size_uint ssize_to_int_small int_to_size_def)

lemma sim_tls_close:
  "TlsStreamTransport_Close sim_tls_null (sim_tcp, sim_init\<lparr>sim_fds := [3, 0, 1, 2]\<rparr>) =
     (Ok, sim_tls_null\<lparr>tls_open := False\<rparr>, sim_tcp\<lparr>tcp_socket := -1, tcp_open := False\<rparr>, sim_init)"
  by (simp add: TlsStreamTransport_Close_def sim_tls_null_def null_backend_def sim_tcp_def tcp_eval)

theorem tls_session_no_leak_witness:
  "sim_fd_set sim_init = sim_fd_set (sim_init\<lparr>sim_in := [[5]]\<rparr>) \<and>
   TlsStreamTransport_destroy sim_tls_null (sim_tcp, sim_init\<lparr>sim_fds := [3, 0, 1, 2]\<rparr>) =
     (sim_tcp\<lparr>tcp_socket := -1, tcp_open := False\<rparr>, sim_init)"
  using tls_session_no_leak [OF sim_tls_session null_backend_respects sim_fd_contract sim_recv_contract
      sim_tls_close] by blast

section \<open>When the lower stream is gone\<close>

text \<open>
  C39. A TLS stream whose lower stream was closed underneath it (a TCP stream closes itself at the
  end of the connection) is not open, yet it refuses Open with AlreadyOpen and passes reads and
  writes to the backend instead of reporting NotOpen; only a Close makes it usable again.
\<close>

theorem tls_stale_after_lower_close:
  assumes "tls_open t" and "tls_lower t = Some lower" and "tls_backend t = Some backend" and "\<not> vIsOpen lower s"
  shows "\<not> TlsStreamTransport_IsOpen t s \<and> TlsStreamTransport_Open t s = (AlreadyOpen, t, s) \<and>
    TlsStreamTransport_ReadSome (Some buf) n t s =
      (case bReadSome backend lower (Some buf) n s of (r, s') \<Rightarrow> (r, t, s')) \<and>
    TlsStreamTransport_WriteAll (Some inp) m t s =
      (case bWriteAll backend lower (Some inp) m s of None \<Rightarrow> None | Some (st, s') \<Rightarrow> Some (st, t, s'))"
  using assms by (simp add: TlsStreamTransport_IsOpen_def TlsStreamTransport_Open_def
      TlsStreamTransport_ReadSome_def TlsStreamTransport_WriteAll_def)

text \<open>A TCP stream that met the end of its connection under the backend that passes everything through.\<close>

lemma sim_tls_eof:
  "TlsStreamTransport_ReadSome (Some [0]) 1 sim_tls_null (sim_tcp, sim_init\<lparr>sim_fds := [3, 0, 1, 2]\<rparr>) =
     ((ConnectionClosed, 0, Some [0]), sim_tls_null, sim_tcp\<lparr>tcp_socket := kInvalidSocket, tcp_open := False\<rparr>, sim_init)"
  by (simp add: TlsStreamTransport_ReadSome_def sim_tls_null_def null_backend_def TcpStreamTransport_ReadSome_def
      sim_tcp_def tcp_eval size_to_int_small int_to_size_uint ssize_to_int_small)

theorem tls_stale_after_lower_close_witness:
  "TlsStreamTransport_Open sim_tls_null (snd (snd (TlsStreamTransport_ReadSome (Some [0]) 1 sim_tls_null
       (sim_tcp, sim_init\<lparr>sim_fds := [3, 0, 1, 2]\<rparr>)))) =
     (AlreadyOpen, sim_tls_null, sim_tcp\<lparr>tcp_socket := kInvalidSocket, tcp_open := False\<rparr>, sim_init)"
  unfolding sim_tls_eof
  using tls_stale_after_lower_close [of sim_tls_null "TcpStreamTransport_methods sim_os" null_backend
      "(sim_tcp\<lparr>tcp_socket := kInvalidSocket, tcp_open := False\<rparr>, sim_init)"]
  by (simp add: sim_tls_null_def TcpStreamTransport_IsOpen_def)

end
