(* ===== verification/Event_Loop.thy ===== *)
theory Event_Loop
  imports Transport_Interfaces
begin

text \<open>
  \<^verbatim>\<open>transport_event_loop.hpp\<close>: the manually driven event loop. \<^verbatim>\<open>std::map<int, Registration>\<close> is a list of pairs
  ordered by key. A callback (\<open>'c\<close>, a \<^verbatim>\<open>std::function\<close>; empty is \<open>None\<close>) is run by the parameter \<open>invoke\<close>, which
  may change the loop, since a callback may call back into it, and the world \<open>'w\<close> outside.

  Theorems: tokens are fresh and never reused, the registrations stay ordered whatever callbacks do,
  one dispatch runs each ready callback once in token order, timers fire once, and a callback that was
  unregistered before its turn does not run.
\<close>

unbundle bit_operations_syntax

section \<open>Ordered maps\<close>

fun map_put :: "int \<Rightarrow> 'v \<Rightarrow> (int \<times> 'v) list \<Rightarrow> (int \<times> 'v) list" where
  "map_put k v [] = [(k, v)]"
| "map_put k v ((k', v') # xs) =
     (if k < k' then (k, v) # (k', v') # xs
      else if k = k' then (k, v) # xs
      else (k', v') # map_put k v xs)"

definition map_erase :: "int \<Rightarrow> (int \<times> 'v) list \<Rightarrow> (int \<times> 'v) list" where
  "map_erase k xs = filter (\<lambda>(k', _). k' \<noteq> k) xs"

abbreviation ordered_keys :: "(int \<times> 'v) list \<Rightarrow> bool" where
  "ordered_keys xs \<equiv> sorted_wrt (<) (map fst xs)"

lemma map_put_keys: "fst ` set (map_put k v xs) = insert k (fst ` set xs)"
  by (induction k v xs rule: map_put.induct) (simp_all add: insert_commute)

lemma map_put_ordered: "ordered_keys xs \<Longrightarrow> ordered_keys (map_put k v xs)"
proof (induction xs)
  case (Cons x xs)
  obtain k' v' where x: "x = (k', v')" by fastforce
  have keys: "set (map fst (map_put k v xs)) = insert k (fst ` set xs)"
    using map_put_keys [of k v xs] by simp
  from Cons show ?case by (auto simp: x keys [simplified] dest: bspec)
qed simp

lemma map_of_put [simp]: "ordered_keys xs \<Longrightarrow> map_of (map_put k v xs) = (map_of xs)(k \<mapsto> v)"
  by (induction xs) (auto simp: fun_upd_twist fun_eq_iff)

lemma map_of_erase [simp]: "map_of (map_erase k xs) = (map_of xs)(k := None)"
  by (induction xs) (auto simp: map_erase_def fun_eq_iff)

lemma map_erase_ordered: "ordered_keys xs \<Longrightarrow> ordered_keys (map_erase k xs)"
  unfolding map_erase_def by (induction xs) auto

lemma map_erase_twice [simp]: "map_erase k (map_erase k xs) = map_erase k xs"
  by (simp add: map_erase_def)

lemma map_erase_keys: "fst ` set (map_erase k xs) = fst ` set xs - {k}"
  unfolding map_erase_def by auto

lemma ordered_keys_distinct: "ordered_keys xs \<Longrightarrow> distinct (map fst xs)"
  by (induction xs) auto

section \<open>The loop\<close>

definition TransportEventNone :: int where "TransportEventNone = 0"
definition TransportEventReadable :: int where "TransportEventReadable = 1"
definition TransportEventWritable :: int where "TransportEventWritable = 2"
definition TransportEventTimer :: int where "TransportEventTimer = 4"

record TransportEvent =
  ev_token :: int
  ev_handle :: int
  ev_events :: int

record 'c Registration =
  reg_handle :: int
  reg_events :: int
  reg_callback :: 'c
  reg_readyEvents :: int
  reg_timerDelay :: TransportDuration
  reg_timer :: bool

record 'c ManualTransportEventLoop =
  el_nextToken :: int
  el_registrations :: "(int \<times> 'c Registration) list"

definition ManualTransportEventLoop_new :: "'c ManualTransportEventLoop" where
  "ManualTransportEventLoop_new = \<lparr>el_nextToken = 1, el_registrations = []\<rparr>"

text \<open>
  \<^verbatim>\<open>nextToken_++\<close> on a 32-bit int. Its overflow is undefined in C++; the wrap-around of common
  compilers stands here, and the theorems exclude it by a bound on the counter.
\<close>

definition int_increment :: "int \<Rightarrow> int" where
  "int_increment i = sint (word_of_int (i + 1) :: 32 word)"

definition ManualTransportEventLoop_Register ::
  "int \<Rightarrow> int \<Rightarrow> 'c option \<Rightarrow> 'c ManualTransportEventLoop \<Rightarrow>
   (TransportStatus \<times> int) \<times> 'c ManualTransportEventLoop" where
  "ManualTransportEventLoop_Register handle events callback l =
     (case callback of
        None \<Rightarrow> ((InvalidArgument, 0), l)
      | Some cb \<Rightarrow>
          (if events = TransportEventNone then ((InvalidArgument, 0), l)
           else
             (let registration = \<lparr>reg_handle = handle, reg_events = events, reg_callback = cb,
                    reg_readyEvents = TransportEventNone, reg_timerDelay = \<lparr>milliseconds = 0\<rparr>,
                    reg_timer = False\<rparr>;
                  token = el_nextToken l
              in ((Ok, token), l\<lparr>el_nextToken := int_increment token,
                     el_registrations := map_put token registration (el_registrations l)\<rparr>))))"

definition ManualTransportEventLoop_RegisterTimer ::
  "TransportDuration \<Rightarrow> 'c option \<Rightarrow> 'c ManualTransportEventLoop \<Rightarrow>
   (TransportStatus \<times> int) \<times> 'c ManualTransportEventLoop" where
  "ManualTransportEventLoop_RegisterTimer delay callback l =
     (case callback of
        None \<Rightarrow> ((InvalidArgument, 0), l)
      | Some cb \<Rightarrow>
          (let registration = \<lparr>reg_handle = 0, reg_events = TransportEventTimer, reg_callback = cb,
                 reg_readyEvents = TransportEventTimer, reg_timerDelay = delay, reg_timer = True\<rparr>;
               token = el_nextToken l
           in ((Ok, token), l\<lparr>el_nextToken := int_increment token,
                  el_registrations := map_put token registration (el_registrations l)\<rparr>)))"

definition ManualTransportEventLoop_Unregister ::
  "int \<Rightarrow> 'c ManualTransportEventLoop \<Rightarrow> TransportStatus \<times> 'c ManualTransportEventLoop" where
  "ManualTransportEventLoop_Unregister token l =
     (Ok, l\<lparr>el_registrations := map_erase token (el_registrations l)\<rparr>)"

text \<open>The first loop of DispatchOnce: the events that are ready, and the registrations with their timers disarmed.\<close>

fun collect_events :: "(int \<times> 'c Registration) list \<Rightarrow> TransportEvent list \<times> (int \<times> 'c Registration) list" where
  "collect_events [] = ([], [])"
| "collect_events ((token, r) # rest) =
     (case collect_events rest of
        (events, rest') \<Rightarrow>
          (let ready = reg_readyEvents r AND reg_events r
           in if ready = TransportEventNone then (events, (token, r) # rest')
              else (\<lparr>ev_token = token, ev_handle = reg_handle r, ev_events = ready\<rparr> # events,
                    (token, if reg_timer r then r\<lparr>reg_readyEvents := TransportEventNone\<rparr> else r) # rest')))"

text \<open>The second loop: every event whose registration still exists runs its callback.\<close>

fun dispatch_events ::
  "('c \<Rightarrow> TransportEvent \<Rightarrow> 'c ManualTransportEventLoop \<times> 'w \<Rightarrow> 'c ManualTransportEventLoop \<times> 'w) \<Rightarrow>
   TransportEvent list \<Rightarrow> 'c ManualTransportEventLoop \<times> 'w \<Rightarrow> 'c ManualTransportEventLoop \<times> 'w" where
  "dispatch_events invoke [] lw = lw"
| "dispatch_events invoke (event # events) lw =
     (case map_of (el_registrations (fst lw)) (ev_token event) of
        None \<Rightarrow> dispatch_events invoke events lw
      | Some registration \<Rightarrow> dispatch_events invoke events (invoke (reg_callback registration) event lw))"

definition ManualTransportEventLoop_DispatchOnce ::
  "('c \<Rightarrow> TransportEvent \<Rightarrow> 'c ManualTransportEventLoop \<times> 'w \<Rightarrow> 'c ManualTransportEventLoop \<times> 'w) \<Rightarrow>
   'c ManualTransportEventLoop \<times> 'w \<Rightarrow> TransportStatus \<times> 'c ManualTransportEventLoop \<times> 'w" where
  "ManualTransportEventLoop_DispatchOnce invoke lw =
     (case lw of (l, w) \<Rightarrow>
        (case collect_events (el_registrations l) of
           (events, registrations) \<Rightarrow>
             (if events = [] then WouldBlock else Ok,
              dispatch_events invoke events (l\<lparr>el_registrations := registrations\<rparr>, w))))"

definition ManualTransportEventLoop_SetReady ::
  "int \<Rightarrow> int \<Rightarrow> 'c ManualTransportEventLoop \<Rightarrow> TransportStatus \<times> 'c ManualTransportEventLoop" where
  "ManualTransportEventLoop_SetReady token events l =
     (case map_of (el_registrations l) token of
        None \<Rightarrow> (NotOpen, l)
      | Some registration \<Rightarrow>
          (Ok, l\<lparr>el_registrations :=
                   map_put token (registration\<lparr>reg_readyEvents := events\<rparr>) (el_registrations l)\<rparr>))"

section \<open>The interface\<close>

text \<open>
  \<^verbatim>\<open>ITransportEventLoop\<close> and what its clients rely on: \<open>live\<close> is the table of registrations, \<open>room\<close> how many tokens
  the counter can still hand out. A dispatch may run callbacks that change the table, so nothing is promised of it but the
  status and the invariant.
\<close>

record ('s, 'c) ITransportEventLoop =
  eRegister :: "int \<Rightarrow> int \<Rightarrow> 'c option \<Rightarrow> 's \<Rightarrow> (TransportStatus \<times> int) \<times> 's"
  eRegisterTimer :: "TransportDuration \<Rightarrow> 'c option \<Rightarrow> 's \<Rightarrow> (TransportStatus \<times> int) \<times> 's"
  eUnregister :: "int \<Rightarrow> 's \<Rightarrow> TransportStatus \<times> 's"
  eDispatchOnce :: "'s \<Rightarrow> TransportStatus \<times> 's"

definition registers :: "('s \<Rightarrow> int \<rightharpoonup> 'r) \<Rightarrow> 's \<Rightarrow> (TransportStatus \<times> int) \<times> 's \<Rightarrow> bool" where
  "registers live s res \<longleftrightarrow>
     (case res of ((st, token), s') \<Rightarrow> st = Ok \<and> live s token = None \<and> (\<exists>reg. live s' = (live s)(token \<mapsto> reg)))"

locale event_loop =
  fixes S :: "('s, 'c) ITransportEventLoop" and invar :: "'s \<Rightarrow> bool" and live :: "'s \<Rightarrow> int \<rightharpoonup> 'r" and room :: "'s \<Rightarrow> nat"
  assumes register_refused:
      "callback = None \<or> events = TransportEventNone \<Longrightarrow> eRegister S handle events callback s = ((InvalidArgument, 0), s)"
    and register: "invar s \<Longrightarrow> 0 < room s \<Longrightarrow> events \<noteq> TransportEventNone \<Longrightarrow>
      registers live s (eRegister S handle events (Some cb) s)"
    and register_timer: "invar s \<Longrightarrow> 0 < room s \<Longrightarrow> registers live s (eRegisterTimer S delay (Some cb) s)"
    and invar_register: "invar s \<Longrightarrow> 0 < room s \<Longrightarrow> eRegister S handle events callback s = (r, s') \<Longrightarrow>
      invar s' \<and> room s \<le> Suc (room s')"
    and invar_register_timer: "invar s \<Longrightarrow> 0 < room s \<Longrightarrow> eRegisterTimer S delay callback s = (r, s') \<Longrightarrow>
      invar s' \<and> room s \<le> Suc (room s')"
    and unregister: "invar s \<Longrightarrow> eUnregister S token s = (st, s') \<Longrightarrow>
      invar s' \<and> st = Ok \<and> live s' = (live s)(token := None) \<and> room s' = room s"
    and dispatch: "invar s \<Longrightarrow> eDispatchOnce S s = (st, s') \<Longrightarrow> invar s' \<and> st \<in> {Ok, WouldBlock}"

text \<open>
  A client that registers a list of handlers (the handle with its events, or a timer with its delay) and later
  removes tokens one after the other.
\<close>

fun register_one :: "('s, 'c) ITransportEventLoop \<Rightarrow> (int \<times> int + TransportDuration) \<times> 'c \<Rightarrow> 's \<Rightarrow> (TransportStatus \<times> int) \<times> 's" where
  "register_one S (Inl (handle, events), cb) s = eRegister S handle events (Some cb) s"
| "register_one S (Inr delay, cb) s = eRegisterTimer S delay (Some cb) s"

fun register_all ::
  "('s, 'c) ITransportEventLoop \<Rightarrow> ((int \<times> int + TransportDuration) \<times> 'c) list \<Rightarrow> 's \<Rightarrow> int list \<times> 's" where
  "register_all S [] s = ([], s)"
| "register_all S (h # hs) s =
     (case register_one S h s of ((_, token), s1) \<Rightarrow>
        (case register_all S hs s1 of (tokens, s2) \<Rightarrow> (token # tokens, s2)))"

fun unregister_all :: "('s, 'c) ITransportEventLoop \<Rightarrow> int list \<Rightarrow> 's \<Rightarrow> 's" where
  "unregister_all S [] s = s"
| "unregister_all S (token # tokens) s = unregister_all S tokens (snd (eUnregister S token s))"

definition asks_events :: "(int \<times> int + TransportDuration) \<times> 'c \<Rightarrow> bool" where
  "asks_events h \<longleftrightarrow> (case fst h of Inl (_, events) \<Rightarrow> events \<noteq> TransportEventNone | Inr _ \<Rightarrow> True)"

context event_loop
begin

lemma register_one:
  assumes "invar s" and "0 < room s" and "asks_events h" and "register_one S h s = ((st, token), s')"
  shows "invar s' \<and> room s \<le> Suc (room s') \<and> live s token = None \<and> (\<exists>reg. live s' = (live s)(token \<mapsto> reg))"
proof (cases "(S, h, s)" rule: register_one.cases)
  case (1 S' handle events cb s')
  then show ?thesis
    using assms register [OF assms(1,2), of events handle cb] invar_register [OF assms(1,2)]
    by (fastforce simp: asks_events_def registers_def)
next
  case (2 S' delay cb s')
  then show ?thesis
    using assms register_timer [OF assms(1,2), of delay cb] invar_register_timer [OF assms(1,2)]
    by (fastforce simp: registers_def)
qed

lemma register_all:
  assumes "invar s" and "length hs \<le> room s" and "\<forall>h \<in> set hs. asks_events h"
    and "register_all S hs s = (tokens, s')"
  shows "invar s' \<and> distinct tokens \<and> length tokens = length hs \<and> set tokens \<inter> dom (live s) = {} \<and>
    dom (live s') = dom (live s) \<union> set tokens \<and> (\<forall>t. t \<notin> set tokens \<longrightarrow> live s' t = live s t)"
  using assms
proof (induction hs arbitrary: s tokens)
  case (Cons h hs)
  obtain st token s1 where one: "register_one S h s = ((st, token), s1)" by (metis prod.exhaust)
  obtain ts where all: "register_all S hs s1 = (ts, s')" and tokens: "tokens = token # ts"
    using Cons.prems(4) one by (auto split: prod.splits)
  have "0 < room s" "asks_events h" using Cons.prems(2,3) by auto
  from register_one [OF Cons.prems(1) this one] obtain reg where
    s1: "invar s1" "room s \<le> Suc (room s1)" "live s token = None" "live s1 = (live s)(token \<mapsto> reg)" by blast
  have "length hs \<le> room s1" "\<forall>h \<in> set hs. asks_events h" using Cons.prems(2,3) s1(2) by auto
  note IH = Cons.IH [OF s1(1) this all]
  then show ?case using s1(3) unfolding s1(4) tokens by (auto simp: domIff)
qed simp

lemma unregister_all:
  "invar s \<Longrightarrow> invar (unregister_all S ts s) \<and> live (unregister_all S ts s) = (live s) |` (- set ts)"
proof (induction ts arbitrary: s)
  case (Cons t ts)
  obtain st s1 where un: "eUnregister S t s = (st, s1)" by fastforce
  from unregister [OF Cons.prems un] Cons.IH [of s1] un show ?case
    by (auto simp: restrict_map_def fun_eq_iff)
qed (simp add: restrict_map_def)

lemma register_unregister_all:
  assumes "invar s" and "length hs \<le> room s" and "\<forall>h \<in> set hs. asks_events h"
    and "register_all S hs s = (tokens, s')" and "set order = set tokens"
  shows "distinct tokens \<and> set tokens \<inter> dom (live s) = {} \<and> dom (live s') = dom (live s) \<union> set tokens \<and>
    live (unregister_all S order s') = live s"
proof -
  note R = register_all [OF assms(1-4)]
  have "live (unregister_all S order s') = live s' |` (- set tokens)" using unregister_all R assms(5) by simp
  also have "\<dots> = live s"
  proof
    fix t
    show "(live s' |` (- set tokens)) t = live s t"
      using R by (cases "t \<in> set tokens") (auto simp: disjoint_iff domIff)
  qed
  finally show ?thesis using R by simp
qed

end

section \<open>What one dispatch does\<close>

definition is_ready :: "int \<times> 'c Registration \<Rightarrow> bool" where
  "is_ready p \<longleftrightarrow> reg_readyEvents (snd p) AND reg_events (snd p) \<noteq> 0"

definition event_of :: "int \<times> 'c Registration \<Rightarrow> TransportEvent" where
  "event_of p = \<lparr>ev_token = fst p, ev_handle = reg_handle (snd p),
     ev_events = reg_readyEvents (snd p) AND reg_events (snd p)\<rparr>"

definition disarm :: "int \<times> 'c Registration \<Rightarrow> int \<times> 'c Registration" where
  "disarm p = (if is_ready p \<and> reg_timer (snd p) then (fst p, (snd p)\<lparr>reg_readyEvents := 0\<rparr>) else p)"

lemma collect_events_eq:
  "collect_events rs = (map event_of (filter is_ready rs), map disarm rs)"
  by (induction rs) (auto simp: is_ready_def event_of_def disarm_def TransportEventNone_def Let_def)

lemma disarm_simps [simp]: "fst (disarm p) = fst p" "reg_callback (snd (disarm p)) = reg_callback (snd p)"
  by (simp_all add: disarm_def)

lemma disarm_keys [simp]: "map fst (map disarm rs) = map fst rs"
  by simp

lemma map_of_disarm:
  "ordered_keys rs \<Longrightarrow> p \<in> set rs \<Longrightarrow> map_of (map disarm rs) (fst p) = Some (snd (disarm p))"
proof -
  assume "ordered_keys rs" "p \<in> set rs"
  then have "distinct (map fst (map disarm rs))" "disarm p \<in> set (map disarm rs)"
    by (simp_all only: disarm_keys ordered_keys_distinct set_map imageI)
  then show ?thesis by (metis disarm_simps(1) map_of_is_SomeI prod.collapse)
qed

lemma dispatch_ready_eq:
  assumes "ordered_keys (el_registrations l)"
    and "\<And>cb e l w. invoke cb e (l, w) = (l, effect cb e w)"
  shows "ManualTransportEventLoop_DispatchOnce invoke (l, w) =
    (if filter is_ready (el_registrations l) = [] then WouldBlock else Ok,
     l\<lparr>el_registrations := map disarm (el_registrations l)\<rparr>,
     fold (\<lambda>p. effect (reg_callback (snd p)) (event_of p)) (filter is_ready (el_registrations l)) w)"
proof -
  let ?l = "l\<lparr>el_registrations := map disarm (el_registrations l)\<rparr>"
  have "dispatch_events invoke (map event_of ps) (?l, w) =
      (?l, fold (\<lambda>p. effect (reg_callback (snd p)) (event_of p)) ps w)"
    if "set ps \<subseteq> set (el_registrations l)" for ps
    using that
  proof (induction ps arbitrary: w)
    case (Cons p ps)
    then have "map_of (map disarm (el_registrations l)) (fst p) = Some (snd (disarm p))"
      using map_of_disarm [OF assms(1)] by simp
    with Cons show ?case by (simp add: assms(2) event_of_def)
  qed simp
  from this [of "filter is_ready (el_registrations l)"] show ?thesis
    by (simp add: ManualTransportEventLoop_DispatchOnce_def collect_events_eq)
qed

text \<open>
  C32. One dispatch runs the ready callbacks, each exactly once, in the order of their tokens, with
  the token, the handle and exactly the events that are both ready and asked for; no other callback
  runs. Ready timers are disarmed before any callback runs, everything else stays registered as it was.
  The status is Ok when something ran and WouldBlock otherwise. (For callbacks that do not
  change the loop themselves.)
\<close>

theorem dispatch_runs_ready_once:
  assumes "ordered_keys (el_registrations l)"
    and "\<And>cb e l w. invoke cb e (l, w) = (l, effect cb e w)"
  shows "ManualTransportEventLoop_DispatchOnce invoke (l, w) =
    (if filter is_ready (el_registrations l) = [] then WouldBlock else Ok,
     l\<lparr>el_registrations := map disarm (el_registrations l)\<rparr>,
     fold (\<lambda>p. effect (reg_callback (snd p)) (event_of p)) (filter is_ready (el_registrations l)) w)"
  by (rule dispatch_ready_eq [OF assms])

definition log_effect :: "string \<Rightarrow> TransportEvent \<Rightarrow> (string \<times> TransportEvent) list \<Rightarrow> (string \<times> TransportEvent) list" where
  "log_effect cb e w = w @ [(cb, e)]"

definition sim_loop :: "string ManualTransportEventLoop" where
  "sim_loop = snd (ManualTransportEventLoop_SetReady 1 1
     (snd (ManualTransportEventLoop_RegisterTimer \<lparr>milliseconds = 10\<rparr> (Some ''timer'')
       (snd (ManualTransportEventLoop_Register 456 3 (Some ''io'') ManualTransportEventLoop_new)))))"

lemmas loop_eval = sim_loop_def ManualTransportEventLoop_SetReady_def ManualTransportEventLoop_Register_def
  ManualTransportEventLoop_RegisterTimer_def ManualTransportEventLoop_new_def TransportEventNone_def
  TransportEventTimer_def int_increment_def Let_def

theorem dispatch_runs_ready_once_witness:
  "snd (snd (ManualTransportEventLoop_DispatchOnce (\<lambda>cb e (l, w). (l, log_effect cb e w)) (sim_loop, []))) =
     [(''io'', \<lparr>ev_token = 1, ev_handle = 456, ev_events = 1\<rparr>),
      (''timer'', \<lparr>ev_token = 2, ev_handle = 0, ev_events = 4\<rparr>)]"
  by (subst dispatch_runs_ready_once [where effect = log_effect])
    (simp_all add: loop_eval is_ready_def event_of_def log_effect_def)

lemma is_ready_disarm: "is_ready (disarm p) \<longleftrightarrow> is_ready p \<and> \<not> reg_timer (snd p)"
  by (simp add: disarm_def is_ready_def)

lemma disarm_id: "\<not> (is_ready p \<and> reg_timer (snd p)) \<Longrightarrow> disarm p = p"
  by (auto simp: disarm_def)

lemma disarm_again [simp]: "disarm (disarm p) = disarm p"
  by (simp add: disarm_def is_ready_def)

lemma filter_ready_disarm:
  "filter is_ready (map disarm rs) = filter (\<lambda>p. is_ready p \<and> \<not> reg_timer (snd p)) rs"
  by (induction rs) (auto simp: is_ready_disarm disarm_id)

text \<open>
  Timers fire once: whatever a dispatch ran, a second dispatch right after it runs no timer, and runs exactly the
  ready input and output callbacks again (readiness of a handle stays until it is set anew). A timer
  fires at the first dispatch after it was registered, whatever its delay.
\<close>

theorem timers_fire_once:
  assumes "ordered_keys (el_registrations l)"
    and "\<And>cb e l w. invoke cb e (l, w) = (l, effect cb e w)"
    and "ManualTransportEventLoop_DispatchOnce invoke (l, w) = (st, l1, w1)"
    and "ManualTransportEventLoop_DispatchOnce invoke (l1, w1) = (st', l2, w2)"
  shows "w2 = fold (\<lambda>p. effect (reg_callback (snd p)) (event_of p))
      (filter (\<lambda>p. is_ready p \<and> \<not> reg_timer (snd p)) (el_registrations l)) w1 \<and> l2 = l1"
proof -
  let ?rs = "el_registrations l"
  have l1: "l1 = l\<lparr>el_registrations := map disarm ?rs\<rparr>"
    using assms(3) dispatch_ready_eq [OF assms(1,2)] by simp
  have ord: "ordered_keys (el_registrations l1)" using assms(1) l1 by (simp del: map_map)
  show ?thesis
    using assms(4) dispatch_ready_eq [OF ord assms(2), where w = w1] l1 filter_ready_disarm [of ?rs]
    by (simp add: comp_def)
qed

lemma timers_fire_once_setup: "ordered_keys (el_registrations sim_loop)"
  by (simp add: loop_eval)

theorem timers_fire_once_witness:
  "snd (snd (ManualTransportEventLoop_DispatchOnce (\<lambda>cb e (l, w). (l, log_effect cb e w))
      (snd (ManualTransportEventLoop_DispatchOnce (\<lambda>cb e (l, w). (l, log_effect cb e w)) (sim_loop, []))))) =
   snd (snd (ManualTransportEventLoop_DispatchOnce (\<lambda>cb e (l, w). (l, log_effect cb e w)) (sim_loop, []))) @
     [(''io'', \<lparr>ev_token = 1, ev_handle = 456, ev_events = 1\<rparr>)]"
proof -
  let ?run = "ManualTransportEventLoop_DispatchOnce (\<lambda>cb e (l, w). (l, log_effect cb e w))"
  obtain st l1 w1 where one: "?run (sim_loop, []) = (st, l1, w1)" using prod_cases3 by blast
  obtain st' l2 w2 where two: "?run (l1, w1) = (st', l2, w2)" using prod_cases3 by blast
  have "filter (\<lambda>p. is_ready p \<and> \<not> reg_timer (snd p)) (el_registrations sim_loop) =
      [(1, \<lparr>reg_handle = 456, reg_events = 3, reg_callback = ''io'', reg_readyEvents = 1,
            reg_timerDelay = \<lparr>milliseconds = 0\<rparr>, reg_timer = False\<rparr>)]"
    by (simp add: loop_eval is_ready_def)
  with timers_fire_once [OF timers_fire_once_setup _ one two, of log_effect] one two show ?thesis
    by (simp add: event_of_def log_effect_def)
qed

section \<open>Tokens, and callbacks that change the loop\<close>

text \<open>
  The calls a client or a callback can make on the loop, the counter being below its maximum.
\<close>

inductive loop_step :: "'c ManualTransportEventLoop \<Rightarrow> 'c ManualTransportEventLoop \<Rightarrow> bool" where
  Loop_Register: "el_nextToken l < 2 ^ 31 - 1 \<Longrightarrow>
    ManualTransportEventLoop_Register handle events callback l = (r, l') \<Longrightarrow> loop_step l l'"
| Loop_RegisterTimer: "el_nextToken l < 2 ^ 31 - 1 \<Longrightarrow>
    ManualTransportEventLoop_RegisterTimer delay callback l = (r, l') \<Longrightarrow> loop_step l l'"
| Loop_Unregister: "ManualTransportEventLoop_Unregister token l = (st, l') \<Longrightarrow> loop_step l l'"
| Loop_SetReady: "ManualTransportEventLoop_SetReady token events l = (st, l') \<Longrightarrow> loop_step l l'"

inductive_cases loop_stepE: "loop_step l l'"

definition loop_inv :: "'c ManualTransportEventLoop \<Rightarrow> bool" where
  "loop_inv l \<longleftrightarrow> ordered_keys (el_registrations l) \<and> 1 \<le> el_nextToken l \<and> el_nextToken l \<le> 2 ^ 31 - 1 \<and>
     (\<forall>k \<in> fst ` set (el_registrations l). 1 \<le> k \<and> k < el_nextToken l)"

lemma int_increment_small: "1 \<le> i \<Longrightarrow> i < 2 ^ 31 - 1 \<Longrightarrow> int_increment i = i + 1"
  unfolding int_increment_def by (rule sint32_word_of_int_small) simp_all

lemma loop_inv_put:
  assumes "loop_inv l" and "el_nextToken l < 2 ^ 31 - 1"
  shows "loop_inv (l\<lparr>el_nextToken := el_nextToken l + 1,
    el_registrations := map_put (el_nextToken l) r (el_registrations l)\<rparr>)"
  using assms map_put_ordered [of "el_registrations l"] map_put_keys [of "el_nextToken l" r "el_registrations l"]
  by (auto simp: loop_inv_def)

lemma loop_inv_next: "loop_inv l \<Longrightarrow> 1 \<le> el_nextToken l"
  by (simp add: loop_inv_def)

lemma loop_step_inv: "loop_step l l' \<Longrightarrow> loop_inv l \<Longrightarrow> loop_inv l' \<and> el_nextToken l \<le> el_nextToken l'"
proof (induction rule: loop_step.induct)
  case (Loop_Register l handle events callback r l')
  then show ?case
    using loop_inv_put [of l] int_increment_small [OF loop_inv_next, of l]
    by (auto simp: ManualTransportEventLoop_Register_def Let_def split: option.splits if_splits)
next
  case (Loop_RegisterTimer l delay callback r l')
  then show ?case
    using loop_inv_put [of l] int_increment_small [OF loop_inv_next, of l]
    by (auto simp: ManualTransportEventLoop_RegisterTimer_def Let_def split: option.splits)
next
  case (Loop_Unregister token l st l')
  then show ?case
    using map_erase_ordered [of "el_registrations l" token]
    by (fastforce simp: ManualTransportEventLoop_Unregister_def loop_inv_def map_erase_def)
next
  case (Loop_SetReady token events l st l')
  show ?case
  proof (cases "map_of (el_registrations l) token")
    case None
    with Loop_SetReady show ?thesis by (simp add: ManualTransportEventLoop_SetReady_def)
  next
    case (Some r)
    then have "token \<in> fst ` set (el_registrations l)" using map_of_SomeD by force
    then have keys: "fst ` set (map_put token v (el_registrations l)) = fst ` set (el_registrations l)" for v
      by (simp add: map_put_keys insert_absorb)
    have "l' = l\<lparr>el_registrations := map_put token (r\<lparr>reg_readyEvents := events\<rparr>) (el_registrations l)\<rparr>"
      using Loop_SetReady(1) Some by (simp add: ManualTransportEventLoop_SetReady_def)
    moreover have "ordered_keys (map_put token v (el_registrations l))" for v
      using Loop_SetReady(2) by (intro map_put_ordered) (simp add: loop_inv_def)
    ultimately show ?thesis using Loop_SetReady(2) by (simp add: loop_inv_def keys del: image_iff ball_simps)
  qed
qed

lemma loop_steps_inv:
  "loop_step\<^sup>*\<^sup>* l l' \<Longrightarrow> loop_inv l \<Longrightarrow> loop_inv l' \<and> el_nextToken l \<le> el_nextToken l'"
  by (induction rule: rtranclp_induct) (auto dest: loop_step_inv)

text \<open>A callback that uses the loop only through its methods.\<close>

definition well_behaved ::
  "('c \<Rightarrow> TransportEvent \<Rightarrow> 'c ManualTransportEventLoop \<times> 'w \<Rightarrow> 'c ManualTransportEventLoop \<times> 'w) \<Rightarrow> bool" where
  "well_behaved invoke \<longleftrightarrow> (\<forall>cb e l w. loop_step\<^sup>*\<^sup>* l (fst (invoke cb e (l, w))))"

lemma dispatch_events_steps:
  "well_behaved invoke \<Longrightarrow> loop_step\<^sup>*\<^sup>* (fst lw) (fst (dispatch_events invoke es lw))"
proof (induction es arbitrary: lw)
  case (Cons e es)
  obtain l w where lw: "lw = (l, w)" by fastforce
  show ?case
  proof (cases "map_of (el_registrations l) (ev_token e)")
    case None
    with Cons.IH [OF Cons.prems, of lw] lw show ?thesis by simp
  next
    case (Some r)
    have "loop_step\<^sup>*\<^sup>* l (fst (invoke (reg_callback r) e (l, w)))"
      using Cons.prems by (simp add: well_behaved_def)
    with Cons.IH [OF Cons.prems, of "invoke (reg_callback r) e (l, w)"] Some lw show ?thesis by simp
  qed
qed simp

lemma loop_inv_disarm: "loop_inv l \<Longrightarrow> loop_inv (l\<lparr>el_registrations := map disarm (el_registrations l)\<rparr>)"
  by (simp add: loop_inv_def image_image comp_def)

lemma DispatchOnce_inv:
  assumes "ManualTransportEventLoop_DispatchOnce invoke (l, w) = (st, l', w')" and "well_behaved invoke" and "loop_inv l"
  shows "loop_inv l' \<and> el_nextToken l \<le> el_nextToken l'"
proof -
  let ?l = "l\<lparr>el_registrations := map disarm (el_registrations l)\<rparr>"
  have "l' = fst (dispatch_events invoke (map event_of (filter is_ready (el_registrations l))) (?l, w))"
    using assms(1) by (simp add: ManualTransportEventLoop_DispatchOnce_def collect_events_eq)
  then have "loop_step\<^sup>*\<^sup>* ?l l'" using dispatch_events_steps [OF assms(2), of "(?l, w)"] by simp
  from loop_steps_inv [OF this loop_inv_disarm [OF assms(3)]] show ?thesis by simp
qed

text \<open>The life of a loop: calls of its client and dispatches, whose callbacks call back into it.\<close>

inductive loop_reachable ::
  "('c \<Rightarrow> TransportEvent \<Rightarrow> 'c ManualTransportEventLoop \<times> 'w \<Rightarrow> 'c ManualTransportEventLoop \<times> 'w) \<Rightarrow>
   'c ManualTransportEventLoop \<Rightarrow> bool" for invoke where
  Reach_new: "loop_reachable invoke ManualTransportEventLoop_new"
| Reach_step: "loop_reachable invoke l \<Longrightarrow> loop_step l l' \<Longrightarrow> loop_reachable invoke l'"
| Reach_dispatch: "loop_reachable invoke l \<Longrightarrow>
    ManualTransportEventLoop_DispatchOnce invoke (l, w) = (st, l', w') \<Longrightarrow> loop_reachable invoke l'"

lemma loop_reachable_inv: "loop_reachable invoke l \<Longrightarrow> well_behaved invoke \<Longrightarrow> loop_inv l"
proof (induction rule: loop_reachable.induct)
  case Reach_new
  show ?case by (simp add: loop_inv_def ManualTransportEventLoop_new_def)
next
  case (Reach_step l l')
  then show ?case using loop_step_inv by blast
next
  case (Reach_dispatch l w st l' w')
  then show ?case using DispatchOnce_inv [OF Reach_dispatch(2,4)] by simp
qed

text \<open>
  From one state of a loop to a later one. The states in the middle of a dispatch count too: \<open>Evolve_collect\<close> is the
  state after the first loop of DispatchOnce, in which the callbacks run and call back.
\<close>

inductive loop_evolves ::
  "('c \<Rightarrow> TransportEvent \<Rightarrow> 'c ManualTransportEventLoop \<times> 'w \<Rightarrow> 'c ManualTransportEventLoop \<times> 'w) \<Rightarrow>
   'c ManualTransportEventLoop \<Rightarrow> 'c ManualTransportEventLoop \<Rightarrow> bool" for invoke l where
  Evolve_refl: "loop_evolves invoke l l"
| Evolve_step: "loop_evolves invoke l l1 \<Longrightarrow> loop_step l1 l2 \<Longrightarrow> loop_evolves invoke l l2"
| Evolve_collect: "loop_evolves invoke l l1 \<Longrightarrow>
    loop_evolves invoke l (l1\<lparr>el_registrations := snd (collect_events (el_registrations l1))\<rparr>)"
| Evolve_dispatch: "loop_evolves invoke l l1 \<Longrightarrow>
    ManualTransportEventLoop_DispatchOnce invoke (l1, w) = (st, l2, w') \<Longrightarrow> loop_evolves invoke l l2"

lemma loop_evolves_inv:
  assumes "loop_evolves invoke l l'" and "well_behaved invoke" and "loop_inv l"
  shows "loop_inv l' \<and> el_nextToken l \<le> el_nextToken l'"
  using assms(1)
proof (induction rule: loop_evolves.induct)
  case Evolve_refl
  then show ?case using assms(3) by simp
next
  case (Evolve_step l1 l2)
  then show ?case using loop_step_inv by fastforce
next
  case (Evolve_collect l1)
  then show ?case using loop_inv_disarm [of l1] by (simp only: collect_events_eq snd_conv) simp
next
  case (Evolve_dispatch l1 w st l2 w')
  then show ?case using DispatchOnce_inv [OF Evolve_dispatch(2) assms(2)] by fastforce
qed

lemma loop_inv_new: "loop_inv ManualTransportEventLoop_new"
  by (simp add: loop_inv_def ManualTransportEventLoop_new_def)

text \<open>
  \<open>adds l reg token l'\<close>: a successful call of Register or RegisterTimer on \<open>l\<close>, with the registration it was asked for
  and the token it returned.
\<close>

inductive adds :: "'c ManualTransportEventLoop \<Rightarrow> 'c Registration \<Rightarrow> int \<Rightarrow> 'c ManualTransportEventLoop \<Rightarrow> bool" where
  Adds_handle: "ManualTransportEventLoop_Register handle events (Some cb) l = ((Ok, token), l') \<Longrightarrow>
    adds l \<lparr>reg_handle = handle, reg_events = events, reg_callback = cb, reg_readyEvents = TransportEventNone,
      reg_timerDelay = \<lparr>milliseconds = 0\<rparr>, reg_timer = False\<rparr> token l'"
| Adds_timer: "ManualTransportEventLoop_RegisterTimer delay (Some cb) l = ((Ok, token), l') \<Longrightarrow>
    adds l \<lparr>reg_handle = 0, reg_events = TransportEventTimer, reg_callback = cb, reg_readyEvents = TransportEventTimer,
      reg_timerDelay = delay, reg_timer = True\<rparr> token l'"

lemma adds_state:
  assumes "adds l reg token l'" and "loop_inv l" and "el_nextToken l < 2 ^ 31 - 1"
  shows "token = el_nextToken l \<and> l' = l\<lparr>el_nextToken := el_nextToken l + 1,
    el_registrations := map_put (el_nextToken l) reg (el_registrations l)\<rparr>"
  using assms(1) int_increment_small [OF loop_inv_next [OF assms(2)] assms(3)]
  by (cases rule: adds.cases)
    (auto simp: ManualTransportEventLoop_Register_def ManualTransportEventLoop_RegisterTimer_def Let_def split: if_splits)

text \<open>
  C33. Tokens identify registrations: whenever in the life of a loop a handler or a timer is registered, also from a
  callback in the middle of a dispatch, the returned token is positive and no live registration has it; exactly
  the registration asked for (handle, events, callback, or the timer with its delay) is stored under it, and no other
  changes. No token is ever handed out again: every later registration, whatever happened in between and whether the
  first one was removed or not, returns a larger one. Unregister removes exactly that registration, and is
  idempotent. (As long as fewer than 2^31 - 2 tokens were handed out.)
\<close>

theorem register_fresh_token:
  assumes "loop_evolves invoke ManualTransportEventLoop_new l" and "well_behaved invoke"
    and "adds l reg token l'" and "el_nextToken l < 2 ^ 31 - 1"
  shows "0 < token \<and> map_of (el_registrations l) token = None \<and>
    map_of (el_registrations l') = (map_of (el_registrations l))(token \<mapsto> reg) \<and>
    (\<forall>l2 reg2 token2 l3. loop_evolves invoke l' l2 \<and> el_nextToken l2 < 2 ^ 31 - 1 \<and> adds l2 reg2 token2 l3 \<longrightarrow>
       token < token2) \<and>
    map_of (el_registrations (snd (ManualTransportEventLoop_Unregister token l'))) = map_of (el_registrations l) \<and>
    ManualTransportEventLoop_Unregister token (snd (ManualTransportEventLoop_Unregister token l')) =
      ManualTransportEventLoop_Unregister token l'"
proof -
  have inv: "loop_inv l" using loop_evolves_inv [OF assms(1,2) loop_inv_new] by simp
  note add = adds_state [OF assms(3) inv assms(4)]
  have none: "map_of (el_registrations l) token = None"
    using inv add by (auto simp: loop_inv_def map_of_eq_None_iff)
  have ord: "ordered_keys (el_registrations l)" using inv by (simp add: loop_inv_def)
  have inv': "loop_inv l'" using add loop_inv_put [OF inv assms(4)] by simp
  have later: "token < token2"
    if "loop_evolves invoke l' l2" "el_nextToken l2 < 2 ^ 31 - 1" "adds l2 reg2 token2 l3" for l2 reg2 token2 l3
    using loop_evolves_inv [OF that(1) assms(2) inv'] adds_state [OF that(3) _ that(2)] add by simp
  have "map_of (el_registrations (snd (ManualTransportEventLoop_Unregister token l'))) = map_of (el_registrations l)"
    using add none ord by (auto simp: ManualTransportEventLoop_Unregister_def fun_eq_iff)
  moreover have "ManualTransportEventLoop_Unregister token (snd (ManualTransportEventLoop_Unregister token l')) =
      ManualTransportEventLoop_Unregister token l'"
    by (simp add: ManualTransportEventLoop_Unregister_def)
  moreover have "0 < token" "map_of (el_registrations l') = (map_of (el_registrations l))(token \<mapsto> reg)"
    using loop_inv_next [OF inv] add ord by simp_all
  ultimately show ?thesis using none later by blast
qed

definition sim_invoke ::
  "string \<Rightarrow> TransportEvent \<Rightarrow> string ManualTransportEventLoop \<times> unit \<Rightarrow> string ManualTransportEventLoop \<times> unit" where
  "sim_invoke cb e lw = (snd (ManualTransportEventLoop_Unregister 2 (fst lw)), snd lw)"

lemma sim_invoke_well_behaved: "well_behaved sim_invoke"
proof -
  have "loop_step l (fst (sim_invoke cb e (l, w)))" for cb e w and l :: "string ManualTransportEventLoop"
    by (rule Loop_Unregister [of 2 l Ok]) (simp add: sim_invoke_def ManualTransportEventLoop_Unregister_def)
  then show ?thesis unfolding well_behaved_def by blast
qed

lemma sim_adds:
  "adds ManualTransportEventLoop_new \<lparr>reg_handle = 5, reg_events = 1, reg_callback = ''io'', reg_readyEvents = TransportEventNone,
     reg_timerDelay = \<lparr>milliseconds = 0\<rparr>, reg_timer = False\<rparr> 1
     (snd (ManualTransportEventLoop_Register 5 1 (Some ''io'') ManualTransportEventLoop_new))"
  by (rule Adds_handle) (simp add: loop_eval)

theorem register_fresh_token_witness:
  "map_of (el_registrations (snd (ManualTransportEventLoop_Register 5 1 (Some ''io'') ManualTransportEventLoop_new))) =
     [1 \<mapsto> \<lparr>reg_handle = 5, reg_events = 1, reg_callback = ''io'', reg_readyEvents = TransportEventNone,
           reg_timerDelay = \<lparr>milliseconds = 0\<rparr>, reg_timer = False\<rparr>]"
proof -
  have "el_nextToken (ManualTransportEventLoop_new :: string ManualTransportEventLoop) < 2 ^ 31 - 1"
    by (simp add: loop_eval)
  from register_fresh_token [OF Evolve_refl sim_invoke_well_behaved sim_adds this] show ?thesis
    by (simp add: ManualTransportEventLoop_new_def)
qed

subsection \<open>The loop behind its interface\<close>

definition ManualTransportEventLoop_methods ::
  "('c \<Rightarrow> TransportEvent \<Rightarrow> 'c ManualTransportEventLoop \<times> 'w \<Rightarrow> 'c ManualTransportEventLoop \<times> 'w) \<Rightarrow>
   ('c ManualTransportEventLoop \<times> 'w, 'c) ITransportEventLoop" where
  "ManualTransportEventLoop_methods invoke =
     \<lparr>eRegister = (\<lambda>handle events callback (l, w).
        map_prod id (\<lambda>l'. (l', w)) (ManualTransportEventLoop_Register handle events callback l)),
      eRegisterTimer = (\<lambda>delay callback (l, w).
        map_prod id (\<lambda>l'. (l', w)) (ManualTransportEventLoop_RegisterTimer delay callback l)),
      eUnregister = (\<lambda>token (l, w). map_prod id (\<lambda>l'. (l', w)) (ManualTransportEventLoop_Unregister token l)),
      eDispatchOnce = ManualTransportEventLoop_DispatchOnce invoke\<rparr>"

definition loop_live :: "'c ManualTransportEventLoop \<times> 'w \<Rightarrow> int \<rightharpoonup> 'c Registration" where
  "loop_live lw = map_of (el_registrations (fst lw))"

definition loop_room :: "'c ManualTransportEventLoop \<times> 'w \<Rightarrow> nat" where
  "loop_room lw = nat (2 ^ 31 - 1 - el_nextToken (fst lw))"

lemma loop_inv_fresh: "loop_inv l \<Longrightarrow> map_of (el_registrations l) (el_nextToken l) = None"
  by (auto simp: loop_inv_def map_of_eq_None_iff)

lemma loop_inv_ordered: "loop_inv l \<Longrightarrow> ordered_keys (el_registrations l)"
  by (simp add: loop_inv_def)

lemma Register_room:
  assumes "loop_inv l" and "el_nextToken l < 2 ^ 31 - 1"
    and "ManualTransportEventLoop_Register handle events callback l = (r, l') \<or>
         ManualTransportEventLoop_RegisterTimer delay callback l = (r, l')"
  shows "loop_inv l' \<and> el_nextToken l' \<le> el_nextToken l + 1"
proof -
  from assms(2,3) have "loop_step l l'" by (auto intro: Loop_Register Loop_RegisterTimer)
  with loop_step_inv [OF this assms(1)] assms(3) show ?thesis
    using int_increment_small [OF loop_inv_next [OF assms(1)] assms(2)]
    by (auto simp: ManualTransportEventLoop_Register_def ManualTransportEventLoop_RegisterTimer_def Let_def
        split: option.splits if_splits)
qed

interpretation manual_loop: event_loop "ManualTransportEventLoop_methods invoke"
  "\<lambda>lw. loop_inv (fst lw) \<and> well_behaved invoke" loop_live loop_room
  for invoke :: "'c \<Rightarrow> TransportEvent \<Rightarrow> 'c ManualTransportEventLoop \<times> 'w \<Rightarrow> 'c ManualTransportEventLoop \<times> 'w"
proof
  fix s s' :: "'c ManualTransportEventLoop \<times> 'w" and handle events token :: int
    and callback :: "'c option" and cb :: 'c and delay :: TransportDuration and st r
  let ?S = "ManualTransportEventLoop_methods invoke"
  obtain l w where s: "s = (l, w)" by fastforce
  show "eRegister ?S handle events callback s = ((InvalidArgument, 0), s)"
    if "callback = None \<or> events = TransportEventNone"
    using that by (auto simp: ManualTransportEventLoop_methods_def ManualTransportEventLoop_Register_def s
        split: option.split)
  assume inv: "loop_inv (fst s) \<and> well_behaved invoke"
  then have l: "loop_inv l" and wb: "well_behaved invoke" by (simp_all add: s)
  note fresh = loop_inv_fresh [OF l] and ord = loop_inv_ordered [OF l]
  show "eUnregister ?S token s = (st, s') \<Longrightarrow>
      (loop_inv (fst s') \<and> well_behaved invoke) \<and> st = Ok \<and> loop_live s' = (loop_live s)(token := None) \<and>
      loop_room s' = loop_room s"
    using loop_step_inv [OF Loop_Unregister l, of token] wb
    by (auto simp: ManualTransportEventLoop_methods_def ManualTransportEventLoop_Unregister_def s loop_live_def
        loop_room_def)
  show "eDispatchOnce ?S s = (st, s') \<Longrightarrow> (loop_inv (fst s') \<and> well_behaved invoke) \<and> st \<in> {Ok, WouldBlock}"
    using DispatchOnce_inv [OF _ wb l, of w st "fst s'" "snd s'"] wb
    by (auto simp: ManualTransportEventLoop_methods_def s ManualTransportEventLoop_DispatchOnce_def
        split: prod.splits if_splits)
  assume "0 < loop_room s"
  then have room: "el_nextToken l < 2 ^ 31 - 1" by (simp add: loop_room_def s)
  show "events \<noteq> TransportEventNone \<Longrightarrow> registers loop_live s (eRegister ?S handle events (Some cb) s)"
    using fresh ord
    by (auto simp: registers_def ManualTransportEventLoop_methods_def ManualTransportEventLoop_Register_def s
        loop_live_def Let_def)
  show "registers loop_live s (eRegisterTimer ?S delay (Some cb) s)"
    using fresh ord
    by (auto simp: registers_def ManualTransportEventLoop_methods_def ManualTransportEventLoop_RegisterTimer_def s
        loop_live_def Let_def)
  show "eRegister ?S handle events callback s = (r, s') \<Longrightarrow>
      (loop_inv (fst s') \<and> well_behaved invoke) \<and> loop_room s \<le> Suc (loop_room s')"
    using Register_room [OF l room, of handle events callback r "fst s'"] wb
    by (auto simp: ManualTransportEventLoop_methods_def s loop_room_def map_prod_def split: prod.splits)
  show "eRegisterTimer ?S delay callback s = (r, s') \<Longrightarrow>
      (loop_inv (fst s') \<and> well_behaved invoke) \<and> loop_room s \<le> Suc (loop_room s')"
    using Register_room [OF l room, of _ _ callback r "fst s'" delay] wb
    by (auto simp: ManualTransportEventLoop_methods_def s loop_room_def map_prod_def split: prod.splits)
qed

text \<open>
  C34. A client of the event loop interface that registers any list of handlers and timers, at any point of the life
  of a loop, gets a different token for each, none of which was in use; exactly these registrations are added;
  and removing the tokens again, in any order, also some of them twice, gives back the table it started from, as long as the
  32-bit counter has room for them.
\<close>

theorem loop_register_unregister_all:
  assumes "loop_reachable invoke l" and "well_behaved invoke" and "int (length hs) + el_nextToken l < 2 ^ 31"
    and "\<forall>h \<in> set hs. asks_events h"
    and "register_all (ManualTransportEventLoop_methods invoke) hs (l, w) = (tokens, l', w')"
    and "set order = set tokens"
    and "unregister_all (ManualTransportEventLoop_methods invoke) order (l', w') = (l2, w2)"
  shows "distinct tokens \<and> set tokens \<inter> dom (map_of (el_registrations l)) = {} \<and>
    dom (map_of (el_registrations l')) = dom (map_of (el_registrations l)) \<union> set tokens \<and>
    map_of (el_registrations l2) = map_of (el_registrations l)"
proof -
  have "loop_inv (fst (l, w)) \<and> well_behaved invoke" using loop_reachable_inv [OF assms(1,2)] assms(2) by simp
  moreover have "length hs \<le> loop_room (l, w)" using assms(3) by (simp add: loop_room_def)
  ultimately show ?thesis
    using manual_loop.register_unregister_all [OF _ _ assms(4,5,6)] assms(7) by (simp add: loop_live_def)
qed

theorem loop_register_unregister_all_witness:
  "map_of (el_registrations (fst (unregister_all (ManualTransportEventLoop_methods sim_invoke) [2, 1, 2]
     (snd (register_all (ManualTransportEventLoop_methods sim_invoke)
        [(Inl (456, 3), ''io''), (Inr \<lparr>milliseconds = 10\<rparr>, ''timer'')] (ManualTransportEventLoop_new, ())))))) =
   map_of (el_registrations (ManualTransportEventLoop_new :: string ManualTransportEventLoop))"
proof -
  let ?S = "ManualTransportEventLoop_methods sim_invoke"
  let ?hs = "[(Inl (456, 3), ''io''), (Inr \<lparr>milliseconds = 10\<rparr>, ''timer'')]"
  obtain tokens l' w' where reg: "register_all ?S ?hs (ManualTransportEventLoop_new, ()) = (tokens, l', w')"
    using prod_cases3 by blast
  have tokens: "tokens = [1, 2]" using reg by (simp add: ManualTransportEventLoop_methods_def loop_eval)
  obtain l2 w2 where un: "unregister_all ?S [2, 1, 2] (l', w') = (l2, w2)" by (metis prod.exhaust)
  have "int (length ?hs) + el_nextToken (ManualTransportEventLoop_new :: string ManualTransportEventLoop) < 2 ^ 31"
    "\<forall>h \<in> set ?hs. asks_events h" "set [2, 1, 2] = set tokens"
    by (auto simp: loop_eval asks_events_def tokens)
  from loop_register_unregister_all [OF Reach_new sim_invoke_well_behaved this(1,2) reg this(3) un] reg un
  show ?thesis by simp
qed

subsection \<open>Unregistering during a dispatch\<close>

lemma dispatch_skips:
  assumes "map_of (el_registrations (fst lw)) t = None"
    and "\<And>cb e l w. map_of (el_registrations l) t = None \<Longrightarrow>
           map_of (el_registrations (fst (invoke cb e (l, w)))) t = None"
  shows "dispatch_events invoke es lw = dispatch_events invoke (filter (\<lambda>e. ev_token e \<noteq> t) es) lw"
  using assms(1)
proof (induction es arbitrary: lw)
  case (Cons e es)
  obtain l w where lw: "lw = (l, w)" by fastforce
  show ?case
  proof (cases "map_of (el_registrations l) (ev_token e)")
    case None
    with Cons.IH [of lw] Cons.prems lw show ?thesis by simp
  next
    case (Some r)
    then have "ev_token e \<noteq> t" using Cons.prems lw by auto
    moreover have "map_of (el_registrations (fst (invoke (reg_callback r) e (l, w)))) t = None"
      using assms(2) Cons.prems lw by simp
    ultimately show ?thesis using Cons.IH [of "invoke (reg_callback r) e (l, w)"] Some lw by simp
  qed
qed simp

text \<open>
  A callback can cancel another one that is due later in the same dispatch: when the callback of an event
  unregisters the token of a later event and nothing registers that token again, the rest of the dispatch
  is as if the later event had not been collected, so a removed callback never runs.
\<close>

theorem unregistered_callback_never_runs:
  assumes "map_of (el_registrations (fst lw)) (ev_token e) = Some r"
    and "map_of (el_registrations (fst (invoke (reg_callback r) e lw))) t = None"
    and "\<And>cb e l w. map_of (el_registrations l) t = None \<Longrightarrow>
           map_of (el_registrations (fst (invoke cb e (l, w)))) t = None"
  shows "dispatch_events invoke (e # es) lw =
    dispatch_events invoke (e # filter (\<lambda>e. ev_token e \<noteq> t) es) lw"
  using assms(1) dispatch_skips [where invoke = invoke and es = es, OF assms(2,3)] by simp

theorem unregistered_callback_never_runs_witness:
  "dispatch_events sim_invoke [\<lparr>ev_token = 1, ev_handle = 456, ev_events = 1\<rparr>, \<lparr>ev_token = 2, ev_handle = 0, ev_events = 4\<rparr>]
     (sim_loop, ()) =
   dispatch_events sim_invoke [\<lparr>ev_token = 1, ev_handle = 456, ev_events = 1\<rparr>] (sim_loop, ())"
proof -
  have none: "map_of (el_registrations (fst (sim_invoke cb e lw))) 2 = None" for cb e lw
    by (simp add: sim_invoke_def ManualTransportEventLoop_Unregister_def)
  obtain r where "map_of (el_registrations (fst (sim_loop, ()))) (ev_token \<lparr>ev_token = 1, ev_handle = 456, ev_events = 1\<rparr>) = Some r"
    by (simp add: loop_eval)
  from unregistered_callback_never_runs [where invoke = sim_invoke, OF this none none,
      of "[\<lparr>ev_token = 2, ev_handle = 0, ev_events = 4\<rparr>]"]
  show ?thesis by simp
qed

end
