(* ===== verification/Timer_Trace.thy ===== *)
theory Timer_Trace
  imports Transport_Interfaces
begin

text \<open>
  Two small parts. \<^verbatim>\<open>timer_scheduler.cpp\<close>: the scheduler on the system's steady clock, which is a parameter;
  it keeps the timer contract. \<^verbatim>\<open>transport_trace.hpp\<close>: trace events and the sink behind a nullable pointer.
\<close>

section \<open>The system timer\<close>

text \<open>
  The standard library's clock and sleep: \<open>steady_now\<close> is the time since the clock's epoch, in
  nanoseconds (a 64-bit signed count), \<open>sleep_for\<close> suspends the thread for a number of milliseconds.
\<close>

record 'w chrono =
  steady_now :: "'w \<Rightarrow> int"
  sleep_for :: "int \<Rightarrow> 'w \<Rightarrow> 'w"

text \<open>
  What C++ promises: the count fits its 64-bit signed representation, and a sleep lasts at least as long as
  asked, measured on the steady clock, up to the end of the clock's range (292 years after its epoch).
\<close>

definition chrono_contract :: "'w chrono \<Rightarrow> bool" where
  "chrono_contract clock \<longleftrightarrow>
     (\<forall>w. 0 \<le> steady_now clock w \<and> steady_now clock w < 2 ^ 63) \<and>
     (\<forall>ms w. 0 \<le> ms \<longrightarrow>
        min (steady_now clock w + ms * 1000000) (2 ^ 63 - 1) \<le> steady_now clock (sleep_for clock ms w))"

definition TimerScheduler_MonotonicMilliseconds :: "'w chrono \<Rightarrow> 'w \<Rightarrow> TransportStatus \<times> uint64" where
  "TimerScheduler_MonotonicMilliseconds clock w =
     (let elapsed = steady_now clock w in (Ok, word_of_int (elapsed div 1000000)))"

definition TimerScheduler_SleepFor :: "'w chrono \<Rightarrow> TransportDuration \<Rightarrow> 'w \<Rightarrow> TransportStatus \<times> 'w" where
  "TimerScheduler_SleepFor clock duration w = (Ok, sleep_for clock (uint (milliseconds duration)) w)"

definition TimerScheduler_methods :: "'w chrono \<Rightarrow> 'w ITimerScheduler" where
  "TimerScheduler_methods clock =
     \<lparr>tMonotonicMilliseconds = TimerScheduler_MonotonicMilliseconds clock,
      tSleepFor = TimerScheduler_SleepFor clock\<rparr>"

lemma MonotonicMilliseconds_uint:
  assumes "chrono_contract clock"
  shows "uint (snd (TimerScheduler_MonotonicMilliseconds clock w)) = steady_now clock w div 1000000"
proof -
  have "0 \<le> steady_now clock w" "steady_now clock w < 2 ^ 63" using assms by (simp_all add: chrono_contract_def)
  then have "0 \<le> steady_now clock w div 1000000" "steady_now clock w div 1000000 < 2 ^ 64"
    by (auto intro: le_less_trans [OF zdiv_mono1 [of _ "2 ^ 63" 1000000]])
  then show ?thesis
    by (simp add: TimerScheduler_MonotonicMilliseconds_def Let_def unsigned_of_int take_bit_int_eq_self)
qed

lemma sleeps_advance:
  assumes "chrono_contract clock"
  shows "min (steady_now clock w + (\<Sum>d\<leftarrow>ds. uint (milliseconds d)) * 1000000) (2 ^ 63 - 1) \<le>
    steady_now clock (fold (\<lambda>d w. snd (TimerScheduler_SleepFor clock d w)) ds w)"
proof (induction ds arbitrary: w)
  case Nil
  then show ?case by simp
next
  case (Cons d ds)
  have "min (steady_now clock w + uint (milliseconds d) * 1000000) (2 ^ 63 - 1) \<le>
      steady_now clock (snd (TimerScheduler_SleepFor clock d w))"
    using assms by (simp add: chrono_contract_def TimerScheduler_SleepFor_def)
  moreover have "0 \<le> (\<Sum>d\<leftarrow>ds. uint (milliseconds d))" by (intro sum_list_nonneg) auto
  ultimately show ?case using Cons.IH [of "snd (TimerScheduler_SleepFor clock d w)"]
    unfolding list.map sum_list.Cons fold.simps comp_apply distrib_right by linarith
qed

lemma clock_range:
  fixes now q total :: int
  assumes "now < (q + 1) * 1000000" and "q + total < 9223372036854"
  shows "now + total * 1000000 < 2 ^ 63 - 1"
proof -
  have "(q + total) * 1000000 \<le> 9223372036853 * 1000000" using assms(2) by (intro mult_right_mono) auto
  then have "now + total * 1000000 < 9223372036854775807" using assms(1) by (simp add: distrib_right)
  then show ?thesis by simp
qed

lemma sleeps_at_least:
  assumes "chrono_contract clock"
    and "uint (snd (TimerScheduler_MonotonicMilliseconds clock w)) + (\<Sum>d\<leftarrow>ds. uint (milliseconds d)) < 9223372036854"
  shows "uint (snd (TimerScheduler_MonotonicMilliseconds clock w)) + (\<Sum>d\<leftarrow>ds. uint (milliseconds d)) \<le>
    uint (snd (TimerScheduler_MonotonicMilliseconds clock
      (fold (\<lambda>d w. snd (TimerScheduler_SleepFor clock d w)) ds w)))"
proof -
  let ?now = "steady_now clock w" and ?sum = "\<Sum>d\<leftarrow>ds. uint (milliseconds d)"
  let ?fin = "steady_now clock (fold (\<lambda>d w. snd (TimerScheduler_SleepFor clock d w)) ds w)"
  have "?now < (?now div 1000000 + 1) * 1000000" by (simp add: mult.commute)
  moreover have "?now div 1000000 + ?sum < 9223372036854"
    using assms(2) unfolding MonotonicMilliseconds_uint [OF assms(1)] .
  ultimately have "?now + ?sum * 1000000 < 2 ^ 63 - 1" by (rule clock_range)
  then have "?now + ?sum * 1000000 \<le> ?fin" using sleeps_advance [OF assms(1), of w ds] by linarith
  from zdiv_mono1 [OF this, of 1000000] show ?thesis
    unfolding MonotonicMilliseconds_uint [OF assms(1)] by simp
qed

interpretation system_timer: timer_scheduler "TimerScheduler_methods clock" "\<lambda>_. chrono_contract clock" 9223372036854
  for clock :: "'w chrono"
proof (unfold_locales; simp only: TimerScheduler_methods_def ITimerScheduler.simps)
  fix s :: 'w and d st v s' v'
  show "TimerScheduler_MonotonicMilliseconds clock s = (st, v) \<Longrightarrow> st = Ok"
    by (simp add: TimerScheduler_MonotonicMilliseconds_def Let_def)
  show "TimerScheduler_SleepFor clock d s = (st, s') \<Longrightarrow> st = Ok"
    by (simp add: TimerScheduler_SleepFor_def)
  assume a: "chrono_contract clock" "TimerScheduler_MonotonicMilliseconds clock s = (Ok, v)"
    "TimerScheduler_SleepFor clock d s = (Ok, s')" "TimerScheduler_MonotonicMilliseconds clock s' = (Ok, v')"
    "unat v + unat (milliseconds d) < 9223372036854"
  have "int (unat v + unat (milliseconds d)) < 9223372036854" using a(5) by (simp only: of_nat_less_iff)
  then have "uint v + uint (milliseconds d) < 9223372036854" by simp
  then have "uint v + uint (milliseconds d) \<le> uint v'"
    using sleeps_at_least [OF a(1), of s "[d]"] a(2-4) by simp
  then have "int (unat v + unat (milliseconds d)) \<le> int (unat v')" by simp
  then show "unat v + unat (milliseconds d) \<le> unat v'" by (simp only: of_nat_le_iff)
qed

text \<open>
  A sequence of sleeps on the system timer blocks for at least the sum of the durations: the millisecond
  counter is afterwards at least its value before plus that sum, without wrap-around, as long as that stays
  within the 292 years of the clock's range. Every call returns Ok.
\<close>

theorem timer_sleeps_at_least:
  assumes "chrono_contract clock"
    and "uint (snd (TimerScheduler_MonotonicMilliseconds clock w)) + (\<Sum>d\<leftarrow>ds. uint (milliseconds d)) < 9223372036854"
  shows "uint (snd (TimerScheduler_MonotonicMilliseconds clock w)) + (\<Sum>d\<leftarrow>ds. uint (milliseconds d)) \<le>
      uint (snd (TimerScheduler_MonotonicMilliseconds clock
        (fold (\<lambda>d w. snd (TimerScheduler_SleepFor clock d w)) ds w))) \<and>
    fst (TimerScheduler_MonotonicMilliseconds clock w) = Ok \<and> fst (TimerScheduler_SleepFor clock d w) = Ok"
  using sleeps_at_least [OF assms]
  by (simp add: TimerScheduler_MonotonicMilliseconds_def TimerScheduler_SleepFor_def Let_def)

text \<open>A clock whose worlds are the nanoseconds passed, stopping at the end of its range.\<close>

definition sim_clock :: "nat chrono" where
  "sim_clock = \<lparr>steady_now = (\<lambda>w. min (int w) (2 ^ 63 - 1)), sleep_for = (\<lambda>ms w. w + nat ms * 1000000)\<rparr>"

lemma sim_chrono_contract: "chrono_contract sim_clock"
  by (auto simp: chrono_contract_def sim_clock_def)

theorem timer_sleeps_at_least_witness:
  "uint (snd (TimerScheduler_MonotonicMilliseconds sim_clock 3500000)) + 1500 \<le>
     uint (snd (TimerScheduler_MonotonicMilliseconds sim_clock
       (fold (\<lambda>d w. snd (TimerScheduler_SleepFor sim_clock d w)) [\<lparr>milliseconds = 1000\<rparr>, \<lparr>milliseconds = 500\<rparr>] 3500000)))"
proof -
  have "uint (snd (TimerScheduler_MonotonicMilliseconds sim_clock 3500000)) = 3"
    unfolding MonotonicMilliseconds_uint [OF sim_chrono_contract] by (simp add: sim_clock_def)
  then show ?thesis
    using timer_sleeps_at_least [OF sim_chrono_contract, of 3500000 "[\<lparr>milliseconds = 1000\<rparr>, \<lparr>milliseconds = 500\<rparr>]"]
    by simp
qed

section \<open>Trace events\<close>

datatype TransportTraceEventKind =
  TraceOpen | TraceClose | TraceAccept | TraceRead | TraceWrite | TraceSend | TraceReceive

datatype TransportTraceDirection = DirectionNone | Inbound | Outbound

record TransportTraceEvent =
  trace_kind :: TransportTraceEventKind
  trace_direction :: TransportTraceDirection
  trace_status :: TransportStatus
  trace_endpoint :: string
  trace_byteCount :: size_t
  trace_timestampMilliseconds :: uint64

definition TransportTraceEvent_new :: TransportTraceEvent where
  "TransportTraceEvent_new = \<lparr>trace_kind = TraceOpen, trace_direction = DirectionNone, trace_status = Ok,
     trace_endpoint = '''', trace_byteCount = 0, trace_timestampMilliseconds = 0\<rparr>"

text \<open>A sink is its one method, on the state \<open>'s\<close> it records to.\<close>

record 's ITransportTraceSink =
  OnTransportTrace :: "TransportTraceEvent \<Rightarrow> 's \<Rightarrow> 's"

definition DisabledTransportTraceSink :: "'s ITransportTraceSink" where
  "DisabledTransportTraceSink = \<lparr>OnTransportTrace = (\<lambda>event s. s)\<rparr>"

definition EmitTransportTrace ::
  "'s ITransportTraceSink option \<Rightarrow> TransportTraceEvent \<Rightarrow> 's \<Rightarrow> 's" where
  "EmitTransportTrace sink event s =
     (case sink of None \<Rightarrow> s | Some k \<Rightarrow> OnTransportTrace k event s)"

end
