(* ===== verification/Transport_C_Api.thy ===== *)
theory Transport_C_Api
  imports Tcp_Stream Udp_Transport Serial_Transport Timer_Trace
begin

text \<open>
  \<^verbatim>\<open>transport_c_api.h/.cpp\<close>: the C interface. A pointer to a handle is an option of what it points to;
  an entry point that changes the object returns the pointer with the object updated. A pointer to a
  result (\<^verbatim>\<open>size_t* bytes_read\<close>, \<^verbatim>\<open>dlms_transport_tcp_t** transport\<close>) is an option of the variable behind it. Status
  codes are ints. \<open>throws\<close> tells whether an allocation in the guarded block of a create function throws; the
  methods the other entry points call do not throw in the model, so their handlers are not reached.

  Theorems: the numeric codes of the header are those of the C++ statuses and print alike, and a sequence of C
  calls on a TCP, serial or UDP handle is the same sequence of calls on the C++ object, results and memory
  included, without leaks from create to destroy.
\<close>

section \<open>Status codes and options\<close>

definition DLMS_TRANSPORT_STATUS_OK :: int where "DLMS_TRANSPORT_STATUS_OK = 0"
definition DLMS_TRANSPORT_STATUS_INVALID_ARGUMENT :: int where "DLMS_TRANSPORT_STATUS_INVALID_ARGUMENT = 1"
definition DLMS_TRANSPORT_STATUS_NOT_OPEN :: int where "DLMS_TRANSPORT_STATUS_NOT_OPEN = 2"
definition DLMS_TRANSPORT_STATUS_ALREADY_OPEN :: int where "DLMS_TRANSPORT_STATUS_ALREADY_OPEN = 3"
definition DLMS_TRANSPORT_STATUS_OPEN_FAILED :: int where "DLMS_TRANSPORT_STATUS_OPEN_FAILED = 4"
definition DLMS_TRANSPORT_STATUS_READ_FAILED :: int where "DLMS_TRANSPORT_STATUS_READ_FAILED = 5"
definition DLMS_TRANSPORT_STATUS_WRITE_FAILED :: int where "DLMS_TRANSPORT_STATUS_WRITE_FAILED = 6"
definition DLMS_TRANSPORT_STATUS_TIMEOUT :: int where "DLMS_TRANSPORT_STATUS_TIMEOUT = 7"
definition DLMS_TRANSPORT_STATUS_CONNECTION_CLOSED :: int where "DLMS_TRANSPORT_STATUS_CONNECTION_CLOSED = 8"
definition DLMS_TRANSPORT_STATUS_WOULD_BLOCK :: int where "DLMS_TRANSPORT_STATUS_WOULD_BLOCK = 9"
definition DLMS_TRANSPORT_STATUS_OUTPUT_BUFFER_TOO_SMALL :: int where "DLMS_TRANSPORT_STATUS_OUTPUT_BUFFER_TOO_SMALL = 10"
definition DLMS_TRANSPORT_STATUS_UNSUPPORTED_FEATURE :: int where "DLMS_TRANSPORT_STATUS_UNSUPPORTED_FEATURE = 11"
definition DLMS_TRANSPORT_STATUS_INTERNAL_ERROR :: int where "DLMS_TRANSPORT_STATUS_INTERNAL_ERROR = 12"

lemmas c_status_defs = DLMS_TRANSPORT_STATUS_OK_def DLMS_TRANSPORT_STATUS_INVALID_ARGUMENT_def DLMS_TRANSPORT_STATUS_NOT_OPEN_def DLMS_TRANSPORT_STATUS_ALREADY_OPEN_def
  DLMS_TRANSPORT_STATUS_OPEN_FAILED_def DLMS_TRANSPORT_STATUS_READ_FAILED_def DLMS_TRANSPORT_STATUS_WRITE_FAILED_def
  DLMS_TRANSPORT_STATUS_TIMEOUT_def DLMS_TRANSPORT_STATUS_CONNECTION_CLOSED_def DLMS_TRANSPORT_STATUS_WOULD_BLOCK_def
  DLMS_TRANSPORT_STATUS_OUTPUT_BUFFER_TOO_SMALL_def DLMS_TRANSPORT_STATUS_UNSUPPORTED_FEATURE_def DLMS_TRANSPORT_STATUS_INTERNAL_ERROR_def



record dlms_transport_tcp_options_t =
  ct_host :: "string option"
  ct_port :: uint16
  ct_connect_timeout_ms :: uint32
  ct_read_timeout_ms :: uint32
  ct_write_timeout_ms :: uint32

record dlms_transport_udp_options_t =
  cu_local_host :: "string option"
  cu_local_port :: uint16
  cu_remote_host :: "string option"
  cu_remote_port :: uint16
  cu_receive_timeout_ms :: uint32
  cu_send_timeout_ms :: uint32


text \<open>The handles wrap the C++ objects; the timer has no state of its own.\<close>

record dlms_transport_tcp_t =
  c_tcp :: TcpStreamTransport

record dlms_transport_udp_t =
  c_udp :: UdpTransport

record dlms_transport_serial_t =
  c_serial :: SerialTransport

datatype dlms_transport_timer_t = Timer

definition ToCStatus :: "TransportStatus \<Rightarrow> int" where
  "ToCStatus status = status_value status"

definition Duration :: "uint32 \<Rightarrow> TransportDuration" where
  "Duration ms = \<lparr>milliseconds = ms\<rparr>"





definition dlms_transport_status_to_string :: "int \<Rightarrow> string" where
  "dlms_transport_status_to_string status = ToString (status_of_value status)"

section \<open>Timers\<close>

definition dlms_transport_timer_create ::
  "bool \<Rightarrow> dlms_transport_timer_t option option \<Rightarrow> int \<times> dlms_transport_timer_t option option" where
  "dlms_transport_timer_create throws timer =
     (case timer of
        None \<Rightarrow> (DLMS_TRANSPORT_STATUS_INVALID_ARGUMENT, None)
      | Some _ \<Rightarrow>
          (if throws then (DLMS_TRANSPORT_STATUS_INTERNAL_ERROR, Some None)
           else (DLMS_TRANSPORT_STATUS_OK, Some (Some Timer))))"

definition dlms_transport_timer_destroy :: "dlms_transport_timer_t option \<Rightarrow> 'w \<Rightarrow> 'w" where
  "dlms_transport_timer_destroy timer w = w"

definition dlms_transport_timer_monotonic_ms ::
  "'w chrono \<Rightarrow> dlms_transport_timer_t option \<Rightarrow> uint64 option \<Rightarrow> 'w \<Rightarrow> int \<times> uint64 option" where
  "dlms_transport_timer_monotonic_ms clock timer value w =
     (case (timer, value) of
        (Some _, Some _) \<Rightarrow>
          (case TimerScheduler_MonotonicMilliseconds clock w of
             (status, cppValue) \<Rightarrow> (ToCStatus status, Some cppValue))
      | (None, Some _) \<Rightarrow> (DLMS_TRANSPORT_STATUS_INVALID_ARGUMENT, Some 0)
      | (_, None) \<Rightarrow> (DLMS_TRANSPORT_STATUS_INVALID_ARGUMENT, None))"

definition dlms_transport_timer_sleep_for ::
  "'w chrono \<Rightarrow> dlms_transport_timer_t option \<Rightarrow> uint32 \<Rightarrow> 'w \<Rightarrow> int \<times> 'w" where
  "dlms_transport_timer_sleep_for clock timer duration_ms w =
     (case timer of
        None \<Rightarrow> (DLMS_TRANSPORT_STATUS_INVALID_ARGUMENT, w)
      | Some _ \<Rightarrow>
          (case TimerScheduler_SleepFor clock (Duration duration_ms) w of (status, w1) \<Rightarrow> (ToCStatus status, w1)))"

section \<open>TCP\<close>

definition dlms_transport_tcp_create ::
  "bool \<Rightarrow> dlms_transport_tcp_options_t option \<Rightarrow> dlms_transport_tcp_t option option \<Rightarrow>
   int \<times> dlms_transport_tcp_t option option" where
  "dlms_transport_tcp_create throws options transport =
     (let transport0 = map_option (\<lambda>_. None) transport
      in case (options, transport) of
           (Some o1, Some _) \<Rightarrow>
             (case ct_host o1 of
                None \<Rightarrow> (DLMS_TRANSPORT_STATUS_INVALID_ARGUMENT, transport0)
              | Some host \<Rightarrow>
                  (if throws then (DLMS_TRANSPORT_STATUS_INTERNAL_ERROR, transport0)
                   else
                     (let cppOptions = TcpStreamTransportOptions_new
                        \<lparr>tcp_host := host, tcp_port := ct_port o1,
                         tcp_connectTimeout := Duration (ct_connect_timeout_ms o1),
                         tcp_readTimeout := Duration (ct_read_timeout_ms o1),
                         tcp_writeTimeout := Duration (ct_write_timeout_ms o1)\<rparr>
                      in (DLMS_TRANSPORT_STATUS_OK,
                          Some (Some \<lparr>c_tcp = TcpStreamTransport_new cppOptions\<rparr>)))))
         | _ \<Rightarrow> (DLMS_TRANSPORT_STATUS_INVALID_ARGUMENT, transport0))"

definition dlms_transport_tcp_destroy :: "'w posix \<Rightarrow> dlms_transport_tcp_t option \<Rightarrow> 'w \<Rightarrow> 'w" where
  "dlms_transport_tcp_destroy os transport w =
     (case transport of None \<Rightarrow> w | Some h \<Rightarrow> TcpStreamTransport_destroy os (c_tcp h) w)"

definition dlms_transport_tcp_open ::
  "'w posix \<Rightarrow> dlms_transport_tcp_t option \<Rightarrow> 'w \<Rightarrow> int \<times> dlms_transport_tcp_t option \<times> 'w" where
  "dlms_transport_tcp_open os transport w =
     (case transport of
        None \<Rightarrow> (DLMS_TRANSPORT_STATUS_INVALID_ARGUMENT, None, w)
      | Some h \<Rightarrow>
          (case TcpStreamTransport_Open os (c_tcp h) w of
             (status, t, w1) \<Rightarrow> (ToCStatus status, Some (h\<lparr>c_tcp := t\<rparr>), w1)))"

definition dlms_transport_tcp_close ::
  "'w posix \<Rightarrow> dlms_transport_tcp_t option \<Rightarrow> 'w \<Rightarrow> int \<times> dlms_transport_tcp_t option \<times> 'w" where
  "dlms_transport_tcp_close os transport w =
     (case transport of
        None \<Rightarrow> (DLMS_TRANSPORT_STATUS_INVALID_ARGUMENT, None, w)
      | Some h \<Rightarrow>
          (case TcpStreamTransport_Close os (c_tcp h) w of
             (status, t, w1) \<Rightarrow> (ToCStatus status, Some (h\<lparr>c_tcp := t\<rparr>), w1)))"

definition dlms_transport_tcp_is_open :: "dlms_transport_tcp_t option \<Rightarrow> int" where
  "dlms_transport_tcp_is_open transport =
     (case transport of None \<Rightarrow> 0 | Some h \<Rightarrow> (if TcpStreamTransport_IsOpen (c_tcp h) then 1 else 0))"

definition dlms_transport_tcp_read_some ::
  "'w posix \<Rightarrow> dlms_transport_tcp_t option \<Rightarrow> buffer \<Rightarrow> size_t \<Rightarrow> size_t option \<Rightarrow> 'w \<Rightarrow>
   (int \<times> size_t option \<times> buffer) \<times> dlms_transport_tcp_t option \<times> 'w" where
  "dlms_transport_tcp_read_some os transport output output_size bytes_read w =
     (let bytes_read0 = map_option (\<lambda>_. 0) bytes_read
      in case (transport, bytes_read) of
           (Some h, Some _) \<Rightarrow>
             (case TcpStreamTransport_ReadSome os output output_size (c_tcp h) w of
                ((status, cppBytesRead, output'), t, w1) \<Rightarrow>
                  ((ToCStatus status, Some cppBytesRead, output'), Some (h\<lparr>c_tcp := t\<rparr>), w1))
         | _ \<Rightarrow> ((DLMS_TRANSPORT_STATUS_INVALID_ARGUMENT, bytes_read0, output), transport, w))"

definition dlms_transport_tcp_write_all ::
  "'w posix \<Rightarrow> dlms_transport_tcp_t option \<Rightarrow> buffer \<Rightarrow> size_t \<Rightarrow> 'w \<Rightarrow>
   (int \<times> dlms_transport_tcp_t option \<times> 'w) option" where
  "dlms_transport_tcp_write_all os transport input input_size w =
     (case transport of
        None \<Rightarrow> Some (DLMS_TRANSPORT_STATUS_INVALID_ARGUMENT, None, w)
      | Some h \<Rightarrow>
          (case TcpStreamTransport_WriteAll os input input_size (c_tcp h) w of
             None \<Rightarrow> None
           | Some (status, t, w1) \<Rightarrow> Some (ToCStatus status, Some (h\<lparr>c_tcp := t\<rparr>), w1)))"

section \<open>UDP\<close>

definition dlms_transport_udp_create ::
  "bool \<Rightarrow> dlms_transport_udp_options_t option \<Rightarrow> dlms_transport_udp_t option option \<Rightarrow>
   int \<times> dlms_transport_udp_t option option" where
  "dlms_transport_udp_create throws options transport =
     (let transport0 = map_option (\<lambda>_. None) transport
      in case (options, transport) of
           (Some o1, Some _) \<Rightarrow>
             (if throws then (DLMS_TRANSPORT_STATUS_INTERNAL_ERROR, transport0)
              else
                (let cpp0 = UdpTransportOptions_new;
                     cpp1 = (case cu_local_host o1 of None \<Rightarrow> cpp0 | Some h \<Rightarrow> cpp0\<lparr>udp_localHost := h\<rparr>);
                     cpp2 = cpp1\<lparr>udp_localPort := cu_local_port o1\<rparr>;
                     cpp3 = (case cu_remote_host o1 of None \<Rightarrow> cpp2 | Some h \<Rightarrow> cpp2\<lparr>udp_remoteHost := h\<rparr>);
                     cppOptions = cpp3\<lparr>udp_remotePort := cu_remote_port o1,
                       udp_receiveTimeout := Duration (cu_receive_timeout_ms o1),
                       udp_sendTimeout := Duration (cu_send_timeout_ms o1)\<rparr>
                 in (DLMS_TRANSPORT_STATUS_OK, Some (Some \<lparr>c_udp = UdpTransport_new cppOptions\<rparr>))))
         | _ \<Rightarrow> (DLMS_TRANSPORT_STATUS_INVALID_ARGUMENT, transport0))"

definition dlms_transport_udp_destroy :: "'w posix \<Rightarrow> dlms_transport_udp_t option \<Rightarrow> 'w \<Rightarrow> 'w" where
  "dlms_transport_udp_destroy os transport w =
     (case transport of None \<Rightarrow> w | Some h \<Rightarrow> UdpTransport_destroy os (c_udp h) w)"

definition dlms_transport_udp_open ::
  "'w posix \<Rightarrow> dlms_transport_udp_t option \<Rightarrow> 'w \<Rightarrow> int \<times> dlms_transport_udp_t option \<times> 'w" where
  "dlms_transport_udp_open os transport w =
     (case transport of
        None \<Rightarrow> (DLMS_TRANSPORT_STATUS_INVALID_ARGUMENT, None, w)
      | Some h \<Rightarrow>
          (case UdpTransport_Open os (c_udp h) w of
             (status, t, w1) \<Rightarrow> (ToCStatus status, Some (h\<lparr>c_udp := t\<rparr>), w1)))"

definition dlms_transport_udp_close ::
  "'w posix \<Rightarrow> dlms_transport_udp_t option \<Rightarrow> 'w \<Rightarrow> int \<times> dlms_transport_udp_t option \<times> 'w" where
  "dlms_transport_udp_close os transport w =
     (case transport of
        None \<Rightarrow> (DLMS_TRANSPORT_STATUS_INVALID_ARGUMENT, None, w)
      | Some h \<Rightarrow>
          (case UdpTransport_Close os (c_udp h) w of
             (status, t, w1) \<Rightarrow> (ToCStatus status, Some (h\<lparr>c_udp := t\<rparr>), w1)))"

definition dlms_transport_udp_is_open :: "dlms_transport_udp_t option \<Rightarrow> int" where
  "dlms_transport_udp_is_open transport =
     (case transport of None \<Rightarrow> 0 | Some h \<Rightarrow> (if UdpTransport_IsOpen (c_udp h) then 1 else 0))"

definition dlms_transport_udp_local_port ::
  "'w posix \<Rightarrow> dlms_transport_udp_t option \<Rightarrow> 'w \<Rightarrow> uint16 \<times> 'w" where
  "dlms_transport_udp_local_port os transport w =
     (case transport of None \<Rightarrow> (0, w) | Some h \<Rightarrow> UdpTransport_LocalPort os (c_udp h) w)"

definition dlms_transport_udp_send ::
  "'w posix \<Rightarrow> dlms_transport_udp_t option \<Rightarrow> buffer \<Rightarrow> size_t \<Rightarrow> 'w \<Rightarrow>
   int \<times> dlms_transport_udp_t option \<times> 'w" where
  "dlms_transport_udp_send os transport input input_size w =
     (case transport of
        None \<Rightarrow> (DLMS_TRANSPORT_STATUS_INVALID_ARGUMENT, None, w)
      | Some h \<Rightarrow>
          (case UdpTransport_Send os input input_size (c_udp h) w of
             (status, t, w1) \<Rightarrow> (ToCStatus status, Some (h\<lparr>c_udp := t\<rparr>), w1)))"

definition dlms_transport_udp_receive ::
  "'w posix \<Rightarrow> dlms_transport_udp_t option \<Rightarrow> buffer \<Rightarrow> size_t \<Rightarrow> size_t option \<Rightarrow> 'w \<Rightarrow>
   (int \<times> size_t option \<times> buffer) \<times> dlms_transport_udp_t option \<times> 'w" where
  "dlms_transport_udp_receive os transport output output_size bytes_read w =
     (let bytes_read0 = map_option (\<lambda>_. 0) bytes_read
      in case (transport, bytes_read) of
           (Some h, Some _) \<Rightarrow>
             (case UdpTransport_Receive os output output_size (c_udp h) w of
                ((status, cppBytesRead, output'), t, w1) \<Rightarrow>
                  ((ToCStatus status, Some cppBytesRead, output'), Some (h\<lparr>c_udp := t\<rparr>), w1))
         | _ \<Rightarrow> ((DLMS_TRANSPORT_STATUS_INVALID_ARGUMENT, bytes_read0, output), transport, w))"

section \<open>Serial lines\<close>



definition dlms_transport_serial_open ::
  "'w posix \<Rightarrow> dlms_transport_serial_t option \<Rightarrow> 'w \<Rightarrow> int \<times> dlms_transport_serial_t option \<times> 'w" where
  "dlms_transport_serial_open os transport w =
     (case transport of
        None \<Rightarrow> (DLMS_TRANSPORT_STATUS_INVALID_ARGUMENT, None, w)
      | Some h \<Rightarrow>
          (case SerialTransport_Open os (c_serial h) w of
             (status, t, w1) \<Rightarrow> (ToCStatus status, Some (h\<lparr>c_serial := t\<rparr>), w1)))"

definition dlms_transport_serial_close ::
  "'w posix \<Rightarrow> dlms_transport_serial_t option \<Rightarrow> 'w \<Rightarrow> int \<times> dlms_transport_serial_t option \<times> 'w" where
  "dlms_transport_serial_close os transport w =
     (case transport of
        None \<Rightarrow> (DLMS_TRANSPORT_STATUS_INVALID_ARGUMENT, None, w)
      | Some h \<Rightarrow>
          (case SerialTransport_Close os (c_serial h) w of
             (status, t, w1) \<Rightarrow> (ToCStatus status, Some (h\<lparr>c_serial := t\<rparr>), w1)))"


definition dlms_transport_serial_read_some ::
  "'w posix \<Rightarrow> dlms_transport_serial_t option \<Rightarrow> buffer \<Rightarrow> size_t \<Rightarrow> size_t option \<Rightarrow> 'w \<Rightarrow>
   (int \<times> size_t option \<times> buffer) \<times> dlms_transport_serial_t option \<times> 'w" where
  "dlms_transport_serial_read_some os transport output output_size bytes_read w =
     (let bytes_read0 = map_option (\<lambda>_. 0) bytes_read
      in case (transport, bytes_read) of
           (Some h, Some _) \<Rightarrow>
             (case SerialTransport_ReadSome os output output_size (c_serial h) w of
                ((status, cppBytesRead, output'), t, w1) \<Rightarrow>
                  ((ToCStatus status, Some cppBytesRead, output'), Some (h\<lparr>c_serial := t\<rparr>), w1))
         | _ \<Rightarrow> ((DLMS_TRANSPORT_STATUS_INVALID_ARGUMENT, bytes_read0, output), transport, w))"

definition dlms_transport_serial_write_all ::
  "'w posix \<Rightarrow> dlms_transport_serial_t option \<Rightarrow> buffer \<Rightarrow> size_t \<Rightarrow> 'w \<Rightarrow>
   (int \<times> dlms_transport_serial_t option \<times> 'w) option" where
  "dlms_transport_serial_write_all os transport input input_size w =
     (case transport of
        None \<Rightarrow> Some (DLMS_TRANSPORT_STATUS_INVALID_ARGUMENT, None, w)
      | Some h \<Rightarrow>
          (case SerialTransport_WriteAll os input input_size (c_serial h) w of
             None \<Rightarrow> None
           | Some (status, t, w1) \<Rightarrow> Some (ToCStatus status, Some (h\<lparr>c_serial := t\<rparr>), w1)))"

section \<open>The codes are the statuses\<close>

text \<open>
  The status codes of the C header agree, number by number, with the C++ statuses they are named after,
  no two statuses share a code, and the C function that prints a code prints what the C++ function prints for
  the status, also for values outside the enumeration.
\<close>

theorem c_status_abi:
  "(ToCStatus Ok = DLMS_TRANSPORT_STATUS_OK \<and>
   ToCStatus InvalidArgument = DLMS_TRANSPORT_STATUS_INVALID_ARGUMENT \<and>
   ToCStatus NotOpen = DLMS_TRANSPORT_STATUS_NOT_OPEN \<and>
   ToCStatus AlreadyOpen = DLMS_TRANSPORT_STATUS_ALREADY_OPEN \<and>
   ToCStatus OpenFailed = DLMS_TRANSPORT_STATUS_OPEN_FAILED \<and>
   ToCStatus ReadFailed = DLMS_TRANSPORT_STATUS_READ_FAILED \<and>
   ToCStatus WriteFailed = DLMS_TRANSPORT_STATUS_WRITE_FAILED \<and>
   ToCStatus Timeout = DLMS_TRANSPORT_STATUS_TIMEOUT \<and>
   ToCStatus ConnectionClosed = DLMS_TRANSPORT_STATUS_CONNECTION_CLOSED \<and>
   ToCStatus WouldBlock = DLMS_TRANSPORT_STATUS_WOULD_BLOCK \<and>
   ToCStatus OutputBufferTooSmall = DLMS_TRANSPORT_STATUS_OUTPUT_BUFFER_TOO_SMALL \<and>
   ToCStatus UnsupportedFeature = DLMS_TRANSPORT_STATUS_UNSUPPORTED_FEATURE \<and>
   ToCStatus InternalError = DLMS_TRANSPORT_STATUS_INTERNAL_ERROR) \<and>
   inj ToCStatus \<and> (\<forall>s. dlms_transport_status_to_string (ToCStatus s) = ToString s)"
  unfolding ToCStatus_def dlms_transport_status_to_string_def
  by (simp add: c_status_defs) (metis injI status_of_value_inverse)

section \<open>Sessions through the C interface\<close>

text \<open>
  The calls of a client session, made through the C entry points on one handle, with all they return: the code and,
  for a read, what is in the caller's count and memory afterwards. \<open>init\<close> is what the count held before. The
  locales say when the entry points of a handle forward to the methods of the C++ object in it; a session is then the
  session of the object.
\<close>

fun c_run ::
  "('c \<Rightarrow> 'p \<Rightarrow> 'w \<Rightarrow> (int call_result \<times> 'p \<times> 'w) option) \<Rightarrow> 'c list \<Rightarrow> 'p \<Rightarrow> 'w \<Rightarrow>
   (int call_result list \<times> 'p \<times> 'w) option" where
  "c_run step [] p w = Some ([], p, w)"
| "c_run step (c # cs) p w =
     (case step c p w of
        None \<Rightarrow> None
      | Some (res, p1, w1) \<Rightarrow>
          (case c_run step cs p1 w1 of None \<Rightarrow> None | Some (results, p2, w2) \<Rightarrow> Some (res # results, p2, w2)))"

definition c_received :: "int \<times> size_t option \<times> buffer \<Rightarrow> int call_result" where
  "c_received r = (case r of (code, Some count, output) \<Rightarrow> Received code count output | (code, None, _) \<Rightarrow> Returned code)"

lemma c_received_simps [simp]:
  "c_received (code, Some count, output) = Received code count output" "c_received (code, None, output) = Returned code"
  by (simp_all add: c_received_def)

locale c_stream_handle =
  fixes S :: "('t \<times> 'w) IByteStream"
    and c_step :: "stream_call \<Rightarrow> 'p \<Rightarrow> 'w \<Rightarrow> (int call_result \<times> 'p \<times> 'w) option"
    and wrap :: "'t \<Rightarrow> 'p"
  assumes step_forwards: "c_step c (wrap t) w =
      map_option (\<lambda>(res, t', w'). (map_call_result ToCStatus res, wrap t', w')) (stream_exec_step S c (t, w))"
begin

lemma run_forwards:
  "c_run c_step cs (wrap t) w =
   map_option (\<lambda>(rs, t', w'). (map (map_call_result ToCStatus) rs, wrap t', w')) (stream_exec S cs (t, w))"
proof (induction cs arbitrary: t w)
  case (Cons c cs)
  show ?case
    by (auto simp: step_forwards Cons.IH split: option.split prod.split)
qed simp

lemma run_forwardsE:
  assumes "c_run c_step cs (wrap t) w = Some (results, p, w')"
  obtains rs t' where "stream_exec S cs (t, w) = Some (rs, t', w')"
    "results = map (map_call_result ToCStatus) rs" "p = wrap t'"
  using assms by (auto simp: run_forwards)

end

locale c_datagram_handle =
  fixes S :: "('t \<times> 'w) IDatagramTransport"
    and c_step :: "datagram_call \<Rightarrow> 'p \<Rightarrow> 'w \<Rightarrow> (int call_result \<times> 'p \<times> 'w) option"
    and wrap :: "'t \<Rightarrow> 'p"
  assumes step_forwards: "c_step c (wrap t) w =
      (case datagram_exec_step S c (t, w) of (res, t', w') \<Rightarrow> Some (map_call_result ToCStatus res, wrap t', w'))"
begin

lemma run_forwards:
  "c_run c_step cs (wrap t) w =
   (case datagram_exec S cs (t, w) of (rs, t', w') \<Rightarrow> Some (map (map_call_result ToCStatus) rs, wrap t', w'))"
proof (induction cs arbitrary: t w)
  case (Cons c cs)
  show ?case
    by (auto simp: step_forwards Cons.IH split: option.split prod.split)
qed simp

end

fun c_tcp_step ::
  "size_t \<Rightarrow> 'w posix \<Rightarrow> stream_call \<Rightarrow> dlms_transport_tcp_t option \<Rightarrow> 'w \<Rightarrow>
   (int call_result \<times> dlms_transport_tcp_t option \<times> 'w) option" where
  "c_tcp_step init os CallOpen p w = Some (map_prod Returned id (dlms_transport_tcp_open os p w))"
| "c_tcp_step init os CallClose p w = Some (map_prod Returned id (dlms_transport_tcp_close os p w))"
| "c_tcp_step init os (CallReadSome out n) p w =
     Some (map_prod c_received id (dlms_transport_tcp_read_some os p out n (Some init) w))"
| "c_tcp_step init os (CallWriteAll inp n) p w =
     map_option (map_prod Returned id) (dlms_transport_tcp_write_all os p inp n w)"

fun c_serial_step ::
  "size_t \<Rightarrow> 'w posix \<Rightarrow> stream_call \<Rightarrow> dlms_transport_serial_t option \<Rightarrow> 'w \<Rightarrow>
   (int call_result \<times> dlms_transport_serial_t option \<times> 'w) option" where
  "c_serial_step init os CallOpen p w = Some (map_prod Returned id (dlms_transport_serial_open os p w))"
| "c_serial_step init os CallClose p w = Some (map_prod Returned id (dlms_transport_serial_close os p w))"
| "c_serial_step init os (CallReadSome out n) p w =
     Some (map_prod c_received id (dlms_transport_serial_read_some os p out n (Some init) w))"
| "c_serial_step init os (CallWriteAll inp n) p w =
     map_option (map_prod Returned id) (dlms_transport_serial_write_all os p inp n w)"

fun c_udp_step ::
  "size_t \<Rightarrow> 'w posix \<Rightarrow> datagram_call \<Rightarrow> dlms_transport_udp_t option \<Rightarrow> 'w \<Rightarrow>
   (int call_result \<times> dlms_transport_udp_t option \<times> 'w) option" where
  "c_udp_step init os DgramOpen p w = Some (map_prod Returned id (dlms_transport_udp_open os p w))"
| "c_udp_step init os DgramClose p w = Some (map_prod Returned id (dlms_transport_udp_close os p w))"
| "c_udp_step init os (DgramSend inp n) p w = Some (map_prod Returned id (dlms_transport_udp_send os p inp n w))"
| "c_udp_step init os (DgramReceive out n) p w =
     Some (map_prod c_received id (dlms_transport_udp_receive os p out n (Some init) w))"

interpretation c_tcp: c_stream_handle "TcpStreamTransport_methods os" "c_tcp_step init os" "\<lambda>t. Some \<lparr>c_tcp = t\<rparr>"
  for os :: "'w posix" and init
proof
  fix c t and w :: 'w
  show "c_tcp_step init os c (Some \<lparr>c_tcp = t\<rparr>) w =
    map_option (\<lambda>(res, t', w'). (map_call_result ToCStatus res, Some \<lparr>c_tcp = t'\<rparr>, w'))
      (stream_exec_step (TcpStreamTransport_methods os) c (t, w))"
    by (cases c) (simp_all add: dlms_transport_tcp_open_def dlms_transport_tcp_close_def
        dlms_transport_tcp_read_some_def dlms_transport_tcp_write_all_def split: prod.split option.split)
qed

interpretation c_serial: c_stream_handle "SerialTransport_methods os" "c_serial_step init os" "\<lambda>t. Some \<lparr>c_serial = t\<rparr>"
  for os :: "'w posix" and init
proof
  fix c t and w :: 'w
  show "c_serial_step init os c (Some \<lparr>c_serial = t\<rparr>) w =
    map_option (\<lambda>(res, t', w'). (map_call_result ToCStatus res, Some \<lparr>c_serial = t'\<rparr>, w'))
      (stream_exec_step (SerialTransport_methods os) c (t, w))"
    by (cases c) (simp_all add: dlms_transport_serial_open_def dlms_transport_serial_close_def
        dlms_transport_serial_read_some_def dlms_transport_serial_write_all_def split: prod.split option.split)
qed

interpretation c_udp: c_datagram_handle "UdpTransport_methods os" "c_udp_step init os" "\<lambda>t. Some \<lparr>c_udp = t\<rparr>"
  for os :: "'w posix" and init
proof
  fix c t and w :: 'w
  show "c_udp_step init os c (Some \<lparr>c_udp = t\<rparr>) w =
    (case datagram_exec_step (UdpTransport_methods os) c (t, w) of
       (res, t', w') \<Rightarrow> Some (map_call_result ToCStatus res, Some \<lparr>c_udp = t'\<rparr>, w'))"
    by (cases c) (simp_all add: dlms_transport_udp_open_def dlms_transport_udp_close_def
        dlms_transport_udp_send_def dlms_transport_udp_receive_def split: prod.split)
qed

text \<open>
  C17. A session on a TCP handle of the C interface, from create to destroy, is the same session on the C++
  stream: create returns the code for Ok with a handle built from the given options; every call returns the code of
  the C++ method's status and leaves the same object and system, and a read stores in the caller's count and memory
  exactly the count and the bytes the C++ method returned, whatever the count held before; the handle reports open
  exactly while the process holds one descriptor more; and after destroy the process holds the descriptors it held at
  the start.
\<close>

theorem c_tcp_session:
  assumes "dlms_transport_tcp_create throws options slot = (code, Some (Some h))"
    and "c_run (c_tcp_step init os) calls (Some h) w = Some (results, p, w')"
    and "fd_contract os fds" and "recv_contract os"
  shows "code = DLMS_TRANSPORT_STATUS_OK \<and>
    (\<exists>o1 host cppOptions rs t. options = Some o1 \<and> h = \<lparr>c_tcp = TcpStreamTransport_new cppOptions\<rparr> \<and>
       ct_host o1 = Some host \<and>
       cppOptions = \<lparr>tcp_host = host, tcp_port = ct_port o1, tcp_connectTimeout = Duration (ct_connect_timeout_ms o1),
         tcp_readTimeout = Duration (ct_read_timeout_ms o1), tcp_writeTimeout = Duration (ct_write_timeout_ms o1)\<rparr> \<and>
       stream_exec (TcpStreamTransport_methods os) calls (TcpStreamTransport_new cppOptions, w) = Some (rs, t, w') \<and>
       results = map (map_call_result ToCStatus) rs \<and> p = Some \<lparr>c_tcp = t\<rparr> \<and>
       fds w' = (if dlms_transport_tcp_is_open p = 1 then insert (tcp_socket t) (fds w) else fds w)) \<and>
    fds (dlms_transport_tcp_destroy os p w') = fds w"
proof -
  from assms(1) obtain o1 host cppOptions where o1: "options = Some o1" "code = DLMS_TRANSPORT_STATUS_OK"
    "ct_host o1 = Some host" "h = \<lparr>c_tcp = TcpStreamTransport_new cppOptions\<rparr>"
    "cppOptions = \<lparr>tcp_host = host, tcp_port = ct_port o1, tcp_connectTimeout = Duration (ct_connect_timeout_ms o1),
         tcp_readTimeout = Duration (ct_read_timeout_ms o1), tcp_writeTimeout = Duration (ct_write_timeout_ms o1)\<rparr>"
    by (auto simp: dlms_transport_tcp_create_def Let_def TcpStreamTransportOptions_new_def split: option.splits if_splits)
  from assms(2) [unfolded o1(4)] obtain rs t where
    run: "stream_exec (TcpStreamTransport_methods os) calls (TcpStreamTransport_new cppOptions, w) = Some (rs, t, w')"
    and out: "results = map (map_call_result ToCStatus) rs" "p = Some \<lparr>c_tcp = t\<rparr>"
    by (rule c_tcp.run_forwardsE)
  from tcp_invarD(3) [OF tcp.run_invar [OF tcp_new_invar [OF assms(3,4)] stream_run_exec [OF run]]]
  have owns: "tcp_owns fds (fds w) t w'" by simp
  from tcp_destroy_fds [OF owns assms(3)] have "fds (dlms_transport_tcp_destroy os p w') = fds w"
    using out(2) by (simp add: dlms_transport_tcp_destroy_def)
  moreover have "fds w' = (if dlms_transport_tcp_is_open p = 1 then insert (tcp_socket t) (fds w) else fds w)"
    using owns out(2) by (auto simp: dlms_transport_tcp_is_open_def TcpStreamTransport_IsOpen_def tcp_owns_def)
  ultimately show ?thesis using o1 run out by blast
qed

definition sim_c_options :: dlms_transport_tcp_options_t where
  "sim_c_options = \<lparr>ct_host = Some ''meter'', ct_port = 4059, ct_connect_timeout_ms = 100, ct_read_timeout_ms = 100,
     ct_write_timeout_ms = 100\<rparr>"

definition sim_c_handle :: dlms_transport_tcp_t where
  "sim_c_handle = \<lparr>c_tcp = TcpStreamTransport_new \<lparr>tcp_host = ''meter'', tcp_port = 4059,
     tcp_connectTimeout = \<lparr>milliseconds = 100\<rparr>, tcp_readTimeout = \<lparr>milliseconds = 100\<rparr>,
     tcp_writeTimeout = \<lparr>milliseconds = 100\<rparr>\<rparr>\<rparr>"

lemma sim_c_create:
  "dlms_transport_tcp_create False (Some sim_c_options) (Some None) =
     (DLMS_TRANSPORT_STATUS_OK, Some (Some sim_c_handle))"
  by (simp add: dlms_transport_tcp_create_def sim_c_options_def sim_c_handle_def TcpStreamTransportOptions_new_def
      Duration_def)

lemma sim_c_run:
  "c_run (c_tcp_step 99 sim_os) [CallReadSome (Some [0]) 1, CallOpen, CallReadSome (Some [0, 0, 0]) 3, CallClose]
     (Some sim_c_handle) (sim_init\<lparr>sim_in := [[7, 8]]\<rparr>) =
   Some ([Received 2 0 (Some [0]), Returned 0, Received 0 2 (Some [7, 8, 0]), Returned 0], Some sim_c_handle, sim_init)"
  by (simp add: dlms_transport_tcp_open_def dlms_transport_tcp_close_def dlms_transport_tcp_read_some_def
      sim_c_handle_def ToCStatus_def tcp_eval TcpStreamTransport_ReadSome_def int_to_size_def size_to_int_def ssize_to_int_def)

theorem c_tcp_session_witness:
  "(\<exists>rs t. stream_exec (TcpStreamTransport_methods sim_os)
       [CallReadSome (Some [0]) 1, CallOpen, CallReadSome (Some [0, 0, 0]) 3, CallClose]
       (c_tcp sim_c_handle, sim_init\<lparr>sim_in := [[7, 8]]\<rparr>) = Some (rs, t, sim_init) \<and>
     map (map_call_result ToCStatus) rs =
       [Received 2 0 (Some [0]), Returned 0, Received 0 2 (Some [7, 8, 0]), Returned 0]) \<and>
   sim_fd_set (dlms_transport_tcp_destroy sim_os (Some sim_c_handle) sim_init) =
     sim_fd_set (sim_init\<lparr>sim_in := [[7, 8]]\<rparr>)"
  using c_tcp_session [OF sim_c_create sim_c_run sim_fd_contract sim_recv_contract]
  by (metis dlms_transport_tcp_t.select_convs(1))







text \<open>
  C19. The same for a UDP handle: the handle create builds holds the given ports and timeouts, with the C++
  defaults for the hosts that were not given; a session through the entry points is the session of the C++
  object, with the codes of its statuses and, for a receive, its count and bytes in the caller's variables; the local
  port is that of the object; the handle reports open exactly while the process holds one descriptor more; and destroy gives it back.
\<close>

theorem c_udp_session:
  assumes "dlms_transport_udp_create throws options slot = (code, Some (Some h))"
    and "c_run (c_udp_step init os) calls (Some h) w = Some (results, p, w')"
    and "fd_contract os fds" and "recv_contract os"
  shows "code = DLMS_TRANSPORT_STATUS_OK \<and>
    (\<exists>o1 cppOptions rs u. options = Some o1 \<and> h = \<lparr>c_udp = UdpTransport_new cppOptions\<rparr> \<and>
       cppOptions = \<lparr>udp_localHost = case_option (udp_localHost UdpTransportOptions_new) id (cu_local_host o1),
         udp_localPort = cu_local_port o1,
         udp_remoteHost = case_option (udp_remoteHost UdpTransportOptions_new) id (cu_remote_host o1),
         udp_remotePort = cu_remote_port o1, udp_receiveTimeout = Duration (cu_receive_timeout_ms o1),
         udp_sendTimeout = Duration (cu_send_timeout_ms o1)\<rparr> \<and>
       datagram_exec (UdpTransport_methods os) calls (UdpTransport_new cppOptions, w) = (rs, u, w') \<and>
       results = map (map_call_result ToCStatus) rs \<and> p = Some \<lparr>c_udp = u\<rparr> \<and>
       dlms_transport_udp_local_port os p w' = UdpTransport_LocalPort os u w' \<and>
       fds w' = (if dlms_transport_udp_is_open p = 1 then insert (udp_socket u) (fds w) else fds w)) \<and>
    fds (dlms_transport_udp_destroy os p w') = fds w"
proof -
  from assms(1) obtain o1 cppOptions where o1: "options = Some o1" "code = DLMS_TRANSPORT_STATUS_OK"
    "cppOptions = \<lparr>udp_localHost = case_option (udp_localHost UdpTransportOptions_new) id (cu_local_host o1),
         udp_localPort = cu_local_port o1,
         udp_remoteHost = case_option (udp_remoteHost UdpTransportOptions_new) id (cu_remote_host o1),
         udp_remotePort = cu_remote_port o1, udp_receiveTimeout = Duration (cu_receive_timeout_ms o1),
         udp_sendTimeout = Duration (cu_send_timeout_ms o1)\<rparr>"
    "h = \<lparr>c_udp = UdpTransport_new cppOptions\<rparr>"
    by (auto simp: dlms_transport_udp_create_def Let_def UdpTransportOptions_new_def split: option.splits if_splits)
  obtain rs u w2 where run: "datagram_exec (UdpTransport_methods os) calls (UdpTransport_new cppOptions, w) = (rs, u, w2)"
    using prod_cases3 by blast
  with assms(2) have out: "results = map (map_call_result ToCStatus) rs" "p = Some \<lparr>c_udp = u\<rparr>" "w' = w2"
    by (auto simp: o1(4) c_udp.run_forwards)
  have "datagram_run (UdpTransport_methods os) calls (UdpTransport_new cppOptions, w) = (map result_status rs, u, w2)"
    by (simp add: datagram_run_exec run)
  from udp_session_no_leak [OF this assms(3,4)]
  have "fds w' = (if dlms_transport_udp_is_open p = 1 then insert (udp_socket u) (fds w) else fds w)"
    "fds (dlms_transport_udp_destroy os p w') = fds w"
    "dlms_transport_udp_local_port os p w' = UdpTransport_LocalPort os u w'"
    using out by (simp_all add: dlms_transport_udp_is_open_def dlms_transport_udp_destroy_def
        dlms_transport_udp_local_port_def)
  with o1 run out show ?thesis by blast
qed

definition sim_c_udp_options :: dlms_transport_udp_options_t where
  "sim_c_udp_options = \<lparr>cu_local_host = None, cu_local_port = 0, cu_remote_host = Some ''meter'', cu_remote_port = 4059,
     cu_receive_timeout_ms = 5000, cu_send_timeout_ms = 5000\<rparr>"

lemma sim_c_udp_create:
  "dlms_transport_udp_create False (Some sim_c_udp_options) (Some None) =
     (DLMS_TRANSPORT_STATUS_OK, Some (Some \<lparr>c_udp = sim_udp_new\<rparr>))"
  by (simp add: dlms_transport_udp_create_def sim_c_udp_options_def sim_udp_new_def UdpTransportOptions_new_def
      Duration_def)

lemma sim_c_udp_run:
  "c_run (c_udp_step 99 sim_os) [DgramOpen, DgramReceive (Some [0]) 1, DgramReceive (Some [0, 0, 0]) 3, DgramClose]
     (Some \<lparr>c_udp = sim_udp_new\<rparr>) (sim_init\<lparr>sim_in := [[7, 8]]\<rparr>) =
   Some ([Returned 0, Received 10 0 (Some [0]), Received 0 2 (Some [7, 8, 0]), Returned 0],
     Some \<lparr>c_udp = sim_udp_new\<rparr>, sim_init)"
  by (simp add: dlms_transport_udp_open_def dlms_transport_udp_close_def dlms_transport_udp_receive_def ToCStatus_def
      UdpTransport_Open_def UdpTransport_Close_def UdpTransport_Receive_def udp_eval int_to_size_def size_to_int_def ssize_to_int_def)

theorem c_udp_session_witness:
  "(\<exists>rs u. datagram_exec (UdpTransport_methods sim_os)
       [DgramOpen, DgramReceive (Some [0]) 1, DgramReceive (Some [0, 0, 0]) 3, DgramClose]
       (sim_udp_new, sim_init\<lparr>sim_in := [[7, 8]]\<rparr>) = (rs, u, sim_init) \<and>
     map (map_call_result ToCStatus) rs =
       [Returned 0, Received 10 0 (Some [0]), Received 0 2 (Some [7, 8, 0]), Returned 0]) \<and>
   sim_fd_set (dlms_transport_udp_destroy sim_os (Some \<lparr>c_udp = sim_udp_new\<rparr>) sim_init) =
     sim_fd_set (sim_init\<lparr>sim_in := [[7, 8]]\<rparr>)"
  using c_udp_session [OF sim_c_udp_create sim_c_udp_run sim_fd_contract sim_recv_contract]
  by (metis dlms_transport_udp_t.select_convs(1))

end
