(* ===== verification/Non_Blocking.thy ===== *)
theory Non_Blocking
  imports Fake_Transport
begin

text \<open>
  \<^verbatim>\<open>non_blocking_byte_stream.hpp\<close> and \<^verbatim>\<open>non_blocking_datagram_transport.hpp\<close>: the interfaces of endpoints that
  report \<open>WouldBlock\<close> in place of waiting. The repository has no implementation of them in the library; the
  two classes of \<^verbatim>\<open>test_non_blocking_transport_contracts.cpp\<close> are the ones it runs, and the instances here.

  The locale \<open>non_blocking_byte_stream\<close> is the contract of the comments of the header; its client is a
  sender that offers what is left of its data each time it is woken. The tests and the requirements ask that
  the new interfaces do not change the blocking contracts: the read sides of the fakes are the read
  sides of the blocking fakes.
\<close>

section \<open>Method tables\<close>

type_synonym write_result = "TransportStatus \<times> size_t"

record 's INonBlockingByteStream =
  nOpen :: "'s \<Rightarrow> TransportStatus \<times> 's"
  nClose :: "'s \<Rightarrow> TransportStatus \<times> 's"
  nIsOpen :: "'s \<Rightarrow> bool"
  nTryReadSome :: "buffer \<Rightarrow> size_t \<Rightarrow> 's \<Rightarrow> read_result \<times> 's"
  nTryWriteSome :: "buffer \<Rightarrow> size_t \<Rightarrow> 's \<Rightarrow> write_result \<times> 's"

record 's INonBlockingDatagramTransport =
  ndOpen :: "'s \<Rightarrow> TransportStatus \<times> 's"
  ndClose :: "'s \<Rightarrow> TransportStatus \<times> 's"
  ndIsOpen :: "'s \<Rightarrow> bool"
  ndTrySend :: "buffer \<Rightarrow> size_t \<Rightarrow> 's \<Rightarrow> TransportStatus \<times> 's"
  ndTryReceive :: "buffer \<Rightarrow> size_t \<Rightarrow> 's \<Rightarrow> read_result \<times> 's"

section \<open>FakeNonBlockingByteStream\<close>

record FakeNonBlockingByteStream =
  nbs_open :: bool
  nbs_readChunks :: "byte list list"
  nbs_writeCapacity :: size_t
  nbs_writes :: "byte list list"

definition FakeNonBlockingByteStream_new :: FakeNonBlockingByteStream where
  "FakeNonBlockingByteStream_new =
     \<lparr>nbs_open = False, nbs_readChunks = [], nbs_writeCapacity = 0, nbs_writes = []\<rparr>"

definition FakeNonBlockingByteStream_Open ::
  "FakeNonBlockingByteStream \<Rightarrow> TransportStatus \<times> FakeNonBlockingByteStream" where
  "FakeNonBlockingByteStream_Open f = (if nbs_open f then (AlreadyOpen, f) else (Ok, f\<lparr>nbs_open := True\<rparr>))"

definition FakeNonBlockingByteStream_Close ::
  "FakeNonBlockingByteStream \<Rightarrow> TransportStatus \<times> FakeNonBlockingByteStream" where
  "FakeNonBlockingByteStream_Close f = (Ok, f\<lparr>nbs_open := False\<rparr>)"

definition FakeNonBlockingByteStream_IsOpen :: "FakeNonBlockingByteStream \<Rightarrow> bool" where
  "FakeNonBlockingByteStream_IsOpen f = nbs_open f"

definition FakeNonBlockingByteStream_TryReadSome ::
  "buffer \<Rightarrow> size_t \<Rightarrow> FakeNonBlockingByteStream \<Rightarrow> read_result \<times> FakeNonBlockingByteStream" where
  "FakeNonBlockingByteStream_TryReadSome output outputSize f =
     (if \<not> nbs_open f then ((NotOpen, 0, output), f)
      else if output = None \<and> outputSize \<noteq> 0 then ((InvalidArgument, 0, output), f)
      else (case nbs_readChunks f of
          [] \<Rightarrow> ((WouldBlock, 0, output), f)
        | chunk # rest \<Rightarrow>
            (let count = min (unat outputSize) (length chunk);
                 chunk' = drop count chunk
             in ((Ok, of_nat count, copy_to (take count chunk) output),
                 f\<lparr>nbs_readChunks := (if chunk' = [] then rest else chunk' # rest)\<rparr>))))"

definition FakeNonBlockingByteStream_TryWriteSome ::
  "buffer \<Rightarrow> size_t \<Rightarrow> FakeNonBlockingByteStream \<Rightarrow> write_result \<times> FakeNonBlockingByteStream" where
  "FakeNonBlockingByteStream_TryWriteSome input inputSize f =
     (if \<not> nbs_open f then ((NotOpen, 0), f)
      else if input = None \<and> inputSize \<noteq> 0 then ((InvalidArgument, 0), f)
      else if nbs_writeCapacity f = 0 \<and> inputSize \<noteq> 0 then ((WouldBlock, 0), f)
      else
        (let count = min (nbs_writeCapacity f) inputSize
         in ((Ok, count),
             f\<lparr>nbs_writes := nbs_writes f @ [take (unat count) (mem_of input)],
               nbs_writeCapacity := nbs_writeCapacity f - count\<rparr>)))"

definition FakeNonBlockingByteStream_ScriptRead ::
  "byte list \<Rightarrow> FakeNonBlockingByteStream \<Rightarrow> FakeNonBlockingByteStream" where
  "FakeNonBlockingByteStream_ScriptRead bytes f = f\<lparr>nbs_readChunks := nbs_readChunks f @ [bytes]\<rparr>"

definition FakeNonBlockingByteStream_SetWriteCapacity ::
  "size_t \<Rightarrow> FakeNonBlockingByteStream \<Rightarrow> FakeNonBlockingByteStream" where
  "FakeNonBlockingByteStream_SetWriteCapacity capacity f = f\<lparr>nbs_writeCapacity := capacity\<rparr>"

definition FakeNonBlockingByteStream_Writes :: "FakeNonBlockingByteStream \<Rightarrow> byte list list" where
  "FakeNonBlockingByteStream_Writes f = nbs_writes f"

definition FakeNonBlockingByteStream_methods :: "FakeNonBlockingByteStream INonBlockingByteStream" where
  "FakeNonBlockingByteStream_methods = \<lparr>nOpen = FakeNonBlockingByteStream_Open,
     nClose = FakeNonBlockingByteStream_Close, nIsOpen = FakeNonBlockingByteStream_IsOpen,
     nTryReadSome = FakeNonBlockingByteStream_TryReadSome,
     nTryWriteSome = FakeNonBlockingByteStream_TryWriteSome\<rparr>"

lemma FakeNonBlockingByteStream_methods_simps [simp]:
  "nOpen FakeNonBlockingByteStream_methods = FakeNonBlockingByteStream_Open"
  "nClose FakeNonBlockingByteStream_methods = FakeNonBlockingByteStream_Close"
  "nIsOpen FakeNonBlockingByteStream_methods = FakeNonBlockingByteStream_IsOpen"
  "nTryReadSome FakeNonBlockingByteStream_methods = FakeNonBlockingByteStream_TryReadSome"
  "nTryWriteSome FakeNonBlockingByteStream_methods = FakeNonBlockingByteStream_TryWriteSome"
  by (simp_all add: FakeNonBlockingByteStream_methods_def)

section \<open>FakeNonBlockingDatagramTransport\<close>

record FakeNonBlockingDatagramTransport =
  nbd_open :: bool
  nbd_sendWouldBlock :: bool
  nbd_receiveDatagrams :: "byte list list"
  nbd_sentDatagrams :: "byte list list"

definition FakeNonBlockingDatagramTransport_new :: FakeNonBlockingDatagramTransport where
  "FakeNonBlockingDatagramTransport_new =
     \<lparr>nbd_open = False, nbd_sendWouldBlock = False, nbd_receiveDatagrams = [], nbd_sentDatagrams = []\<rparr>"

definition FakeNonBlockingDatagramTransport_Open ::
  "FakeNonBlockingDatagramTransport \<Rightarrow> TransportStatus \<times> FakeNonBlockingDatagramTransport" where
  "FakeNonBlockingDatagramTransport_Open f =
     (if nbd_open f then (AlreadyOpen, f) else (Ok, f\<lparr>nbd_open := True\<rparr>))"

definition FakeNonBlockingDatagramTransport_Close ::
  "FakeNonBlockingDatagramTransport \<Rightarrow> TransportStatus \<times> FakeNonBlockingDatagramTransport" where
  "FakeNonBlockingDatagramTransport_Close f = (Ok, f\<lparr>nbd_open := False\<rparr>)"

definition FakeNonBlockingDatagramTransport_IsOpen :: "FakeNonBlockingDatagramTransport \<Rightarrow> bool" where
  "FakeNonBlockingDatagramTransport_IsOpen f = nbd_open f"

definition FakeNonBlockingDatagramTransport_TrySend ::
  "buffer \<Rightarrow> size_t \<Rightarrow> FakeNonBlockingDatagramTransport \<Rightarrow>
   TransportStatus \<times> FakeNonBlockingDatagramTransport" where
  "FakeNonBlockingDatagramTransport_TrySend input inputSize f =
     (if \<not> nbd_open f then (NotOpen, f)
      else if input = None \<and> inputSize \<noteq> 0 then (InvalidArgument, f)
      else if nbd_sendWouldBlock f then (WouldBlock, f)
      else (Ok, f\<lparr>nbd_sentDatagrams := nbd_sentDatagrams f @ [take (unat inputSize) (mem_of input)]\<rparr>))"

definition FakeNonBlockingDatagramTransport_TryReceive ::
  "buffer \<Rightarrow> size_t \<Rightarrow> FakeNonBlockingDatagramTransport \<Rightarrow>
   read_result \<times> FakeNonBlockingDatagramTransport" where
  "FakeNonBlockingDatagramTransport_TryReceive output outputSize f =
     (if \<not> nbd_open f then ((NotOpen, 0, output), f)
      else if output = None \<and> outputSize \<noteq> 0 then ((InvalidArgument, 0, output), f)
      else (case nbd_receiveDatagrams f of
          [] \<Rightarrow> ((WouldBlock, 0, output), f)
        | datagram # rest \<Rightarrow>
            (if unat outputSize < length datagram then ((OutputBufferTooSmall, 0, output), f)
             else ((Ok, of_nat (length datagram), copy_to datagram output),
                   f\<lparr>nbd_receiveDatagrams := rest\<rparr>))))"

definition FakeNonBlockingDatagramTransport_ScriptReceive ::
  "byte list \<Rightarrow> FakeNonBlockingDatagramTransport \<Rightarrow> FakeNonBlockingDatagramTransport" where
  "FakeNonBlockingDatagramTransport_ScriptReceive bytes f =
     f\<lparr>nbd_receiveDatagrams := nbd_receiveDatagrams f @ [bytes]\<rparr>"

definition FakeNonBlockingDatagramTransport_SetSendWouldBlock ::
  "bool \<Rightarrow> FakeNonBlockingDatagramTransport \<Rightarrow> FakeNonBlockingDatagramTransport" where
  "FakeNonBlockingDatagramTransport_SetSendWouldBlock value f = f\<lparr>nbd_sendWouldBlock := value\<rparr>"

definition FakeNonBlockingDatagramTransport_PendingDatagramCount ::
  "FakeNonBlockingDatagramTransport \<Rightarrow> nat" where
  "FakeNonBlockingDatagramTransport_PendingDatagramCount f = length (nbd_receiveDatagrams f)"

definition FakeNonBlockingDatagramTransport_methods ::
  "FakeNonBlockingDatagramTransport INonBlockingDatagramTransport" where
  "FakeNonBlockingDatagramTransport_methods = \<lparr>ndOpen = FakeNonBlockingDatagramTransport_Open,
     ndClose = FakeNonBlockingDatagramTransport_Close, ndIsOpen = FakeNonBlockingDatagramTransport_IsOpen,
     ndTrySend = FakeNonBlockingDatagramTransport_TrySend,
     ndTryReceive = FakeNonBlockingDatagramTransport_TryReceive\<rparr>"

lemma FakeNonBlockingDatagramTransport_methods_simps [simp]:
  "ndOpen FakeNonBlockingDatagramTransport_methods = FakeNonBlockingDatagramTransport_Open"
  "ndClose FakeNonBlockingDatagramTransport_methods = FakeNonBlockingDatagramTransport_Close"
  "ndIsOpen FakeNonBlockingDatagramTransport_methods = FakeNonBlockingDatagramTransport_IsOpen"
  "ndTrySend FakeNonBlockingDatagramTransport_methods = FakeNonBlockingDatagramTransport_TrySend"
  "ndTryReceive FakeNonBlockingDatagramTransport_methods = FakeNonBlockingDatagramTransport_TryReceive"
  by (simp_all add: FakeNonBlockingDatagramTransport_methods_def)

section \<open>The blocking fakes with the same contents\<close>

definition blocking_stream :: "FakeNonBlockingByteStream \<Rightarrow> FakeByteStream" where
  "blocking_stream f = \<lparr>fbs_open = nbs_open f, fbs_readChunks = nbs_readChunks f, fbs_writes = nbs_writes f,
     fbs_nextReadStatus = Ok, fbs_nextWriteStatus = Ok\<rparr>"

definition blocking_datagram :: "FakeNonBlockingDatagramTransport \<Rightarrow> FakeDatagramTransport" where
  "blocking_datagram f = \<lparr>fdt_open = nbd_open f, fdt_receiveDatagrams = nbd_receiveDatagrams f,
     fdt_sentDatagrams = nbd_sentDatagrams f, fdt_nextReceiveStatus = Ok, fdt_nextSendStatus = Ok\<rparr>"

lemma try_read_is_read:
  "FakeByteStream_ReadSome out n (blocking_stream f) =
     (case FakeNonBlockingByteStream_TryReadSome out n f of (r, f') \<Rightarrow> (r, blocking_stream f'))"
  by (auto simp: FakeByteStream_ReadSome_def FakeNonBlockingByteStream_TryReadSome_def blocking_stream_def Let_def
      split: list.split)

lemma try_receive_is_receive:
  "FakeDatagramTransport_Receive out n (blocking_datagram f) =
     (case FakeNonBlockingDatagramTransport_TryReceive out n f of (r, f') \<Rightarrow> (r, blocking_datagram f'))"
  by (auto simp: FakeDatagramTransport_Receive_def FakeNonBlockingDatagramTransport_TryReceive_def
      blocking_datagram_def split: list.split)

lemma try_write_is_write:
  "FakeByteStream_WriteAll inp n (blocking_stream f) =
     (case FakeNonBlockingByteStream_TryWriteSome inp n (FakeNonBlockingByteStream_SetWriteCapacity n f) of
        ((st, _), f') \<Rightarrow> (st, blocking_stream f'))"
  by (simp add: FakeByteStream_WriteAll_def FakeNonBlockingByteStream_TryWriteSome_def blocking_stream_def
      FakeNonBlockingByteStream_SetWriteCapacity_def)

lemma try_send_is_send:
  "FakeDatagramTransport_Send inp n (blocking_datagram f) =
     (case FakeNonBlockingDatagramTransport_TrySend inp n (FakeNonBlockingDatagramTransport_SetSendWouldBlock False f) of
        (st, f') \<Rightarrow> (st, blocking_datagram f'))"
  by (simp add: FakeDatagramTransport_Send_def FakeNonBlockingDatagramTransport_TrySend_def blocking_datagram_def
      FakeNonBlockingDatagramTransport_SetSendWouldBlock_def)

lemma try_write_no_room:
  "concat (nbs_writes (snd (FakeNonBlockingByteStream_TryWriteSome inp n
     (FakeNonBlockingByteStream_SetWriteCapacity 0 f)))) = concat (nbs_writes f)"
  by (simp add: FakeNonBlockingByteStream_TryWriteSome_def FakeNonBlockingByteStream_SetWriteCapacity_def)

lemma try_send_blocked:
  "nbd_sentDatagrams (snd (FakeNonBlockingDatagramTransport_TrySend inp n
     (FakeNonBlockingDatagramTransport_SetSendWouldBlock True f))) = nbd_sentDatagrams f"
  by (simp add: FakeNonBlockingDatagramTransport_TrySend_def FakeNonBlockingDatagramTransport_SetSendWouldBlock_def)

section \<open>The contract\<close>

text \<open>
  \<open>avail\<close> is what a reader has not yet been given, \<open>sent\<close> what a writer has handed over. A read reports
  \<open>WouldBlock\<close> exactly when nothing is available and a write when none of a non-empty input can be taken; neither
  has then any effect, and neither ever closes the stream.
\<close>

locale non_blocking_byte_stream = endpoint "nOpen S" "nClose S" "nIsOpen S" invar
  for S :: "'s INonBlockingByteStream" and invar :: "'s \<Rightarrow> bool" +
  fixes avail :: "'s \<Rightarrow> byte list" and sent :: "'s \<Rightarrow> byte list"
  assumes try_read:
      "invar s \<Longrightarrow> nIsOpen S s \<Longrightarrow> unat n \<le> length buf \<Longrightarrow>
       nTryReadSome S (Some buf) n s = ((st, k, out'), s') \<Longrightarrow>
       invar s' \<and> nIsOpen S s' \<and> sent s' = sent s \<and> buffer_frame n k (Some buf) out' \<and>
       avail s = take (unat k) (mem_of out') @ avail s' \<and> (st = WouldBlock \<longleftrightarrow> avail s = [])"
    and try_write:
      "invar s \<Longrightarrow> nIsOpen S s \<Longrightarrow> unat n \<le> length buf \<Longrightarrow>
       nTryWriteSome S (Some buf) n s = ((st, k), s') \<Longrightarrow>
       invar s' \<and> nIsOpen S s' \<and> avail s' = avail s \<and> k \<le> n \<and>
       sent s' = sent s @ take (unat k) buf \<and> (st = WouldBlock \<longleftrightarrow> k = 0 \<and> n \<noteq> 0)"

lemma drop_add: "drop (i + j) xs = drop j (drop i xs)"
  by (simp add: add.commute)

text \<open>
  The sender that is woken by an event loop: before each attempt the environment has moved (the list of
  functions), then what is left is offered again.
\<close>

fun offer_rest :: "'s INonBlockingByteStream \<Rightarrow> byte list \<Rightarrow> ('s \<Rightarrow> 's) list \<Rightarrow> 's \<Rightarrow> byte list \<times> 's" where
  "offer_rest S rest [] s = (rest, s)"
| "offer_rest S rest (e # es) s =
     (case nTryWriteSome S (Some rest) (of_nat (length rest)) (e s) of
        ((st, k), s1) \<Rightarrow> offer_rest S (drop (unat k) rest) es s1)"

context non_blocking_byte_stream
begin

definition moves :: "('s \<Rightarrow> 's) \<Rightarrow> bool" where
  "moves e \<longleftrightarrow> (\<forall>s. invar s \<longrightarrow> nIsOpen S s \<longrightarrow> invar (e s) \<and> nIsOpen S (e s) \<and> sent (e s) = sent s)"

lemma offer_rest_gap_free:
  assumes "invar s" and "nIsOpen S s" and "length rest < 2 ^ 64" and "\<forall>e \<in> set es. moves e"
  shows "\<exists>k. fst (offer_rest S rest es s) = drop k rest \<and>
    sent (snd (offer_rest S rest es s)) = sent s @ take k rest \<and> nIsOpen S (snd (offer_rest S rest es s))"
  using assms
proof (induction es arbitrary: rest s)
  case Nil
  then show ?case by (intro exI [of _ 0]) simp
next
  case (Cons e es)
  obtain st k s1 where w: "nTryWriteSome S (Some rest) (of_nat (length rest)) (e s) = ((st, k), s1)"
    by (metis prod.exhaust)
  have env: "invar (e s)" "nIsOpen S (e s)" "sent (e s) = sent s"
    using Cons.prems by (auto simp: moves_def)
  note W = try_write [OF env(1,2) _ w]
  have s1: "invar s1" "nIsOpen S s1" "sent s1 = sent s @ take (unat k) rest"
    using W Cons.prems(3) env(3) by (simp_all add: unat_of_nat_size)
  have es: "\<forall>e \<in> set es. moves e" using Cons.prems(4) by simp
  have left: "length (drop (unat k) rest) < 2 ^ 64"
    using Cons.prems(3) by (rule le_less_trans [rotated]) simp
  obtain j where j: "fst (offer_rest S (drop (unat k) rest) es s1) = drop j (drop (unat k) rest)"
    "sent (snd (offer_rest S (drop (unat k) rest) es s1)) = sent s1 @ take j (drop (unat k) rest)"
    "nIsOpen S (snd (offer_rest S (drop (unat k) rest) es s1))"
    using Cons.IH [OF s1(1,2) left es] by blast
  show ?case
    by (rule exI [of _ "unat k + j"]) (simp add: w j s1(3) take_add drop_add del: drop_drop)
qed

end

text \<open>
  The fake keeps the contract as long as no empty chunk is scripted: an empty chunk is read as \<open>Ok\<close> with no
  bytes.
\<close>

definition no_empty_chunk :: "FakeNonBlockingByteStream \<Rightarrow> bool" where
  "no_empty_chunk f \<longleftrightarrow> [] \<notin> set (nbs_readChunks f)"

lemma ScriptRead_no_empty_chunk:
  "no_empty_chunk f \<Longrightarrow> no_empty_chunk (FakeNonBlockingByteStream_ScriptRead bytes f) \<longleftrightarrow> bytes \<noteq> []"
  by (auto simp: no_empty_chunk_def FakeNonBlockingByteStream_ScriptRead_def)

lemma unat_min_word: "unat (min a b) = min (unat a) (unat b)" for a b :: "'a::len word"
  by (simp add: min_def word_le_nat_alt)

lemma nb_try_read:
  assumes "no_empty_chunk f" and "nbs_open f" and "unat n \<le> length buf"
    and "FakeNonBlockingByteStream_TryReadSome (Some buf) n f = ((st, k, out'), f')"
  shows "no_empty_chunk f' \<and> nbs_open f' \<and> nbs_writes f' = nbs_writes f \<and> buffer_frame n k (Some buf) out' \<and>
    concat (nbs_readChunks f) = take (unat k) (mem_of out') @ concat (nbs_readChunks f') \<and>
    (st = WouldBlock \<longleftrightarrow> concat (nbs_readChunks f) = [])"
proof (cases "nbs_readChunks f")
  case Nil
  with assms show ?thesis by (auto simp: FakeNonBlockingByteStream_TryReadSome_def)
next
  case (Cons chunk rest)
  have count: "unat (of_nat (min (unat n) (length chunk)) :: size_t) = min (unat n) (length chunk)"
    by (rule unat_of_nat_le [of _ n]) simp
  have "FakeByteStream_ReadSome (Some buf) n (blocking_stream f) = ((st, k, out'), blocking_stream f')"
    using assms(4) by (simp add: try_read_is_read)
  from fake_read_frame [OF _ this] assms(3) have "buffer_frame n k (Some buf) out'" by simp
  moreover have "chunk \<noteq> []" using Cons assms(1) by (auto simp: no_empty_chunk_def)
  ultimately show ?thesis
    using assms Cons count
    by (auto simp: FakeNonBlockingByteStream_TryReadSome_def no_empty_chunk_def Let_def split: if_splits)
qed

lemma nb_try_write:
  assumes "nbs_open f" and "unat n \<le> length buf"
    and "FakeNonBlockingByteStream_TryWriteSome (Some buf) n f = ((st, k), f')"
  shows "nbs_open f' \<and> nbs_readChunks f' = nbs_readChunks f \<and> k = min (nbs_writeCapacity f) n \<and>
    concat (nbs_writes f') = concat (nbs_writes f) @ take (unat k) buf \<and>
    nbs_writeCapacity f' = nbs_writeCapacity f - k \<and> (st = WouldBlock \<longleftrightarrow> k = 0 \<and> n \<noteq> 0)"
  using assms by (auto simp: FakeNonBlockingByteStream_TryWriteSome_def Let_def min_def split: if_splits)

interpretation nb_fake: non_blocking_byte_stream FakeNonBlockingByteStream_methods no_empty_chunk
  "\<lambda>f. concat (nbs_readChunks f)" "\<lambda>f. concat (nbs_writes f)"
proof
  fix f f' :: FakeNonBlockingByteStream and n k buf st out'
  assume inv: "no_empty_chunk f"
  show "nTryReadSome FakeNonBlockingByteStream_methods (Some buf) n f = ((st, k, out'), f') \<Longrightarrow>
      nIsOpen FakeNonBlockingByteStream_methods f \<Longrightarrow> unat n \<le> length buf \<Longrightarrow>
      no_empty_chunk f' \<and> nIsOpen FakeNonBlockingByteStream_methods f' \<and>
      concat (nbs_writes f') = concat (nbs_writes f) \<and> buffer_frame n k (Some buf) out' \<and>
      concat (nbs_readChunks f) = take (unat k) (mem_of out') @ concat (nbs_readChunks f') \<and>
      (st = WouldBlock \<longleftrightarrow> concat (nbs_readChunks f) = [])"
    using nb_try_read [OF inv, of n buf st k out' f']
    unfolding FakeNonBlockingByteStream_methods_simps FakeNonBlockingByteStream_IsOpen_def by metis
  show "nTryWriteSome FakeNonBlockingByteStream_methods (Some buf) n f = ((st, k), f') \<Longrightarrow>
      nIsOpen FakeNonBlockingByteStream_methods f \<Longrightarrow> unat n \<le> length buf \<Longrightarrow>
      no_empty_chunk f' \<and> nIsOpen FakeNonBlockingByteStream_methods f' \<and>
      concat (nbs_readChunks f') = concat (nbs_readChunks f) \<and> k \<le> n \<and>
      concat (nbs_writes f') = concat (nbs_writes f) @ take (unat k) buf \<and> (st = WouldBlock \<longleftrightarrow> k = 0 \<and> n \<noteq> 0)"
    using nb_try_write [of f n buf st k f'] inv by (simp add: FakeNonBlockingByteStream_IsOpen_def no_empty_chunk_def)
qed (auto simp: FakeNonBlockingByteStream_Open_def FakeNonBlockingByteStream_Close_def no_empty_chunk_def
    FakeNonBlockingByteStream_IsOpen_def split: if_splits)

section \<open>Resumed writes\<close>

text \<open>
  A sender on an open non-blocking stream that offers what is left of its data each time capacity appears,
  whatever the capacities and however often there is none: after each round exactly as many bytes have
  left as capacity was granted in all, the first ones, in order, with no gap and nothing twice, and as
  soon as the capacities add up to the length of the data, all of it has; the stream stays open and its
  reading side is not touched.
\<close>

theorem nb_resumed_write:
  assumes "nbs_open f" and "length data < 2 ^ 64"
  shows "\<exists>f'. offer_rest FakeNonBlockingByteStream_methods data
      (map FakeNonBlockingByteStream_SetWriteCapacity capacities) f =
        (drop (\<Sum>c\<leftarrow>capacities. unat c) data, f') \<and>
    concat (FakeNonBlockingByteStream_Writes f') =
      concat (FakeNonBlockingByteStream_Writes f) @ take (\<Sum>c\<leftarrow>capacities. unat c) data \<and>
    FakeNonBlockingByteStream_IsOpen f' \<and> nbs_readChunks f' = nbs_readChunks f"
  using assms
proof (induction capacities arbitrary: data f)
  case Nil
  then show ?case by (simp add: FakeNonBlockingByteStream_IsOpen_def)
next
  case (Cons c cs)
  define g where "g = FakeNonBlockingByteStream_SetWriteCapacity c f"
  have g: "nbs_open g" "nbs_writeCapacity g = c" "nbs_writes g = nbs_writes f" "nbs_readChunks g = nbs_readChunks f"
    using Cons.prems(1) by (simp_all add: g_def FakeNonBlockingByteStream_SetWriteCapacity_def)
  have size: "unat (of_nat (length data) :: size_t) = length data" using Cons.prems(2) by (simp add: unat_of_nat_size)
  obtain st k f1 where w: "FakeNonBlockingByteStream_TryWriteSome (Some data) (of_nat (length data)) g = ((st, k), f1)"
    by (metis prod.exhaust)
  note W = nb_try_write [OF g(1) _ w]
  have k: "unat k = min (unat c) (length data)" using W size g(2) by (simp add: unat_min_word)
  have left: "length (drop (unat c) data) < 2 ^ 64" using Cons.prems(2) by (rule le_less_trans [rotated]) simp
  have eqs: "take (unat k) data = take (unat c) data" "drop (unat k) data = drop (unat c) data"
    using k by (auto simp: min_def)
  have "nbs_open f1" using W size by simp
  from Cons.IH [OF this left] W size g eqs show ?case
    by (auto simp: w [unfolded g_def] FakeNonBlockingByteStream_Writes_def take_add drop_add simp del: drop_drop)
qed

theorem nb_resumed_write_witness:
  "\<exists>f'. offer_rest FakeNonBlockingByteStream_methods [1, 2, 3, 4, 5]
      (map FakeNonBlockingByteStream_SetWriteCapacity [2, 0, 9])
      (FakeNonBlockingByteStream_new\<lparr>nbs_open := True\<rparr>) = ([], f') \<and>
    concat (FakeNonBlockingByteStream_Writes f') = [1, 2, 3, 4, 5] \<and> FakeNonBlockingByteStream_IsOpen f'"
proof -
  have "length [1, 2, 3, 4, 5 :: byte] < 2 ^ 64" "nbs_open (FakeNonBlockingByteStream_new\<lparr>nbs_open := True\<rparr>)" by simp_all
  moreover have "FakeNonBlockingByteStream_Writes (FakeNonBlockingByteStream_new\<lparr>nbs_open := True\<rparr>) = []"
    "(\<Sum>c\<leftarrow>[2, 0, 9]. unat (c :: size_t)) = 11"
    by (simp_all add: FakeNonBlockingByteStream_Writes_def FakeNonBlockingByteStream_new_def)
  ultimately show ?thesis
    using nb_resumed_write [of "FakeNonBlockingByteStream_new\<lparr>nbs_open := True\<rparr>" "[1, 2, 3, 4, 5]" "[2, 0, 9]"]
    by (fastforce simp del: offer_rest.simps list.map)
qed

section \<open>Nothing changes for blocking clients\<close>

text \<open>
  The non-blocking fakes do not change the contracts of the blocking ones: a read, a receive, a
  send that may go out and a write for which there is room behave as the blocking call on a
  blocking fake with the same contents, with the same status, count, memory and contents afterwards; a
  send that may not go out and a write for which there is no room hand nothing over.
\<close>

theorem nb_agrees_with_blocking:
  "FakeByteStream_ReadSome out n (blocking_stream f) =
     map_prod id blocking_stream (FakeNonBlockingByteStream_TryReadSome out n f) \<and>
   FakeByteStream_WriteAll inp n (blocking_stream f) =
     map_prod fst blocking_stream
       (FakeNonBlockingByteStream_TryWriteSome inp n (FakeNonBlockingByteStream_SetWriteCapacity n f)) \<and>
   FakeDatagramTransport_Receive out n (blocking_datagram g) =
     map_prod id blocking_datagram (FakeNonBlockingDatagramTransport_TryReceive out n g) \<and>
   FakeDatagramTransport_Send inp n (blocking_datagram g) =
     map_prod id blocking_datagram
       (FakeNonBlockingDatagramTransport_TrySend inp n (FakeNonBlockingDatagramTransport_SetSendWouldBlock False g)) \<and>
   concat (nbs_writes (snd (FakeNonBlockingByteStream_TryWriteSome inp n
     (FakeNonBlockingByteStream_SetWriteCapacity 0 f)))) = concat (nbs_writes f) \<and>
   nbd_sentDatagrams (snd (FakeNonBlockingDatagramTransport_TrySend inp n
     (FakeNonBlockingDatagramTransport_SetSendWouldBlock True g))) = nbd_sentDatagrams g"
  by (simp add: try_read_is_read try_write_is_write try_receive_is_receive try_send_is_send try_write_no_room
      try_send_blocked map_prod_def split: prod.split)

end
