(* ===== verification/Loop_Writer.thy ===== *)
theory Loop_Writer
  imports Event_Loop Non_Blocking
begin

text \<open>
  The event loop driving a non-blocking stream, the use the two interfaces are made for: a sender registers for
  \<open>TransportEventWritable\<close>, its callback offers what is left of its data, and the sender unregisters after the dispatch in which
  the last byte left (not from the callback, which would destroy the function object that runs). The capacity of the
  stream before each dispatch is the environment's. Theorem: the data leaves gap-free, as fast as the
  capacities allow, and afterwards the loop is as it was before the registration and idle.
\<close>

section \<open>The sender\<close>

definition writer_invoke ::
  "'c \<Rightarrow> TransportEvent \<Rightarrow> 'c ManualTransportEventLoop \<times> FakeNonBlockingByteStream \<times> byte list \<Rightarrow>
   'c ManualTransportEventLoop \<times> FakeNonBlockingByteStream \<times> byte list" where
  "writer_invoke cb e lw =
     (case lw of (l, f, rest) \<Rightarrow>
        (case FakeNonBlockingByteStream_TryWriteSome (Some rest) (of_nat (length rest)) f of
           ((_, k), f') \<Rightarrow> (l, f', drop (unat k) rest)))"

fun dispatch_rounds ::
  "int \<Rightarrow> size_t list \<Rightarrow> 'c ManualTransportEventLoop \<times> FakeNonBlockingByteStream \<times> byte list \<Rightarrow>
   TransportStatus list \<times> 'c ManualTransportEventLoop \<times> FakeNonBlockingByteStream \<times> byte list" where
  "dispatch_rounds token [] lw = ([], lw)"
| "dispatch_rounds token (c # cs) (l, f, rest) =
     (case ManualTransportEventLoop_DispatchOnce writer_invoke (l, FakeNonBlockingByteStream_SetWriteCapacity c f, rest) of
        (st, l1, f1, rest1) \<Rightarrow>
          (let l2 = (if rest1 = [] then snd (ManualTransportEventLoop_Unregister token l1) else l1)
           in case dispatch_rounds token cs (l2, f1, rest1) of (sts, lw) \<Rightarrow> (st # sts, lw)))"

section \<open>One round\<close>

lemma dispatch_single:
  assumes "ordered_keys (el_registrations l)" and "filter is_ready (el_registrations l) = [(t, r)]" and "\<not> reg_timer r"
  shows "ManualTransportEventLoop_DispatchOnce invoke (l, w) = (Ok, invoke (reg_callback r) (event_of (t, r)) (l, w))"
proof -
  have "(t, r) \<in> set (filter is_ready (el_registrations l))" by (simp add: assms(2))
  then have mem: "(t, r) \<in> set (el_registrations l)" by simp
  have "disarm p = p" if "p \<in> set (el_registrations l)" for p
  proof (rule disarm_id)
    have "p = (t, r)" if "is_ready p"
    proof -
      have "p \<in> set (filter is_ready (el_registrations l))" using that \<open>p \<in> set _\<close> by simp
      then show ?thesis by (simp add: assms(2))
    qed
    then show "\<not> (is_ready p \<and> reg_timer (snd p))" using assms(3) by auto
  qed
  then have "map disarm (el_registrations l) = el_registrations l" by (rule map_idI)
  moreover have "map_of (el_registrations l) t = Some r"
    using mem ordered_keys_distinct [OF assms(1)] by simp
  ultimately show ?thesis
    by (simp add: ManualTransportEventLoop_DispatchOnce_def collect_events_eq assms(2) event_of_def)
qed

lemma dispatch_idle:
  assumes "filter is_ready (el_registrations l) = []"
  shows "ManualTransportEventLoop_DispatchOnce invoke (l, w) = (WouldBlock, l, w)"
proof -
  have "map disarm (el_registrations l) = el_registrations l"
    using assms by (intro map_idI disarm_id) (auto simp: filter_empty_conv)
  then show ?thesis by (simp add: ManualTransportEventLoop_DispatchOnce_def collect_events_eq assms)
qed

lemma idle_rounds:
  assumes "filter is_ready (el_registrations l) = []" and "snd (ManualTransportEventLoop_Unregister token l) = l"
  shows "\<exists>f'. dispatch_rounds token cs (l, f, rest) = (replicate (length cs) WouldBlock, l, f', rest) \<and>
    nbs_writes f' = nbs_writes f \<and> nbs_open f' = nbs_open f"
proof (induction cs arbitrary: f)
  case (Cons c cs)
  show ?case
    using Cons [of "FakeNonBlockingByteStream_SetWriteCapacity c f"]
    by (auto simp: dispatch_idle [OF assms(1)] assms(2) FakeNonBlockingByteStream_SetWriteCapacity_def)
qed simp

text \<open>The callback takes what the capacity allows.\<close>

lemma writer_invoke_step:
  assumes "nbs_open f" and "length rest < 2 ^ 64"
  shows "\<exists>f'. writer_invoke cb e (l, FakeNonBlockingByteStream_SetWriteCapacity c f, rest) =
      (l, f', drop (unat c) rest) \<and>
    nbs_open f' \<and> concat (nbs_writes f') = concat (nbs_writes f) @ take (unat c) rest"
proof -
  let ?g = "FakeNonBlockingByteStream_SetWriteCapacity c f"
  obtain st k f' where w: "FakeNonBlockingByteStream_TryWriteSome (Some rest) (of_nat (length rest)) ?g = ((st, k), f')"
    by (metis prod.exhaust)
  have size: "unat (of_nat (length rest) :: size_t) = length rest" using assms(2) by (simp add: unat_of_nat_size)
  have "nbs_open ?g" using assms(1) by (simp add: FakeNonBlockingByteStream_SetWriteCapacity_def)
  note W = nb_try_write [OF this _ w, simplified size]
  have k: "unat k = min (unat c) (length rest)"
    using W size by (simp add: unat_min_word FakeNonBlockingByteStream_SetWriteCapacity_def)
  then have "take (unat k) rest = take (unat c) rest" "drop (unat k) rest = drop (unat c) rest" by (auto simp: min_def)
  then show ?thesis
    using W w by (simp add: writer_invoke_def FakeNonBlockingByteStream_SetWriteCapacity_def)
qed

section \<open>All rounds\<close>

definition round_status :: "nat \<Rightarrow> size_t list \<Rightarrow> nat \<Rightarrow> TransportStatus" where
  "round_status n cs i = (if (\<Sum>c\<leftarrow>take i cs. unat c) < n then Ok else WouldBlock)"

lemma round_status_Cons:
  "map (round_status n (c # cs)) [0..<length (c # cs)] =
   (if 0 < n then Ok else WouldBlock) # map (round_status (n - unat c) cs) [0..<length cs]"
  by (auto simp: round_status_def upt_conv_Cons map_Suc_upt [symmetric] simp del: upt_Suc)

lemma round_status_zero: "map (round_status 0 cs) [0..<length cs] = replicate (length cs) WouldBlock"
  by (rule nth_equalityI) (simp_all add: round_status_def)

lemma erase_ready:
  assumes "filter is_ready rs = [(t, r)]"
  shows "filter is_ready (map_erase t rs) = []"
proof -
  have "filter is_ready (map_erase t rs) = map_erase t (filter is_ready rs)"
    by (simp add: map_erase_def conj_commute)
  then show ?thesis by (simp add: assms map_erase_def)
qed

lemma writer_rounds:
  assumes "ordered_keys (el_registrations l)" and "filter is_ready (el_registrations l) = [(t, r)]" and "\<not> reg_timer r"
    and "nbs_open f" and "rest \<noteq> []" and "length rest < 2 ^ 64"
  shows "\<exists>f'. dispatch_rounds t cs (l, f, rest) =
      (map (round_status (length rest) cs) [0..<length cs],
       if length rest \<le> (\<Sum>c\<leftarrow>cs. unat c) then snd (ManualTransportEventLoop_Unregister t l) else l,
       f', drop (\<Sum>c\<leftarrow>cs. unat c) rest) \<and>
    nbs_open f' \<and> concat (nbs_writes f') = concat (nbs_writes f) @ take (\<Sum>c\<leftarrow>cs. unat c) rest"
  using assms(4-)
proof (induction cs arbitrary: f rest)
  case Nil
  then show ?case by simp
next
  case (Cons c cs)
  let ?l' = "snd (ManualTransportEventLoop_Unregister t l)"
  let ?n = "length rest"
  from writer_invoke_step [OF Cons.prems(1,3), of "reg_callback r" "event_of (t, r)" l c] obtain f1 where
    one: "ManualTransportEventLoop_DispatchOnce writer_invoke (l, FakeNonBlockingByteStream_SetWriteCapacity c f, rest) =
      (Ok, l, f1, drop (unat c) rest)"
    and f1: "nbs_open f1" "concat (nbs_writes f1) = concat (nbs_writes f) @ take (unat c) rest"
    by (auto simp: dispatch_single [OF assms(1-3)] event_of_def)
  show ?case
  proof (cases "?n \<le> unat c")
    case True
    have "filter is_ready (el_registrations ?l') = []"
      using erase_ready [OF assms(2)] by (simp add: ManualTransportEventLoop_Unregister_def)
    moreover have "snd (ManualTransportEventLoop_Unregister t ?l') = ?l'"
      by (simp add: ManualTransportEventLoop_Unregister_def)
    ultimately obtain f2 where
      two: "dispatch_rounds t cs (?l', f1, []) = (replicate (length cs) WouldBlock, ?l', f2, [])"
      and "nbs_writes f2 = nbs_writes f1" "nbs_open f2 = nbs_open f1"
      using idle_rounds [of ?l' t cs f1 "[]"] by blast
    with True f1 one Cons.prems(2) show ?thesis
      unfolding round_status_Cons by (simp add: round_status_zero)
  next
    case False
    then have "drop (unat c) rest \<noteq> []" "length (drop (unat c) rest) < 2 ^ 64"
      using le_less_trans [OF _ Cons.prems(3), of "length (drop (unat c) rest)"] by simp_all
    from Cons.IH [OF f1(1) this] obtain f2 where
      two: "dispatch_rounds t cs (l, f1, drop (unat c) rest) =
        (map (round_status (?n - unat c) cs) [0..<length cs],
         if ?n - unat c \<le> (\<Sum>c\<leftarrow>cs. unat c) then ?l' else l, f2, drop (\<Sum>c\<leftarrow>cs. unat c) (drop (unat c) rest))"
      and f2: "nbs_open f2"
        "concat (nbs_writes f2) = concat (nbs_writes f1) @ take (\<Sum>c\<leftarrow>cs. unat c) (drop (unat c) rest)"
      by auto
    have "?n - unat c \<le> (\<Sum>c\<leftarrow>cs. unat c) \<longleftrightarrow> ?n \<le> unat c + (\<Sum>c\<leftarrow>cs. unat c)" by auto
    with False f1 f2 one two Cons.prems(2) show ?thesis
      unfolding round_status_Cons by (simp add: take_add drop_add del: drop_drop)
  qed
qed

section \<open>From registration to completion\<close>

lemma writer_well_behaved:
  "well_behaved (writer_invoke :: 'c \<Rightarrow> TransportEvent \<Rightarrow>
     'c ManualTransportEventLoop \<times> FakeNonBlockingByteStream \<times> byte list \<Rightarrow> _)"
  by (simp add: well_behaved_def writer_invoke_def split: prod.split)

lemma map_put_last: "\<forall>k \<in> fst ` set xs. k < t \<Longrightarrow> map_put t v xs = xs @ [(t, v)]"
  by (induction xs) auto

lemma map_put_last_again: "\<forall>k \<in> fst ` set xs. k < t \<Longrightarrow> map_put t v (xs @ [(t, v0)]) = xs @ [(t, v)]"
  by (induction xs) auto

lemma map_erase_last: "\<forall>k \<in> fst ` set xs. k < t \<Longrightarrow> map_erase t (xs @ [(t, v)]) = xs"
  by (induction xs) (auto simp: map_erase_def)

text \<open>
  C7. An event loop drives a non-blocking sender to completion: a client registers for writability at any point of
  the life of a loop with nothing else ready, the handle is set ready, its callback offers the rest of the data, and the
  client unregisters after the dispatch that sent the last byte. Then, whatever the capacity before each dispatch, after any number of
  dispatches exactly the first bytes have left, as many as capacity was granted in all, in order and without a gap;
  each dispatch reports Ok until everything is out and WouldBlock from then on; and once the capacities add up to the
  length of the data, the table of registrations is what it was before.
\<close>

theorem loop_drives_writer:
  assumes "loop_reachable writer_invoke l" and "el_nextToken l < 2 ^ 31 - 1"
    and "filter is_ready (el_registrations l) = []"
    and "ManualTransportEventLoop_Register handle TransportEventWritable (Some cb) l = ((Ok, t), l1)"
    and "ManualTransportEventLoop_SetReady t TransportEventWritable l1 = (Ok, l2)"
    and "nbs_open f" and "data \<noteq> []" and "length data < 2 ^ 64"
  shows "\<exists>l3 f'. dispatch_rounds t capacities (l2, f, data) =
      (map (round_status (length data) capacities) [0..<length capacities], l3, f', drop (\<Sum>c\<leftarrow>capacities. unat c) data) \<and>
    concat (FakeNonBlockingByteStream_Writes f') =
      concat (FakeNonBlockingByteStream_Writes f) @ take (\<Sum>c\<leftarrow>capacities. unat c) data \<and>
    (if length data \<le> (\<Sum>c\<leftarrow>capacities. unat c) then el_registrations l3 = el_registrations l else l3 = l2)"
proof -
  let ?xs = "el_registrations l"
  have inv: "loop_inv l" using loop_reachable_inv [OF assms(1) writer_well_behaved] .
  have keys: "\<forall>k \<in> fst ` set ?xs. k < el_nextToken l" and ord: "ordered_keys ?xs" using inv by (auto simp: loop_inv_def)
  define r where "r = \<lparr>reg_handle = handle, reg_events = TransportEventWritable, reg_callback = cb,
    reg_readyEvents = TransportEventWritable, reg_timerDelay = \<lparr>milliseconds = 0\<rparr>, reg_timer = False\<rparr>"
  have t: "t = el_nextToken l" and l1: "el_registrations l1 = ?xs @ [(t, r\<lparr>reg_readyEvents := TransportEventNone\<rparr>)]"
    using assms(4) map_put_last [OF keys]
    by (auto simp: ManualTransportEventLoop_Register_def TransportEventWritable_def TransportEventNone_def Let_def r_def)
  have "map_of (el_registrations l1) t = Some (r\<lparr>reg_readyEvents := TransportEventNone\<rparr>)"
    using keys by (auto simp: l1 t map_add_Some_iff map_of_eq_None_iff split: option.splits)
  then have l2: "el_registrations l2 = ?xs @ [(t, r)]"
    using assms(5) map_put_last_again [OF keys]
    by (auto simp: ManualTransportEventLoop_SetReady_def l1 t r_def)
  have ord2: "ordered_keys (el_registrations l2)" using ord keys by (auto simp: l2 t sorted_wrt_append)
  have ready: "filter is_ready (el_registrations l2) = [(t, r)]"
    using assms(3) by (simp add: l2 is_ready_def r_def TransportEventWritable_def)
  have "\<not> reg_timer r" by (simp add: r_def)
  from writer_rounds [OF ord2 ready this assms(6-8), of capacities] obtain f' where
    "dispatch_rounds t capacities (l2, f, data) =
      (map (round_status (length data) capacities) [0..<length capacities],
       if length data \<le> (\<Sum>c\<leftarrow>capacities. unat c) then snd (ManualTransportEventLoop_Unregister t l2) else l2,
       f', drop (\<Sum>c\<leftarrow>capacities. unat c) data)"
    "concat (nbs_writes f') = concat (nbs_writes f) @ take (\<Sum>c\<leftarrow>capacities. unat c) data"
    by blast
  moreover have "el_registrations (snd (ManualTransportEventLoop_Unregister t l2)) = ?xs"
    using map_erase_last [OF keys] by (simp add: ManualTransportEventLoop_Unregister_def l2 t)
  ultimately show ?thesis by (simp add: FakeNonBlockingByteStream_Writes_def)
qed

theorem loop_drives_writer_witness:
  "\<exists>l3 f'. dispatch_rounds 1 [2, 0, 9, 9]
      (snd (ManualTransportEventLoop_SetReady 1 TransportEventWritable
         (snd (ManualTransportEventLoop_Register 5 TransportEventWritable (Some ''send'') ManualTransportEventLoop_new))),
       FakeNonBlockingByteStream_new\<lparr>nbs_open := True\<rparr>, [1, 2, 3, 4, 5]) = ([Ok, Ok, Ok, WouldBlock], l3, f', []) \<and>
    concat (FakeNonBlockingByteStream_Writes f') = [1, 2, 3, 4, 5] \<and> el_registrations l3 = []"
proof -
  let ?l = "ManualTransportEventLoop_new :: string ManualTransportEventLoop"
  let ?reg = "ManualTransportEventLoop_Register 5 TransportEventWritable (Some ''send'') ?l"
  let ?set = "ManualTransportEventLoop_SetReady 1 TransportEventWritable (snd ?reg)"
  have reg: "?reg = ((Ok, 1), snd ?reg)" and rdy: "?set = (Ok, snd ?set)"
    by (simp_all add: loop_eval TransportEventWritable_def)
  have "el_nextToken ?l < 2 ^ 31 - 1" "filter is_ready (el_registrations ?l) = []"
    "nbs_open (FakeNonBlockingByteStream_new\<lparr>nbs_open := True\<rparr>)" "[1, 2, 3, 4, 5 :: byte] \<noteq> []"
    "length [1, 2, 3, 4, 5 :: byte] < 2 ^ 64"
    by (simp_all add: loop_eval)
  note run = loop_drives_writer [OF Reach_new this(1,2) reg rdy this(3-), of "[2, 0, 9, 9]"]
  have "(\<Sum>c\<leftarrow>[2, 0, 9, 9]. unat (c :: size_t)) = 20"
    "map (round_status (length [1, 2, 3, 4, 5 :: byte]) [2, 0, 9, 9]) [0..<length [2, 0, 9, 9 :: size_t]] = [Ok, Ok, Ok, WouldBlock]"
    "FakeNonBlockingByteStream_Writes (FakeNonBlockingByteStream_new\<lparr>nbs_open := True\<rparr>) = []" "el_registrations ?l = []"
    by (simp_all add: round_status_def loop_eval upt_conv_Cons FakeNonBlockingByteStream_Writes_def
        FakeNonBlockingByteStream_new_def)
  with run show ?thesis by (simp del: dispatch_rounds.simps)
qed

end
