(* ===== verification/Stream_Pair.thy ===== *)
theory Stream_Pair
  imports Tcp_Server "HOL-Library.Sublist"
begin

text \<open>
  A client stream and the stream a listener accepted for it, as the two ends of one connection. The connection is the
  system's; \<open>end_contract\<close> states what TCP promises of it and no more: bytes leave a channel in the order they entered
  it, none is made up and none is delivered twice. Any call may fail or find nothing ready at any time, an end may be
  told that the stream has ended at any time, and what was accepted by \<^verbatim>\<open>send\<close> need never arrive. Theorem: whatever
  the two programs do with their ends, in any interleaving, what one end's reads delivered together with what is still
  in flight is exactly what the other end's WriteAll calls put on the wire, a prefix of each input, the whole input
  where the call reported Ok.
\<close>

section \<open>The connection\<close>

text \<open>
  \<open>out\<close> observes the bytes that were accepted at the end \<open>fd\<close> and not yet received by the peer (in flight, waiting, or
  lost), \<open>inc\<close> the bytes on their way to this end.
\<close>

definition end_contract :: "'w posix \<Rightarrow> int \<Rightarrow> ('w \<Rightarrow> byte list) \<Rightarrow> ('w \<Rightarrow> byte list) \<Rightarrow> bool" where
  "end_contract os fd out inc \<longleftrightarrow>
     transmits out (sys_send os fd) \<and> (\<forall>bs n. keeps inc (sys_send os fd bs n)) \<and>
     (\<forall>n w r bs w'. sys_recv os fd n w = ((r, bs), w') \<longrightarrow>
        (r = -1 \<and> bs = [] \<or> r = int (length bs) \<and> length bs \<le> unat n) \<and> inc w = bs @ inc w' \<and> out w' = out w) \<and>
     (\<forall>n r s tv. keeps out (sys_select os n r s tv)) \<and> (\<forall>n r s tv. keeps inc (sys_select os n r s tv)) \<and>
     (\<forall>fd. keeps out (sys_close os fd)) \<and> (\<forall>fd. keeps inc (sys_close os fd))"

lemma end_contract_recv:
  "end_contract os fd out inc \<Longrightarrow> sys_recv os fd n w = ((r, bs), w') \<Longrightarrow>
   (r = -1 \<and> bs = [] \<or> r = int (length bs) \<and> length bs \<le> unat n) \<and> inc w = bs @ inc w' \<and> out w' = out w"
  unfolding end_contract_def by blast

lemma end_contractD:
  assumes "end_contract os fd out inc"
  shows "send_contract os fd out" "keeps inc (sys_send os fd bs n)"
    "keeps out (WaitForSocket os sock b d)" "keeps inc (WaitForSocket os sock b d)"
    "out (CloseNativeSocket os sock w) = out w" "inc (CloseNativeSocket os sock w) = inc w"
proof -
  show "send_contract os fd out" "keeps inc (sys_send os fd bs n)"
    "keeps out (WaitForSocket os sock b d)" "keeps inc (WaitForSocket os sock b d)"
    using assms by (simp_all add: end_contract_def send_contract_def WaitForSocket_keeps)
  show "out (CloseNativeSocket os sock w) = out w" "inc (CloseNativeSocket os sock w) = inc w"
    using assms by (simp_all add: end_contract_def CloseNativeSocket_def keeps_def)
qed

section \<open>One call at one end\<close>

text \<open>The bytes a call handed to the program, and the input and status of a call that wrote.\<close>

fun taken :: "stream_call \<Rightarrow> TransportStatus call_result \<Rightarrow> byte list" where
  "taken (CallReadSome out n) (Received st k out') = take (unat k) (mem_of out')"
| "taken _ _ = []"

fun written :: "stream_call \<Rightarrow> TransportStatus call_result \<Rightarrow> (byte list \<times> TransportStatus) list" where
  "written (CallWriteAll inp n) res = [(take (unat n) (mem_of inp), result_status res)]"
| "written _ _ = []"

text \<open>A piece of what was to be written: a prefix, and everything if the call reported Ok.\<close>

definition piece_of :: "byte list \<times> TransportStatus \<Rightarrow> byte list \<Rightarrow> bool" where
  "piece_of = (\<lambda>(input, st) p. prefix p input \<and> (st = Ok \<longrightarrow> p = input))"

definition carries :: "(byte list \<times> TransportStatus) list \<Rightarrow> byte list \<Rightarrow> bool" where
  "carries ws bs \<longleftrightarrow> (\<exists>ps. list_all2 piece_of ws ps \<and> bs = concat ps)"

lemma carries_Nil [simp]: "carries [] []" "carries [] bs \<longleftrightarrow> bs = []"
  by (simp_all add: carries_def)

lemma carries_append: "carries ws bs \<Longrightarrow> carries vs cs \<Longrightarrow> carries (ws @ vs) (bs @ cs)"
  unfolding carries_def by (metis concat_append list_all2_appendI)

lemma carries_one: "carries [(input, st)] p \<longleftrightarrow> prefix p input \<and> (st = Ok \<longrightarrow> p = input)"
  by (auto simp: carries_def piece_of_def list_all2_Cons1)

lemma carries_all_ok: "carries ws bs \<Longrightarrow> \<forall>(input, st) \<in> set ws. st = Ok \<Longrightarrow> bs = concat (map fst ws)"
proof (induction ws arbitrary: bs)
  case (Cons v ws)
  then obtain p ps where "piece_of v p" "list_all2 piece_of ws ps" "bs = p @ concat ps"
    by (auto simp: carries_def list_all2_Cons1)
  with Cons show ?case by (cases v) (auto simp: piece_of_def carries_def)
qed simp

text \<open>
  The calls considered: any but the client's Open, which would make a new connection, with buffers as large as the
  call says and sizes below \<open>2^31\<close>.
\<close>

fun admissible :: "stream_call \<Rightarrow> bool" where
  "admissible CallOpen = True"
| "admissible CallClose = True"
| "admissible (CallReadSome out n) = (grants out n \<and> unat n < 2 ^ 31)"
| "admissible (CallWriteAll inp n) = (grants inp n \<and> unat n < 2 ^ 31)"

lemma ReadSome_taken:
  assumes "TcpStreamTransport_ReadSome os mem n t w = ((st, k, out'), t', w')" and con: "end_contract os fd out inc"
    and "tcp_open t \<longrightarrow> tcp_socket t = fd" and "grants mem n" and "unat n < 2 ^ 31"
  shows "(tcp_open t' \<longrightarrow> tcp_socket t' = fd) \<and> inc w = take (unat k) (mem_of out') @ inc w' \<and> out w' = out w"
proof (cases "tcp_open t \<and> (mem \<noteq> None \<or> n = 0)")
  case False
  then show ?thesis using assms(1,3) by (cases "tcp_open t"; cases mem) (auto simp: ReadSome_closed ReadSome_null)
next
  case True
  then have fd: "tcp_socket t = fd" using assms(3) by simp
  note D = end_contractD [OF con] and wait = keepsD [OF end_contractD(3) [OF con]] keepsD [OF end_contractD(4) [OF con]]
  from assms(1) conjunct1 [OF True] conjunct2 [OF True] show ?thesis
  proof (cases rule: TcpStreamTransport_ReadSome_cases)
    case (received w1 r bs w2)
    then obtain buf where buf: "mem = Some buf" using True by auto
    have "sys_recv os fd n w1 = ((r, bs), w2)" using received(3) assms(5) fd by (simp add: size_cast_id)
    note recv = end_contract_recv [OF con this]
    have "ssize_to_int r = r" using recv assms(5) by (auto simp: ssize_to_int_small)
    moreover have "take (unat k) (mem_of out') = bs"
      using recv received(4,5) calculation buf unat_of_nat_le [of "length bs" n]
      by (cases "bs = []") (auto simp: int_to_size_of_nat)
    moreover have "inc w1 = inc w" "out w1 = out w" using wait received(2) by metis+
    ultimately show ?thesis using recv received(6,7) fd D(5,6) by auto
  qed (use fd wait in auto)
qed

lemma WriteAll_written:
  assumes "TcpStreamTransport_WriteAll os inp n t w = Some (st, t', w')" and con: "end_contract os fd out inc"
    and "tcp_open t \<longrightarrow> tcp_socket t = fd" and "grants inp n" and "unat n < 2 ^ 31"
  shows "t' = t \<and> inc w' = inc w \<and> (\<exists>p. out w' = out w @ p \<and> carries [(take (unat n) (mem_of inp), st)] p)"
proof (cases "tcp_open t \<and> (inp \<noteq> None \<or> n = 0)")
  case False
  then show ?thesis using assms(1)
    by (cases "tcp_open t") (auto simp: TcpStreamTransport_WriteAll_def carries_one)
next
  case True
  note D = end_contractD [OF con]
  from True assms(1,3) have loop: "write_loop (WaitForSocket os fd False (tcp_writeTimeout (tcp_options t)))
      (socket_put os fd) (\<lambda>w. IsWouldBlock os (LastSocketError os w)) (mem_of inp) n 0 w = Some (st, w')" and "t' = t"
    by (auto simp: TcpStreamTransport_WriteAll_def split: option.splits)
  have "unat n \<le> length (mem_of inp)" using True assms(4) by (cases inp) auto
  from write_loop_sound [OF loop D(3) socket_put_puts [OF D(1) assms(5)] this]
  obtain k where "k \<le> unat n" "out w' = out w @ take k (mem_of inp)" "st = Ok \<longleftrightarrow> k = unat n" by auto
  then have "carries [(take (unat n) (mem_of inp), st)] (take k (mem_of inp))"
    by (auto simp: carries_one prefix_def intro: exI [of _ "take (unat n - k) (drop k (mem_of inp))"])
      (metis le_add_diff_inverse take_add)
  moreover have "inc w' = inc w" using write_loop_keeps [OF loop D(4) socket_put_keeps [OF D(2)]] by simp
  ultimately show ?thesis using \<open>t' = t\<close> \<open>out w' = _\<close> by blast
qed

lemma call_carries:
  assumes "stream_exec_step (TcpStreamTransport_methods os) call (t, w) = Some (res, t', w')"
    and con: "end_contract os fd out inc" and "tcp_open t \<longrightarrow> tcp_socket t = fd"
    and "admissible call" and "call \<noteq> CallOpen"
  shows "(tcp_open t' \<longrightarrow> tcp_socket t' = fd) \<and> inc w = taken call res @ inc w' \<and>
    (\<exists>p. out w' = out w @ p \<and> carries (written call res) p)"
proof (cases call)
  case CallClose
  with assms(1) show ?thesis
    using end_contractD(5,6) [OF con] by (auto simp: TcpStreamTransport_Close_def Let_def)
next
  case (CallReadSome mem n)
  with assms(1) obtain st k out' where "TcpStreamTransport_ReadSome os mem n t w = ((st, k, out'), t', w')"
    "res = Received st k out'" by (auto split: prod.splits)
  with ReadSome_taken [OF this(1) con assms(3)] assms(4) CallReadSome show ?thesis by simp
next
  case (CallWriteAll inp n)
  with assms(1) obtain st where "TcpStreamTransport_WriteAll os inp n t w = Some (st, t', w')" "res = Returned st"
    by auto
  with WriteAll_written [OF this(1) con assms(3)] assms(3,4) CallWriteAll show ?thesis by simp
qed (use assms(5) in simp)

lemma accepted_call_carries:
  assumes "stream_exec_step (AcceptedTcpStream_methods os) call (a, w) = Some (res, a', w')"
    and "end_contract os fd out inc" and "acc_open a \<longrightarrow> acc_socket a = fd" and "admissible call"
  shows "(acc_open a' \<longrightarrow> acc_socket a' = fd) \<and> inc w = taken call res @ inc w' \<and>
    (\<exists>p. out w' = out w @ p \<and> carries (written call res) p)"
proof (cases "call = CallOpen")
  case True
  with assms(1,3) show ?thesis by (auto simp: AcceptedTcpStream_Open_def split: if_splits)
next
  case False
  with assms(1) have "stream_exec_step (TcpStreamTransport_methods os) call (as_tcp a, w) = Some (res, as_tcp a', w')"
    by (cases call; cases "AcceptedTcpStream_Close os a w") (auto split: prod.splits dest!: as_tcp_results)
  from call_carries [OF this assms(2) _ assms(4) False] assms(3) show ?thesis by simp
qed

section \<open>Both ends\<close>

datatype side = ClientSide | ServerSide

type_synonym 'w pair_state = "TcpStreamTransport \<times> AcceptedTcpStream \<times> 'w"

fun pair_step ::
  "'w posix \<Rightarrow> side \<times> stream_call \<Rightarrow> 'w pair_state \<Rightarrow> (TransportStatus call_result \<times> 'w pair_state) option" where
  "pair_step os (ClientSide, call) (t, a, w) =
     map_option (\<lambda>(res, t', w'). (res, t', a, w')) (stream_exec_step (TcpStreamTransport_methods os) call (t, w))"
| "pair_step os (ServerSide, call) (t, a, w) =
     map_option (\<lambda>(res, a', w'). (res, t, a', w')) (stream_exec_step (AcceptedTcpStream_methods os) call (a, w))"

type_synonym pair_log = "(side \<times> stream_call \<times> TransportStatus call_result) list"

fun pair_exec :: "'w posix \<Rightarrow> (side \<times> stream_call) list \<Rightarrow> 'w pair_state \<Rightarrow> (pair_log \<times> 'w pair_state) option" where
  "pair_exec os [] s = Some ([], s)"
| "pair_exec os ((x, call) # cs) s =
     (case pair_step os (x, call) s of
        None \<Rightarrow> None
      | Some (res, s1) \<Rightarrow>
          (case pair_exec os cs s1 of None \<Rightarrow> None | Some (log, s2) \<Rightarrow> Some ((x, call, res) # log, s2)))"

text \<open>What the reads of one side delivered, and what its WriteAll calls were given, each with its status.\<close>

definition delivered :: "side \<Rightarrow> pair_log \<Rightarrow> byte list" where
  "delivered x log = concat (map (\<lambda>(y, call, res). if y = x then taken call res else []) log)"

definition writes :: "side \<Rightarrow> pair_log \<Rightarrow> (byte list \<times> TransportStatus) list" where
  "writes x log = concat (map (\<lambda>(y, call, res). if y = x then written call res else []) log)"

lemma log_simps [simp]:
  "delivered x [] = []" "writes x [] = []"
  "delivered x ((y, call, res) # log) = (if y = x then taken call res else []) @ delivered x log"
  "writes x ((y, call, res) # log) = (if y = x then written call res else []) @ writes x log"
  by (simp_all add: delivered_def writes_def)

lemma pair_exec_carries:
  assumes "pair_exec os calls (t, a, w) = Some (log, t', a', w')"
    and con: "end_contract os c up down" "end_contract os s down up"
    and "tcp_open t \<longrightarrow> tcp_socket t = c" and "acc_open a \<longrightarrow> acc_socket a = s"
    and "\<forall>(x, call) \<in> set calls. admissible call" and "(ClientSide, CallOpen) \<notin> set calls"
  shows "(\<exists>p. up w @ p = delivered ServerSide log @ up w' \<and> carries (writes ClientSide log) p) \<and>
    (\<exists>p. down w @ p = delivered ClientSide log @ down w' \<and> carries (writes ServerSide log) p)"
  using assms(1,4-)
proof (induction calls arbitrary: t a w log)
  case (Cons xc calls)
  obtain x call where xc: "xc = (x, call)" by (cases xc)
  from Cons.prems(1) xc obtain res t1 a1 w1 log1 where step: "pair_step os (x, call) (t, a, w) = Some (res, t1, a1, w1)"
    and rest: "pair_exec os calls (t1, a1, w1) = Some (log1, t', a', w')" and log: "log = (x, call, res) # log1"
    by (auto split: option.splits)
  have call: "admissible call" "x = ClientSide \<Longrightarrow> call \<noteq> CallOpen" using Cons.prems xc by auto
  show ?case
  proof (cases x)
    case ClientSide
    with step have "stream_exec_step (TcpStreamTransport_methods os) call (t, w) = Some (res, t1, w1)" "a1 = a" by auto
    with call_carries [OF this(1) con(1) Cons.prems(2) call(1) call(2) [OF ClientSide]] Cons.IH [OF rest] Cons.prems
    show ?thesis unfolding log ClientSide by simp (metis append_assoc carries_append)
  next
    case ServerSide
    with step have "stream_exec_step (AcceptedTcpStream_methods os) call (a, w) = Some (res, a1, w1)" "t1 = t" by auto
    with accepted_call_carries [OF this(1) con(2) Cons.prems(3) call(1)] Cons.IH [OF rest] Cons.prems
    show ?thesis unfolding log ServerSide by simp (metis append_assoc carries_append)
  qed
qed simp

text \<open>
  C5. A connection between a client stream and an accepted stream carries bytes faithfully in both directions, whatever
  the two programs do with their ends (ReadSome, WriteAll, Close, in any interleaving, with sizes below \<open>2^31\<close>) and
  whatever fails: what the reads at one end delivered, followed by what is still in flight, is the concatenation, in
  order, of one piece per WriteAll at the other end; each piece is a prefix of that call's input, and the whole input
  if the call reported Ok. So if every WriteAll reported Ok, the reader got a prefix of what was written, with no byte
  lost, repeated or out of order, and all of it once nothing is in flight.
\<close>

theorem tcp_end_to_end:
  assumes "pair_exec os calls (t, a, w) = Some (log, t', a', w')"
    and "end_contract os (tcp_socket t) up down" and "end_contract os (acc_socket a) down up"
    and "up w = []" and "down w = []"
    and "\<forall>(x, call) \<in> set calls. admissible call" and "(ClientSide, CallOpen) \<notin> set calls"
  shows "(\<exists>pieces. list_all2 (\<lambda>(input, st) p. prefix p input \<and> (st = Ok \<longrightarrow> p = input)) (writes ClientSide log) pieces \<and>
      delivered ServerSide log @ up w' = concat pieces) \<and>
    (\<exists>pieces. list_all2 (\<lambda>(input, st) p. prefix p input \<and> (st = Ok \<longrightarrow> p = input)) (writes ServerSide log) pieces \<and>
      delivered ClientSide log @ down w' = concat pieces) \<and>
    ((\<forall>(input, st) \<in> set (writes ClientSide log). st = Ok) \<longrightarrow>
      delivered ServerSide log @ up w' = concat (map fst (writes ClientSide log))) \<and>
    ((\<forall>(input, st) \<in> set (writes ServerSide log). st = Ok) \<longrightarrow>
      delivered ClientSide log @ down w' = concat (map fst (writes ServerSide log)))"
proof -
  from pair_exec_carries [OF assms(1-3) _ _ assms(6,7)] assms(4,5)
  have "carries (writes ClientSide log) (delivered ServerSide log @ up w')"
    "carries (writes ServerSide log) (delivered ClientSide log @ down w')" by auto
  then show ?thesis using carries_all_ok unfolding carries_def piece_of_def by blast
qed

text \<open>
  A system with one connection between the descriptors 3 and 4: up to four bytes at a time go up, segments come down,
  and the results of select are scripted. The client writes six bytes, the server reads four, replies and closes; the
  client reads the reply and then meets the end of the stream. Two bytes stay in flight.
\<close>

definition sim_pipe_os :: "sim posix" where
  "sim_pipe_os = sim_os
     \<lparr>sys_send := (\<lambda>fd mem n w. if fd = 3 then sim_transmit mem n w
         else (uint n, w\<lparr>sim_in := sim_in w @ [take (unat n) mem]\<rparr>)),
      sys_recv := (\<lambda>fd n w. if fd = 3 then sim_receive n w
         else let k = min (unat n) (length (sim_out w))
              in ((int k, take k (sim_out w)), w\<lparr>sim_out := drop k (sim_out w)\<rparr>))\<rparr>"

definition sim_down :: "sim \<Rightarrow> byte list" where
  "sim_down w = concat (sim_in w)"

lemma sim_pipe_ends: "end_contract sim_pipe_os 3 sim_out sim_down" "end_contract sim_pipe_os 4 sim_down sim_out"
proof -
  have "keeps sim_down (sim_transmit mem n)" for mem n
    by (auto simp: keeps_def sim_transmit_def sim_down_def Let_def)
  moreover have "keeps sim_down (sys_select sim_os n r s tv)" "keeps sim_out (sys_select sim_os n r s tv)" for n r s tv
    by (auto simp: keeps_def sim_os_def sim_down_def split: list.splits)
  moreover have "(r = -1 \<and> bs = [] \<or> r = int (length bs) \<and> length bs \<le> unat n) \<and>
      sim_down w = bs @ sim_down w' \<and> sim_out w' = sim_out w" if "sim_receive n w = ((r, bs), w')" for n w r bs w'
    using that by (auto simp: sim_receive_def sim_down_def Let_def split: list.splits)
  ultimately show "end_contract sim_pipe_os 3 sim_out sim_down"
    using sim_transmits
    by (simp add: end_contract_def sim_pipe_os_def) (simp add: sim_os_def keeps_def sim_down_def)
  show "end_contract sim_pipe_os 4 sim_down sim_out"
    by (auto simp: end_contract_def sim_pipe_os_def sim_os_def keeps_def transmits_def sim_down_def Let_def
        split: list.splits)
qed

definition sim_accepted :: AcceptedTcpStream where
  "sim_accepted = AcceptedTcpStream_new 4 \<lparr>milliseconds = 5000\<rparr> \<lparr>milliseconds = 5000\<rparr>"

definition sim_dialogue :: "(side \<times> stream_call) list" where
  "sim_dialogue = [(ClientSide, CallWriteAll (Some [1, 2, 3, 4, 5, 6]) 6), (ServerSide, CallReadSome (Some [0, 0, 0, 0]) 4),
     (ServerSide, CallWriteAll (Some [7, 8]) 2), (ServerSide, CallClose),
     (ClientSide, CallReadSome (Some [0, 0, 0]) 3), (ClientSide, CallReadSome (Some [0, 0, 0]) 3)]"

definition sim_dialogue_log :: pair_log where
  "sim_dialogue_log =
     [(ClientSide, CallWriteAll (Some [1, 2, 3, 4, 5, 6]) 6, Returned Ok),
      (ServerSide, CallReadSome (Some [0, 0, 0, 0]) 4, Received Ok 4 (Some [1, 2, 3, 4])),
      (ServerSide, CallWriteAll (Some [7, 8]) 2, Returned Ok), (ServerSide, CallClose, Returned Ok),
      (ClientSide, CallReadSome (Some [0, 0, 0]) 3, Received Ok 2 (Some [7, 8, 0])),
      (ClientSide, CallReadSome (Some [0, 0, 0]) 3, Received ConnectionClosed 0 (Some [0, 0, 0]))]"

lemma sim_dialogue_runs:
  "pair_exec sim_pipe_os sim_dialogue (sim_tcp, sim_accepted, sim_init) =
     Some (sim_dialogue_log, sim_tcp\<lparr>tcp_socket := -1, tcp_open := False\<rparr>,
       sim_accepted\<lparr>acc_socket := -1, acc_open := False\<rparr>, sim_init\<lparr>sim_out := [5, 6]\<rparr>)"
  by (simp add: sim_dialogue_def sim_dialogue_log_def TcpStreamTransport_WriteAll_def AcceptedTcpStream_WriteAll_def
      TcpStreamTransport_ReadSome_def AcceptedTcpStream_ReadSome_def AcceptedTcpStream_Close_def TcpStreamTransport_Close_def
      CloseNativeSocket_def server_helpers sim_accepted_def AcceptedTcpStream_new_def
      sim_tcp_def write_loop.simps WaitForSocket_def socket_put_def sim_pipe_os_def
      sim_eval size_to_int_small int_to_size_uint ssize_to_int_small int_to_size_def)

theorem tcp_end_to_end_witness:
  "delivered ServerSide sim_dialogue_log = [1, 2, 3, 4] \<and>
   delivered ServerSide sim_dialogue_log @ [5, 6] = concat (map fst (writes ClientSide sim_dialogue_log)) \<and>
   delivered ClientSide sim_dialogue_log = concat (map fst (writes ServerSide sim_dialogue_log))"
proof -
  have "\<forall>(x, call) \<in> set sim_dialogue. admissible call" "(ClientSide, CallOpen) \<notin> set sim_dialogue"
    "\<forall>(input, st) \<in> set (writes x sim_dialogue_log). st = Ok" for x
    by (auto simp: sim_dialogue_def sim_dialogue_log_def split: if_splits)
  with tcp_end_to_end [OF sim_dialogue_runs, of sim_out sim_down] sim_pipe_ends show ?thesis
    by (simp add: sim_tcp_def sim_accepted_def AcceptedTcpStream_new_def sim_init_def sim_down_def)
      (simp add: sim_dialogue_log_def)
qed

end
