(* ===== verification/Win32_Os.thy ===== *)
theory Win32_Os
  imports Posix_Os
begin

text \<open>
  The Windows calls the \<^verbatim>\<open>_WIN32\<close> branches of the sources make, a parameter like the POSIX calls of
  \<open>Posix_Os\<close>: a record \<open>wos\<close> of functions on an opaque world. A \<^verbatim>\<open>HANDLE\<close> and a \<^verbatim>\<open>SOCKET\<close> are 64 bits wide, a
  \<^verbatim>\<open>DWORD\<close> and a \<^verbatim>\<open>u_long\<close> are 32 bits, a C \<^verbatim>\<open>int\<close> result is a 32-bit word read as two's complement.
  \<^verbatim>\<open>INVALID_HANDLE_VALUE\<close> and \<^verbatim>\<open>INVALID_SOCKET\<close> are all ones. What is relied on is stated as contracts:

  \<^item> \<open>file_contract wos handles\<close>: which calls create and release file handles; a read stores at most what
    it was asked for and reports how much, a write reports at most what it was given;
  \<^item> \<open>write_file_contract wos h out\<close>: a write hands a prefix of its buffer to the device, of the
    length it reports;
  \<^item> \<open>winsock_contract wos socks\<close>: which calls create and release sockets; \<open>runtime_contract wos users\<close>: which
    calls start and stop the socket library;
  \<^item> \<open>query_contract wos targets\<close>: \<open>targets\<close> gives, for each device name that exists while the names are queried, how many
    characters its targets take; \<^verbatim>\<open>QueryDosDevice\<close> stores and returns that many when the buffer is large enough, and fails
    with 0 when it is too small (\<^verbatim>\<open>ERROR_INSUFFICIENT_BUFFER\<close>) or the name does not exist.
\<close>

type_synonym HANDLE = "64 word"
type_synonym SOCKET = "64 word"
type_synonym DWORD = "32 word"
type_synonym c_int = "32 word"

abbreviation INVALID_HANDLE_VALUE :: HANDLE where "INVALID_HANDLE_VALUE \<equiv> - 1"
abbreviation INVALID_SOCKET :: SOCKET where "INVALID_SOCKET \<equiv> - 1"

record win32_constants =
  c_GENERIC_READ :: DWORD
  c_GENERIC_WRITE :: DWORD
  c_OPEN_EXISTING :: DWORD
  c_WSAEWOULDBLOCK :: int
  c_WSAEINPROGRESS :: int
  c_FIONBIO :: int
  c_FIONREAD :: int
  w_AF_UNSPEC :: int
  w_AF_INET :: int
  w_AF_INET6 :: int
  w_SOCK_STREAM :: int
  w_SOCK_DGRAM :: int
  w_IPPROTO_TCP :: int
  w_IPPROTO_UDP :: int
  w_AI_PASSIVE :: int
  w_SOL_SOCKET :: int
  w_SO_REUSEADDR :: int
  w_SO_ERROR :: int

record 'w win32 =
  wc :: win32_constants
  win_CreateFileA :: "string \<Rightarrow> DWORD \<Rightarrow> DWORD \<Rightarrow> DWORD \<Rightarrow> DWORD \<Rightarrow> 'w \<Rightarrow> HANDLE \<times> 'w"
  win_CloseHandle :: "HANDLE \<Rightarrow> 'w \<Rightarrow> bool \<times> 'w"
  win_ReadFile :: "HANDLE \<Rightarrow> DWORD \<Rightarrow> 'w \<Rightarrow> (bool \<times> DWORD \<times> byte list) \<times> 'w"
  win_WriteFile :: "HANDLE \<Rightarrow> byte list \<Rightarrow> DWORD \<Rightarrow> 'w \<Rightarrow> (bool \<times> DWORD) \<times> 'w"
  win_QueryDosDeviceA :: "string \<Rightarrow> DWORD \<Rightarrow> 'w \<Rightarrow> DWORD \<times> 'w"
  win_WSAStartup :: "16 word \<Rightarrow> 'w \<Rightarrow> c_int \<times> 'w"
  win_WSACleanup :: "'w \<Rightarrow> 'w"
  win_WSAGetLastError :: "'w \<Rightarrow> int"
  win_getaddrinfo :: "string option \<Rightarrow> string \<Rightarrow> addrinfo_hints \<Rightarrow> 'w \<Rightarrow> (int \<times> addrinfo list) \<times> 'w"
  win_freeaddrinfo :: "addrinfo list \<Rightarrow> 'w \<Rightarrow> 'w"
  win_socket :: "int \<Rightarrow> int \<Rightarrow> int \<Rightarrow> 'w \<Rightarrow> SOCKET \<times> 'w"
  win_closesocket :: "SOCKET \<Rightarrow> 'w \<Rightarrow> c_int \<times> 'w"
  win_ioctlsocket :: "SOCKET \<Rightarrow> int \<Rightarrow> DWORD \<Rightarrow> 'w \<Rightarrow> (c_int \<times> DWORD) \<times> 'w"
  win_setsockopt :: "SOCKET \<Rightarrow> int \<Rightarrow> int \<Rightarrow> int \<Rightarrow> 'w \<Rightarrow> c_int \<times> 'w"
  win_getsockopt :: "SOCKET \<Rightarrow> int \<Rightarrow> int \<Rightarrow> 'w \<Rightarrow> (c_int \<times> c_int) \<times> 'w"
  win_bind :: "SOCKET \<Rightarrow> byte list \<Rightarrow> 'w \<Rightarrow> c_int \<times> 'w"
  win_connect :: "SOCKET \<Rightarrow> byte list \<Rightarrow> 'w \<Rightarrow> c_int \<times> 'w"
  win_listen :: "SOCKET \<Rightarrow> int \<Rightarrow> 'w \<Rightarrow> c_int \<times> 'w"
  win_accept :: "SOCKET \<Rightarrow> 'w \<Rightarrow> SOCKET \<times> 'w"
  win_getsockname :: "SOCKET \<Rightarrow> 'w \<Rightarrow> (c_int \<times> sockaddr_storage) \<times> 'w"
  win_select :: "int \<Rightarrow> SOCKET set option \<Rightarrow> SOCKET set option \<Rightarrow> timeval \<Rightarrow> 'w \<Rightarrow> c_int \<times> 'w"
  win_recv :: "SOCKET \<Rightarrow> int \<Rightarrow> 'w \<Rightarrow> (c_int \<times> byte list) \<times> 'w"
  win_send :: "SOCKET \<Rightarrow> byte list \<Rightarrow> int \<Rightarrow> 'w \<Rightarrow> c_int \<times> 'w"

section \<open>Files\<close>

definition yields_handle :: "('w \<Rightarrow> 64 word set) \<Rightarrow> ('w \<Rightarrow> 64 word \<times> 'w) \<Rightarrow> bool" where
  "yields_handle hs call \<longleftrightarrow>
     (\<forall>w h w'. call w = (h, w') \<longrightarrow>
        (if h = - 1 then hs w' = hs w else h \<notin> hs w \<and> hs w' = insert h (hs w)))"

lemma yields_handleD:
  "yields_handle hs call \<Longrightarrow> call w = (h, w') \<Longrightarrow>
   if h = - 1 then hs w' = hs w else h \<notin> hs w \<and> hs w' = insert h (hs w)"
  unfolding yields_handle_def by blast

definition file_contract :: "'w win32 \<Rightarrow> ('w \<Rightarrow> HANDLE set) \<Rightarrow> bool" where
  "file_contract wos handles \<longleftrightarrow>
     (\<forall>name access share disposition flags.
        yields_handle handles (win_CreateFileA wos name access share disposition flags)) \<and>
     (\<forall>h w. handles (snd (win_CloseHandle wos h w)) = handles w - {h}) \<and>
     (\<forall>h n. keeps handles (win_ReadFile wos h n)) \<and>
     (\<forall>h mem n. keeps handles (win_WriteFile wos h mem n)) \<and>
     (\<forall>h n w ok r bs w'. win_ReadFile wos h n w = ((ok, r, bs), w') \<longrightarrow>
        (if ok then unat r = length bs \<and> r \<le> n else bs = [])) \<and>
     (\<forall>h mem n w ok c w'. win_WriteFile wos h mem n w = ((ok, c), w') \<longrightarrow> c \<le> n)"

lemma file_contractD:
  assumes "file_contract wos handles"
  shows "yields_handle handles (win_CreateFileA wos name access share disposition flags)"
    "handles (snd (win_CloseHandle wos h w)) = handles w - {h}"
    "keeps handles (win_ReadFile wos h n)" "keeps handles (win_WriteFile wos h mem n)"
  using assms by (simp_all add: file_contract_def)

lemma file_contract_read:
  "file_contract wos handles \<Longrightarrow> win_ReadFile wos h n w = ((ok, r, bs), w') \<Longrightarrow>
   if ok then unat r = length bs \<and> r \<le> n else bs = []"
  unfolding file_contract_def by blast

lemma file_contract_write:
  "file_contract wos handles \<Longrightarrow> win_WriteFile wos h mem n w = ((ok, c), w') \<Longrightarrow> c \<le> n"
  unfolding file_contract_def by blast

definition write_file_contract :: "'w win32 \<Rightarrow> HANDLE \<Rightarrow> ('w \<Rightarrow> byte list) \<Rightarrow> bool" where
  "write_file_contract wos h out \<longleftrightarrow>
     (\<forall>mem n w ok c w'. win_WriteFile wos h mem n w = ((ok, c), w') \<longrightarrow>
        c \<le> n \<and> out w' = out w @ take (unat c) mem)"

lemma write_file_contractD:
  "write_file_contract wos h out \<Longrightarrow> win_WriteFile wos h mem n w = ((ok, c), w') \<Longrightarrow>
   c \<le> n \<and> out w' = out w @ take (unat c) mem"
  unfolding write_file_contract_def by blast

definition query_contract :: "'w win32 \<Rightarrow> (string \<rightharpoonup> nat) \<Rightarrow> bool" where
  "query_contract wos targets \<longleftrightarrow>
     (\<forall>name k. targets name = Some k \<longrightarrow> 0 < k) \<and>
     (\<forall>name n w. unat (fst (win_QueryDosDeviceA wos name n w)) =
        (case targets name of None \<Rightarrow> 0 | Some k \<Rightarrow> if k \<le> unat n then k else 0))"

lemma query_contractD:
  assumes "query_contract wos targets" and "win_QueryDosDeviceA wos name n w = (r, w')"
  shows "r \<noteq> 0 \<longleftrightarrow> (\<exists>k. targets name = Some k \<and> k \<le> unat n)"
proof -
  have "unat r = (case targets name of None \<Rightarrow> 0 | Some k \<Rightarrow> if k \<le> unat n then k else 0)"
    and "targets name = Some k \<Longrightarrow> 0 < k" for k
    using assms unfolding query_contract_def by (metis fst_conv, blast)
  then show ?thesis by (auto simp: unat_eq_0 [symmetric] split: option.splits if_splits)
qed

section \<open>Sockets\<close>

text \<open>
  \<open>winsock_neutral wos obs\<close>: the calls that neither create nor release a socket, and do not start or stop the
  library, leave the observation \<open>obs\<close> alone.
\<close>

definition winsock_neutral :: "'w win32 \<Rightarrow> ('w \<Rightarrow> 'a) \<Rightarrow> bool" where
  "winsock_neutral wos obs \<longleftrightarrow>
     (\<forall>node service hints. keeps obs (win_getaddrinfo wos node service hints)) \<and>
     (\<forall>as w. obs (win_freeaddrinfo wos as w) = obs w) \<and>
     (\<forall>s c a. keeps obs (win_ioctlsocket wos s c a)) \<and>
     (\<forall>s l n v. keeps obs (win_setsockopt wos s l n v)) \<and>
     (\<forall>s l n. keeps obs (win_getsockopt wos s l n)) \<and>
     (\<forall>s a. keeps obs (win_bind wos s a)) \<and>
     (\<forall>s a. keeps obs (win_connect wos s a)) \<and>
     (\<forall>s n. keeps obs (win_listen wos s n)) \<and>
     (\<forall>s. keeps obs (win_getsockname wos s)) \<and>
     (\<forall>n r s tv. keeps obs (win_select wos n r s tv)) \<and>
     (\<forall>s n. keeps obs (win_recv wos s n)) \<and>
     (\<forall>s mem n. keeps obs (win_send wos s mem n))"

definition winsock_contract :: "'w win32 \<Rightarrow> ('w \<Rightarrow> SOCKET set) \<Rightarrow> bool" where
  "winsock_contract wos socks \<longleftrightarrow>
     winsock_neutral wos socks \<and>
     (\<forall>d t p. yields_handle socks (win_socket wos d t p)) \<and>
     (\<forall>s. yields_handle socks (win_accept wos s)) \<and>
     (\<forall>s w. socks (snd (win_closesocket wos s w)) = socks w - {s}) \<and>
     (\<forall>v. keeps socks (win_WSAStartup wos v))"

text \<open>
  The library counts its users: a successful \<^verbatim>\<open>WSAStartup\<close> adds one, \<^verbatim>\<open>WSACleanup\<close> takes one away.
\<close>

definition runtime_contract :: "'w win32 \<Rightarrow> ('w \<Rightarrow> int) \<Rightarrow> bool" where
  "runtime_contract wos users \<longleftrightarrow>
     winsock_neutral wos users \<and>
     (\<forall>d t p. keeps users (win_socket wos d t p)) \<and>
     (\<forall>s. keeps users (win_accept wos s)) \<and>
     (\<forall>s. keeps users (win_closesocket wos s)) \<and>
     (\<forall>v w r w'. win_WSAStartup wos v w = (r, w') \<longrightarrow> users w' = users w + (if r = 0 then 1 else 0)) \<and>
     (\<forall>w. users (win_WSACleanup wos w) = users w - 1)"

text \<open>
  A receive stores at most what it was given room for and returns how much, or -1 and stores nothing. (A datagram
  receive into too small a buffer fails with \<^verbatim>\<open>WSAEMSGSIZE\<close> after filling the buffer; the library asks for the pending
  size first, and this case is left out.)
\<close>

definition win_recv_contract :: "'w win32 \<Rightarrow> bool" where
  "win_recv_contract wos \<longleftrightarrow>
     (\<forall>s n w r bs w'. win_recv wos s n w = ((r, bs), w') \<longrightarrow>
        (r = - 1 \<and> bs = []) \<or> (sint r = int (length bs) \<and> int (length bs) \<le> n))"

text \<open>
  \<^verbatim>\<open>FIONREAD\<close> on a datagram socket reports the amount of pending data in the network buffer, all queued
  datagrams together (not the next one alone, as on Linux).
\<close>

definition win_pending_contract :: "'w win32 \<Rightarrow> SOCKET \<Rightarrow> ('w \<Rightarrow> byte list list) \<Rightarrow> bool" where
  "win_pending_contract wos s inq \<longleftrightarrow>
     (\<forall>w r p w'. win_ioctlsocket wos s (c_FIONREAD (wc wos)) 0 w = ((r, p), w') \<longrightarrow>
        inq w' = inq w \<and> (r = 0 \<longrightarrow> unat p = length (concat (inq w))))"

end
