(* ===== verification/Win_Sim.thy ===== *)
theory Win_Sim
  imports Win32_Os
begin

text \<open>
  A small executable Windows system that keeps the contracts of \<open>Win32_Os\<close>, as \<open>Posix_Sim\<close> does for POSIX: it
  models no part of the repository, it shows that the hypotheses can hold, and the concrete instances of the
  theorems run on it. It has room for three handles and three sockets; writes take at most four bytes.
\<close>

record wsim =
  ws_handles :: "HANDLE list"
  ws_in :: "byte list list"
  ws_out :: "byte list"
  ws_present :: "string list"
  ws_started :: int
  ws_startup :: c_int
  ws_error :: int

definition fresh_handle :: "HANDLE list \<Rightarrow> HANDLE" where
  "fresh_handle hs = (case find (\<lambda>h. h \<notin> set hs) [4, 8, 12] of None \<Rightarrow> - 1 | Some h \<Rightarrow> h)"

definition wsim_new :: "wsim \<Rightarrow> HANDLE \<times> wsim" where
  "wsim_new w = (let h = fresh_handle (ws_handles w)
     in if h = - 1 then (- 1, w) else (h, w\<lparr>ws_handles := h # ws_handles w\<rparr>))"

definition wsim_close :: "HANDLE \<Rightarrow> wsim \<Rightarrow> wsim" where
  "wsim_close h w = w\<lparr>ws_handles := removeAll h (ws_handles w)\<rparr>"

definition wsim_take :: "nat \<Rightarrow> wsim \<Rightarrow> byte list \<times> wsim" where
  "wsim_take n w =
     (case ws_in w of
        [] \<Rightarrow> ([], w)
      | seg # rest \<Rightarrow> (take n seg, w\<lparr>ws_in := (if length seg \<le> n then rest else drop n seg # rest)\<rparr>))"

definition wsim_constants :: win32_constants where
  "wsim_constants = \<lparr>c_GENERIC_READ = 0x80000000, c_GENERIC_WRITE = 0x40000000, c_OPEN_EXISTING = 3,
     c_WSAEWOULDBLOCK = 10035, c_WSAEINPROGRESS = 10036, c_FIONBIO = 2147772030, c_FIONREAD = 1074030207,
     w_AF_UNSPEC = 0, w_AF_INET = 2, w_AF_INET6 = 23, w_SOCK_STREAM = 1, w_SOCK_DGRAM = 2, w_IPPROTO_TCP = 6,
     w_IPPROTO_UDP = 17, w_AI_PASSIVE = 1, w_SOL_SOCKET = 65535, w_SO_REUSEADDR = 4, w_SO_ERROR = 4103\<rparr>"

definition wsim_os :: "wsim win32" where
  "wsim_os = \<lparr>wc = wsim_constants,
     win_CreateFileA = (\<lambda>name access share disposition flags. wsim_new),
     win_CloseHandle = (\<lambda>h w. (True, wsim_close h w)),
     win_ReadFile = (\<lambda>h n w. case wsim_take (unat n) w of (bs, w') \<Rightarrow> ((True, of_nat (length bs), bs), w')),
     win_WriteFile = (\<lambda>h mem n w. let k = min (unat n) (min 4 (length mem))
        in ((True, of_nat k), w\<lparr>ws_out := ws_out w @ take k mem\<rparr>)),
     win_QueryDosDeviceA = (\<lambda>name n w. (if name \<in> set (ws_present w) then 1 else 0, w)),
     win_WSAStartup = (\<lambda>v w. (ws_startup w, if ws_startup w = 0 then w\<lparr>ws_started := ws_started w + 1\<rparr> else w)),
     win_WSACleanup = (\<lambda>w. w\<lparr>ws_started := ws_started w - 1\<rparr>),
     win_WSAGetLastError = ws_error,
     win_getaddrinfo = (\<lambda>node service hints w.
        ((0, [\<lparr>ai_family = 2, ai_socktype = 1, ai_protocol = 6, ai_addr = [127, 0, 0, 1]\<rparr>]), w)),
     win_freeaddrinfo = (\<lambda>as w. w),
     win_socket = (\<lambda>d t p. wsim_new),
     win_closesocket = (\<lambda>s w. (0, wsim_close s w)),
     win_ioctlsocket = (\<lambda>s c a w. 
        (if length (concat (ws_in w)) < 2 ^ 32 then (0, of_nat (length (concat (ws_in w)))) else (1, 0), w)),
     win_setsockopt = (\<lambda>s l n v w. (0, w)),
     win_getsockopt = (\<lambda>s l n w. ((0, 0), w)),
     win_bind = (\<lambda>s a w. (0, w)),
     win_connect = (\<lambda>s a w. (- 1, w\<lparr>ws_error := 10035\<rparr>)),
     win_listen = (\<lambda>s n w. (0, w)),
     win_accept = (\<lambda>s. wsim_new),
     win_getsockname = (\<lambda>s w. ((0, \<lparr>ss_family = 2, sin_port = (15, 219), sin6_port = (0, 0)\<rparr>), w)),
     win_select = (\<lambda>n r s tv w. (1, w)),
     win_recv = (\<lambda>s n w. if n < 0 then ((- 1, []), w) else case wsim_take (min (nat n) 1024) w of (bs, w') \<Rightarrow> ((of_nat (length bs), bs), w')),
     win_send = (\<lambda>s mem n w. let k = min (nat n) (min 4 (length mem))
        in (of_nat k, w\<lparr>ws_out := ws_out w @ take k mem\<rparr>))\<rparr>"

definition wsim_init :: wsim where
  "wsim_init = \<lparr>ws_handles = [], ws_in = [], ws_out = [], ws_present = [''COM1'', ''COM3'', ''COM12''],
     ws_started = 0, ws_startup = 0, ws_error = 0\<rparr>"

abbreviation wsim_set :: "wsim \<Rightarrow> HANDLE set" where
  "wsim_set w \<equiv> set (ws_handles w)"

lemma wsim_new_yields: "yields_handle wsim_set wsim_new"
  unfolding yields_handle_def
proof (intro allI impI)
  fix w h w'
  assume new: "wsim_new w = (h, w')"
  have "fresh_handle hs = - 1 \<or> fresh_handle hs \<notin> set hs" for hs
    by (auto simp: fresh_handle_def find_Some_iff split: option.splits)
  with new show "if h = - 1 then wsim_set w' = wsim_set w else h \<notin> wsim_set w \<and> wsim_set w' = insert h (wsim_set w)"
    by (auto simp: wsim_new_def Let_def split: if_splits)
qed

lemma wsim_close_set [simp]: "wsim_set (wsim_close h w) = wsim_set w - {h}"
  by (simp add: wsim_close_def)

lemma wsim_take_keeps: "wsim_take n w = (bs, w') \<Longrightarrow> ws_handles w' = ws_handles w \<and> length bs \<le> n"
  by (auto simp: wsim_take_def split: list.splits)

lemma unat_of_nat_dword: "k \<le> unat (n :: DWORD) \<Longrightarrow> unat (of_nat k :: DWORD) = k"
  using unsigned_less [of n, where ?'a = nat] by (simp add: unat_of_nat)

lemma wsim_file_contract: "file_contract wsim_os wsim_set"
  unfolding file_contract_def
proof (intro conjI allI impI)
  fix h n w ok r bs w'
  assume "win_ReadFile wsim_os h n w = ((ok, r, bs), w')"
  then have "ok" "r = of_nat (length bs)" "length bs \<le> unat n"
    using wsim_take_keeps by (auto simp: wsim_os_def split: prod.splits)
  then show "if ok then unat r = length bs \<and> r \<le> n else bs = []"
    by (simp add: unat_of_nat_dword word_le_nat_alt)
next
  fix h mem n w ok c w'
  assume "win_WriteFile wsim_os h mem n w = ((ok, c), w')"
  then have "c = of_nat (min (unat n) (min 4 (length mem)))" by (auto simp: wsim_os_def Let_def)
  then show "c \<le> n"
    using unat_of_nat_dword [of "min (unat n) (min 4 (length mem))" n] by (simp add: word_le_nat_alt)
qed (use wsim_new_yields wsim_take_keeps in
  \<open>auto simp: wsim_os_def keeps_def Let_def split: prod.splits\<close>)

lemma wsim_write_file_contract: "write_file_contract wsim_os h ws_out"
  unfolding write_file_contract_def
proof (intro allI impI)
  fix mem n w ok c w'
  assume "win_WriteFile wsim_os h mem n w = ((ok, c), w')"
  then have "c = of_nat (min (unat n) (min 4 (length mem)))"
    and "ws_out w' = ws_out w @ take (min (unat n) (min 4 (length mem))) mem"
    by (auto simp: wsim_os_def Let_def)
  then show "c \<le> n \<and> ws_out w' = ws_out w @ take (unat c) mem"
    using unat_of_nat_dword [of "min (unat n) (min 4 (length mem))" n] by (simp add: word_le_nat_alt)
qed

lemma wsim_neutral:
  assumes "\<And>n w. obs (snd (wsim_take n w)) = obs w" and "\<And>w x. obs (w\<lparr>ws_error := x\<rparr>) = obs w"
    and "\<And>w x. obs (w\<lparr>ws_out := x\<rparr>) = obs w"
  shows "winsock_neutral wsim_os obs"
  unfolding winsock_neutral_def keeps_def using assms
  by (intro conjI allI) (auto simp: wsim_os_def Let_def split_beta)

lemma wsim_winsock_contract: "winsock_contract wsim_os wsim_set"
proof -
  have "winsock_neutral wsim_os wsim_set" by (rule wsim_neutral) (auto simp: wsim_take_def split: list.splits)
  then show ?thesis
    unfolding winsock_contract_def
    using wsim_new_yields by (auto simp: wsim_os_def keeps_def)
qed

lemma wsim_runtime_contract: "runtime_contract wsim_os ws_started"
proof -
  have "winsock_neutral wsim_os ws_started" by (rule wsim_neutral) (auto simp: wsim_take_def split: list.splits)
  then show ?thesis
    unfolding runtime_contract_def
    by (auto simp: wsim_os_def keeps_def wsim_new_def wsim_close_def Let_def)
qed

lemma wsim_recv_contract: "win_recv_contract wsim_os"
  unfolding win_recv_contract_def
proof (intro allI impI)
  fix s n w r bs w'
  assume rc: "win_recv wsim_os s n w = ((r, bs), w')"
  show "r = - 1 \<and> bs = [] \<or> sint r = int (length bs) \<and> int (length bs) \<le> n"
  proof (cases "n < 0")
    case True
    with rc show ?thesis by (simp add: wsim_os_def)
  next
    case False
    with rc have r: "r = of_nat (length bs)" and le: "length bs \<le> min (nat n) 1024"
      using wsim_take_keeps by (fastforce simp: wsim_os_def split: prod.splits)+
    from le False have "length bs \<le> 1024" "int (length bs) \<le> n" by (simp, linarith)
    then show ?thesis
      unfolding r by (simp add: sint_uint unsigned_of_nat take_bit_nat_eq_self signed_take_bit_int_eq_self)
  qed
qed

lemma wsim_pending_contract: "win_pending_contract wsim_os s ws_in"
  by (auto simp: win_pending_contract_def wsim_os_def unat_of_nat)

lemmas wsim_eval = wsim_os_def wsim_constants_def wsim_init_def wsim_new_def wsim_close_def wsim_take_def
  fresh_handle_def Let_def

end
