(* ===== verification/Win_Sockets.thy ===== *)
theory Win_Sockets
  imports Win_Sim Tcp_Server Udp_Transport
begin

text \<open>
  The Windows branches of the three socket files. Each file keeps a socket library start-up in a function-local
  static and Windows versions of the native helpers; the methods are one source text for both builds.
  \<open>winsock wos\<close> presents the Windows calls as the system the common methods are modelled on, and
  the common helpers on it are proved to be the Windows helpers; so the Windows build's
  methods are the modelled methods on \<open>winsock wos\<close>, preceded in Open by the start-up. Theorems: the helpers
  agree, no socket leaks from any Open or session, what follows from a refused connect and from the Windows
  meaning of \<^verbatim>\<open>FIONREAD\<close>. The start-ups of a whole process are in \<open>Win_Process\<close>.
\<close>

section \<open>The socket library\<close>

record SocketRuntime =
  rt_ok :: bool

definition SocketRuntime_new :: "'w win32 \<Rightarrow> 'w \<Rightarrow> SocketRuntime \<times> 'w" where
  "SocketRuntime_new wos w =
     (case win_WSAStartup wos 0x0202 w of (r, w1) \<Rightarrow> (\<lparr>rt_ok = (r = 0)\<rparr>, w1))"

definition SocketRuntime_destroy :: "'w win32 \<Rightarrow> SocketRuntime \<Rightarrow> 'w \<Rightarrow> 'w" where
  "SocketRuntime_destroy wos rt w = (if rt_ok rt then win_WSACleanup wos w else w)"

definition SocketRuntime_Ok :: "SocketRuntime \<Rightarrow> bool" where
  "SocketRuntime_Ok rt = rt_ok rt"

text \<open>
  The static: \<open>None\<close> until the first call constructs it. \<open>runtime_exit\<close> is the end of the process, which
  destroys it if it was constructed.
\<close>

type_synonym runtime = "SocketRuntime option"

definition SocketRuntimeReady_win :: "'w win32 \<Rightarrow> runtime \<Rightarrow> 'w \<Rightarrow> bool \<times> runtime \<times> 'w" where
  "SocketRuntimeReady_win wos static w =
     (case static of
        Some rt \<Rightarrow> (SocketRuntime_Ok rt, static, w)
      | None \<Rightarrow> (case SocketRuntime_new wos w of (rt, w1) \<Rightarrow> (SocketRuntime_Ok rt, Some rt, w1)))"

definition runtime_exit :: "'w win32 \<Rightarrow> runtime \<Rightarrow> 'w \<Rightarrow> 'w" where
  "runtime_exit wos static w = (case static of None \<Rightarrow> w | Some rt \<Rightarrow> SocketRuntime_destroy wos rt w)"

section \<open>The native helpers\<close>

definition LastSocketError_win :: "'w win32 \<Rightarrow> 'w \<Rightarrow> int" where
  "LastSocketError_win wos w = win_WSAGetLastError wos w"

definition IsWouldBlock_win :: "'w win32 \<Rightarrow> int \<Rightarrow> bool" where
  "IsWouldBlock_win wos error \<longleftrightarrow> error = c_WSAEWOULDBLOCK (wc wos) \<or> error = c_WSAEINPROGRESS (wc wos)"

definition CloseNativeSocket_win :: "'w win32 \<Rightarrow> SOCKET \<Rightarrow> 'w \<Rightarrow> 'w" where
  "CloseNativeSocket_win wos socket w = snd (win_closesocket wos socket w)"

definition SetNonBlocking_win :: "'w win32 \<Rightarrow> SOCKET \<Rightarrow> 'w \<Rightarrow> bool \<times> 'w" where
  "SetNonBlocking_win wos socket w =
     (case win_ioctlsocket wos socket (c_FIONBIO (wc wos)) 1 w of ((r, _), w1) \<Rightarrow> (r = 0, w1))"

text \<open>Compiled for Windows, the wait passes the socket narrowed to \<^verbatim>\<open>int\<close> (an argument Windows ignores).\<close>

definition WaitForSocket_win ::
  "'w win32 \<Rightarrow> SOCKET \<Rightarrow> bool \<Rightarrow> TransportDuration \<Rightarrow> 'w \<Rightarrow> TransportStatus \<times> 'w" where
  "WaitForSocket_win wos socket waitForRead timeout w =
     (let readSet = (if waitForRead then {socket} else {});
          writeSet = (if waitForRead then {} else {socket})
      in case win_select wos (size_to_int (socket + 1))
                (if waitForRead then Some readSet else None)
                (if waitForRead then None else Some writeSet)
                (ToTimeval timeout) w of
           (result, w1) \<Rightarrow>
             (if 0 < sint result then (Ok, w1)
              else if sint result = 0 then (Timeout, w1)
              else (if waitForRead then ReadFailed else WriteFailed, w1)))"

definition CheckConnected_win :: "'w win32 \<Rightarrow> SOCKET \<Rightarrow> 'w \<Rightarrow> TransportStatus \<times> 'w" where
  "CheckConnected_win wos socket w =
     (case win_getsockopt wos socket (w_SOL_SOCKET (wc wos)) (w_SO_ERROR (wc wos)) w of
        ((r, error), w1) \<Rightarrow>
          (if r \<noteq> 0 then (OpenFailed, w1)
           else (if error = 0 then Ok else OpenFailed, w1)))"

text \<open>The listener's file and the datagram file repeat them; the datagram file's errno test is narrower.\<close>

definition SocketRuntime_new_server :: "'w win32 \<Rightarrow> 'w \<Rightarrow> SocketRuntime \<times> 'w" where
  "SocketRuntime_new_server wos w =
     (case win_WSAStartup wos 0x0202 w of (r, w1) \<Rightarrow> (\<lparr>rt_ok = (r = 0)\<rparr>, w1))"

definition SocketRuntime_destroy_server :: "'w win32 \<Rightarrow> SocketRuntime \<Rightarrow> 'w \<Rightarrow> 'w" where
  "SocketRuntime_destroy_server wos rt w = (if rt_ok rt then win_WSACleanup wos w else w)"

definition SocketRuntime_Ok_server :: "SocketRuntime \<Rightarrow> bool" where
  "SocketRuntime_Ok_server rt = rt_ok rt"

definition SocketRuntimeReady_server_win :: "'w win32 \<Rightarrow> runtime \<Rightarrow> 'w \<Rightarrow> bool \<times> runtime \<times> 'w" where
  "SocketRuntimeReady_server_win wos static w =
     (case static of
        Some rt \<Rightarrow> (SocketRuntime_Ok_server rt, static, w)
      | None \<Rightarrow> (case SocketRuntime_new_server wos w of (rt, w1) \<Rightarrow> (SocketRuntime_Ok_server rt, Some rt, w1)))"

definition LastSocketError_server_win :: "'w win32 \<Rightarrow> 'w \<Rightarrow> int" where
  "LastSocketError_server_win wos w = win_WSAGetLastError wos w"

definition IsWouldBlock_server_win :: "'w win32 \<Rightarrow> int \<Rightarrow> bool" where
  "IsWouldBlock_server_win wos error \<longleftrightarrow> error = c_WSAEWOULDBLOCK (wc wos) \<or> error = c_WSAEINPROGRESS (wc wos)"

definition CloseNativeSocket_server_win :: "'w win32 \<Rightarrow> SOCKET \<Rightarrow> 'w \<Rightarrow> 'w" where
  "CloseNativeSocket_server_win wos socket w = snd (win_closesocket wos socket w)"

definition SetNonBlocking_server_win :: "'w win32 \<Rightarrow> SOCKET \<Rightarrow> 'w \<Rightarrow> bool \<times> 'w" where
  "SetNonBlocking_server_win wos socket w =
     (case win_ioctlsocket wos socket (c_FIONBIO (wc wos)) 1 w of ((r, _), w1) \<Rightarrow> (r = 0, w1))"

definition SocketRuntime_new_udp :: "'w win32 \<Rightarrow> 'w \<Rightarrow> SocketRuntime \<times> 'w" where
  "SocketRuntime_new_udp wos w =
     (case win_WSAStartup wos 0x0202 w of (r, w1) \<Rightarrow> (\<lparr>rt_ok = (r = 0)\<rparr>, w1))"

definition SocketRuntime_destroy_udp :: "'w win32 \<Rightarrow> SocketRuntime \<Rightarrow> 'w \<Rightarrow> 'w" where
  "SocketRuntime_destroy_udp wos rt w = (if rt_ok rt then win_WSACleanup wos w else w)"

definition SocketRuntime_Ok_udp :: "SocketRuntime \<Rightarrow> bool" where
  "SocketRuntime_Ok_udp rt = rt_ok rt"

definition SocketRuntimeReady_udp_win :: "'w win32 \<Rightarrow> runtime \<Rightarrow> 'w \<Rightarrow> bool \<times> runtime \<times> 'w" where
  "SocketRuntimeReady_udp_win wos static w =
     (case static of
        Some rt \<Rightarrow> (SocketRuntime_Ok_udp rt, static, w)
      | None \<Rightarrow> (case SocketRuntime_new_udp wos w of (rt, w1) \<Rightarrow> (SocketRuntime_Ok_udp rt, Some rt, w1)))"

definition LastSocketError_udp_win :: "'w win32 \<Rightarrow> 'w \<Rightarrow> int" where
  "LastSocketError_udp_win wos w = win_WSAGetLastError wos w"

definition IsWouldBlock_udp_win :: "'w win32 \<Rightarrow> int \<Rightarrow> bool" where
  "IsWouldBlock_udp_win wos error \<longleftrightarrow> error = c_WSAEWOULDBLOCK (wc wos)"

definition CloseNativeSocket_udp_win :: "'w win32 \<Rightarrow> SOCKET \<Rightarrow> 'w \<Rightarrow> 'w" where
  "CloseNativeSocket_udp_win wos socket w = snd (win_closesocket wos socket w)"

definition SetNonBlocking_udp_win :: "'w win32 \<Rightarrow> SOCKET \<Rightarrow> 'w \<Rightarrow> bool \<times> 'w" where
  "SetNonBlocking_udp_win wos socket w =
     (case win_ioctlsocket wos socket (c_FIONBIO (wc wos)) 1 w of ((r, _), w1) \<Rightarrow> (r = 0, w1))"

definition PendingDatagramSize_win :: "'w win32 \<Rightarrow> SOCKET \<Rightarrow> 'w \<Rightarrow> size_t option \<times> 'w" where
  "PendingDatagramSize_win wos socket w =
     (case win_ioctlsocket wos socket (c_FIONREAD (wc wos)) 0 w of
        ((r, pending), w1) \<Rightarrow> (if r \<noteq> 0 then (None, w1) else (Some (ucast pending), w1)))"

section \<open>Windows sockets under the common methods\<close>

text \<open>
  The object keeps a socket as an \<^verbatim>\<open>intptr_t\<close> and only ever compares it with the invalid one and casts it back.
  \<open>fd_of\<close> is that number: -1 for \<^verbatim>\<open>INVALID_SOCKET\<close>, the unsigned value for any other socket. A blocking mode is
  read and set by two calls of \<^verbatim>\<open>fcntl\<close> on POSIX and by one call on Windows; the first of the two does nothing here.
  Descriptors of files play no role for sockets.
\<close>

definition fd_of :: "SOCKET \<Rightarrow> int" where
  "fd_of s = (if s = INVALID_SOCKET then - 1 else uint s)"

definition sock_of :: "int \<Rightarrow> SOCKET" where
  "sock_of fd = (if 0 \<le> fd \<and> fd < 2 ^ 64 - 1 then word_of_int fd else INVALID_SOCKET)"

definition winsock_constants :: "win32_constants \<Rightarrow> posix_constants" where
  "winsock_constants c = \<lparr>c_EAGAIN = c_WSAEWOULDBLOCK c, c_EWOULDBLOCK = c_WSAEWOULDBLOCK c,
     c_EINPROGRESS = c_WSAEINPROGRESS c, c_F_GETFL = 0, c_F_SETFL = 1, c_O_NONBLOCK = 1, c_O_RDWR = 0, c_O_NOCTTY = 0,
     c_AF_UNSPEC = w_AF_UNSPEC c, c_AF_INET = w_AF_INET c, c_AF_INET6 = w_AF_INET6 c, c_SOCK_STREAM = w_SOCK_STREAM c,
     c_SOCK_DGRAM = w_SOCK_DGRAM c, c_IPPROTO_TCP = w_IPPROTO_TCP c, c_IPPROTO_UDP = w_IPPROTO_UDP c,
     c_AI_PASSIVE = w_AI_PASSIVE c, c_SOL_SOCKET = w_SOL_SOCKET c, c_SO_REUSEADDR = w_SO_REUSEADDR c,
     c_SO_ERROR = w_SO_ERROR c\<rparr>"

definition winsock :: "'w win32 \<Rightarrow> 'w posix" where
  "winsock wos = \<lparr>pc = winsock_constants (wc wos),
     sys_errno = win_WSAGetLastError wos,
     sys_getaddrinfo = win_getaddrinfo wos,
     sys_freeaddrinfo = win_freeaddrinfo wos,
     sys_socket = (\<lambda>d t p w. map_prod fd_of id (win_socket wos d t p w)),
     sys_fcntl = (\<lambda>fd cmd arg w. if cmd = 0 then (0, w)
        else (case win_ioctlsocket wos (sock_of fd) (c_FIONBIO (wc wos)) 1 w of ((r, _), w1) \<Rightarrow> (sint r, w1))),
     sys_setsockopt = (\<lambda>fd l n v w. map_prod sint id (win_setsockopt wos (sock_of fd) l n v w)),
     sys_getsockopt = (\<lambda>fd l n w. map_prod (map_prod sint sint) id (win_getsockopt wos (sock_of fd) l n w)),
     sys_bind = (\<lambda>fd a w. map_prod sint id (win_bind wos (sock_of fd) a w)),
     sys_connect = (\<lambda>fd a w. map_prod sint id (win_connect wos (sock_of fd) a w)),
     sys_listen = (\<lambda>fd n w. map_prod sint id (win_listen wos (sock_of fd) n w)),
     sys_accept = (\<lambda>fd w. map_prod fd_of id (win_accept wos (sock_of fd) w)),
     sys_getsockname = (\<lambda>fd w. map_prod (map_prod sint id) id (win_getsockname wos (sock_of fd) w)),
     sys_select = (\<lambda>n r s tv w. map_prod sint id (win_select wos (size_to_int (word_of_int n))
        (map_option ((`) sock_of) r) (map_option ((`) sock_of) s) tv w)),
     sys_recv = (\<lambda>fd n w. map_prod (map_prod sint id) id (win_recv wos (sock_of fd) (size_to_int n) w)),
     sys_send = (\<lambda>fd mem n w. map_prod sint id (win_send wos (sock_of fd) mem (size_to_int n) w)),
     sys_ioctl_FIONREAD = (\<lambda>fd w.
        case win_ioctlsocket wos (sock_of fd) (c_FIONREAD (wc wos)) 0 w of ((r, p), w1) \<Rightarrow> ((sint r, uint p), w1)),
     sys_open = (\<lambda>name flags w. (- 1, w)),
     sys_read = (\<lambda>fd n w. ((- 1, []), w)),
     sys_write = (\<lambda>fd mem n w. (- 1, w)),
     sys_close = (\<lambda>fd w. map_prod sint id (win_closesocket wos (sock_of fd) w))\<rparr>"

lemma sock_of_fd_of [simp]: "sock_of (fd_of s) = s"
proof (cases "s = INVALID_SOCKET")
  case False
  have "uint (- 1 :: SOCKET) = 2 ^ 64 - 1" by (simp add: unsigned_minus_1_eq_mask mask_eq_exp_minus_1)
  then have "uint s \<noteq> 2 ^ 64 - 1" using False by (metis word_uint_eq_iff)
  then have "uint s < 2 ^ 64 - 1" using unsigned_less [of s, where ?'a = int] by simp
  with False show ?thesis by (simp add: sock_of_def fd_of_def)
qed (simp add: sock_of_def fd_of_def)

lemma fd_of_invalid [simp]: "fd_of s = kInvalidSocket \<longleftrightarrow> s = INVALID_SOCKET"
proof -
  have "uint s \<noteq> - 1" using uint_nonnegative [of s] by linarith
  then show ?thesis by (simp add: fd_of_def)
qed

lemma sint_zero_iff [simp]: "sint (r :: c_int) = 0 \<longleftrightarrow> r = 0"
proof
  assume "sint r = 0"
  moreover have "r = word_of_int (sint r)" by simp
  ultimately show "r = 0" by simp
qed simp

text \<open>
  A length that goes through \<^verbatim>\<open>int\<close> and a result that is an \<^verbatim>\<open>int\<close> reach the calls unchanged.
\<close>

lemma size_to_int_again: "size_to_int (int_to_size (size_to_int n)) = size_to_int n"
proof -
  have "(ucast (scast (x :: 32 word) :: size_t) :: 32 word) = x" for x
    by (rule bit_word_eqI) (auto simp: bit_simps)
  then show ?thesis by (simp add: size_to_int_def int_to_size_def)
qed

lemma ssize_to_int_sint: "ssize_to_int (sint (r :: c_int)) = sint r"
  by (simp add: ssize_to_int_def)

subsection \<open>The helpers agree\<close>

lemma winsock_SetNonBlocking: "SetNonBlocking (winsock wos) (fd_of s) = SetNonBlocking_win wos s"
  by (auto simp: fun_eq_iff SetNonBlocking_def SetNonBlocking_win_def winsock_def winsock_constants_def split: prod.splits)

lemma word_of_fd_of [simp]: "word_of_int (fd_of s) = s"
  by (simp add: fd_of_def)

lemma winsock_WaitForSocket: "WaitForSocket (winsock wos) (fd_of s) = WaitForSocket_win wos s"
  by (auto simp: fun_eq_iff WaitForSocket_def WaitForSocket_win_def winsock_def Let_def map_prod_def split_beta)

lemma winsock_IsWouldBlock: "IsWouldBlock (winsock wos) = IsWouldBlock_win wos"
  by (auto simp: fun_eq_iff IsWouldBlock_def IsWouldBlock_win_def winsock_def winsock_constants_def)

lemma winsock_LastSocketError: "LastSocketError (winsock wos) = LastSocketError_win wos"
  by (simp add: fun_eq_iff LastSocketError_def LastSocketError_win_def winsock_def)

lemma winsock_CloseNativeSocket: "CloseNativeSocket (winsock wos) (fd_of s) = CloseNativeSocket_win wos s"
  by (simp add: fun_eq_iff CloseNativeSocket_def CloseNativeSocket_win_def winsock_def)

lemma winsock_CheckConnected: "CheckConnected (winsock wos) (fd_of s) = CheckConnected_win wos s"
  by (auto simp: fun_eq_iff CheckConnected_def CheckConnected_win_def winsock_def winsock_constants_def split: prod.splits)

lemma winsock_PendingDatagramSize: "PendingDatagramSize (winsock wos) (fd_of s) = PendingDatagramSize_win wos s"
proof -
  have "int_to_size (uint p) = ucast p" for p :: DWORD
    by (simp add: int_to_size_def)
  then show ?thesis
    by (auto simp: fun_eq_iff PendingDatagramSize_def PendingDatagramSize_win_def winsock_def split: prod.splits)
qed

lemma SocketRuntimeReady_copies:
  "SocketRuntimeReady_server_win = SocketRuntimeReady_win" "SocketRuntimeReady_udp_win = SocketRuntimeReady_win"
  "SocketRuntime_destroy_server = SocketRuntime_destroy" "SocketRuntime_destroy_udp = SocketRuntime_destroy"
  by (auto simp: SocketRuntime_Ok_server_def SocketRuntime_Ok_udp_def SocketRuntime_destroy_server_def
      SocketRuntime_destroy_udp_def SocketRuntime_destroy_def fun_eq_iff SocketRuntimeReady_server_win_def SocketRuntimeReady_udp_win_def SocketRuntimeReady_win_def
      SocketRuntime_new_server_def SocketRuntime_new_udp_def SocketRuntime_new_def SocketRuntime_Ok_def split: option.splits)

lemma native_helper_copies:
  "IsWouldBlock_server_win = IsWouldBlock_win"
  "LastSocketError_server_win = LastSocketError_win" "LastSocketError_udp_win = LastSocketError_win"
  "CloseNativeSocket_server_win = CloseNativeSocket_win" "CloseNativeSocket_udp_win = CloseNativeSocket_win"
  "SetNonBlocking_server_win = SetNonBlocking_win" "SetNonBlocking_udp_win = SetNonBlocking_win"
  by (simp_all add: fun_eq_iff IsWouldBlock_server_win_def IsWouldBlock_win_def LastSocketError_server_win_def
      LastSocketError_udp_win_def LastSocketError_win_def CloseNativeSocket_server_win_def CloseNativeSocket_udp_win_def
      CloseNativeSocket_win_def SetNonBlocking_server_win_def SetNonBlocking_udp_win_def SetNonBlocking_win_def)

lemma winsock_IsWouldBlock_udp: "IsWouldBlock_udp (winsock wos) = IsWouldBlock_udp_win wos"
  by (simp add: fun_eq_iff IsWouldBlock_udp_def IsWouldBlock_udp_win_def winsock_def winsock_constants_def)

lemmas winsock_helpers = winsock_SetNonBlocking winsock_WaitForSocket winsock_IsWouldBlock winsock_LastSocketError
  winsock_CloseNativeSocket winsock_CheckConnected winsock_PendingDatagramSize winsock_IsWouldBlock_udp

text \<open>
  The Windows helpers are the POSIX helpers over the Windows calls: for every socket, the non-blocking
  switch, the readiness wait, the would-block test, the last error, the close, the check of a finished connect
  and the pending datagram size of the \<^verbatim>\<open>_WIN32\<close> branches return what the common model's helpers return on the
  system that presents the Windows calls, with the same effect; and the casts of a size to \<^verbatim>\<open>int\<close> and of a
  result to \<^verbatim>\<open>int\<close> around \<^verbatim>\<open>recv\<close> and \<^verbatim>\<open>send\<close> pass exactly the value the Windows call is given and returns. The
  datagram file's narrower would-block test is kept apart.
\<close>

lemma win_helpers_agree:
  "SetNonBlocking (winsock wos) (fd_of s) w = SetNonBlocking_win wos s w \<and>
   WaitForSocket (winsock wos) (fd_of s) b timeout w = WaitForSocket_win wos s b timeout w \<and>
   (IsWouldBlock (winsock wos) (LastSocketError (winsock wos) w) \<longleftrightarrow> IsWouldBlock_win wos (LastSocketError_win wos w)) \<and>
   (IsWouldBlock_udp (winsock wos) (LastSocketError_udp (winsock wos) w) \<longleftrightarrow>
      IsWouldBlock_udp_win wos (LastSocketError_udp_win wos w)) \<and>
   CloseNativeSocket (winsock wos) (fd_of s) w = CloseNativeSocket_win wos s w \<and>
   CheckConnected (winsock wos) (fd_of s) w = CheckConnected_win wos s w \<and>
   PendingDatagramSize (winsock wos) (fd_of s) w = PendingDatagramSize_win wos s w \<and>
   map_prod (map_prod ssize_to_int id) id (sys_recv (winsock wos) (fd_of s) (int_to_size (size_to_int n)) w) =
     map_prod (map_prod sint id) id (win_recv wos s (size_to_int n) w) \<and>
   socket_put (winsock wos) (fd_of s) mem n w = map_prod sint id (win_send wos s mem (size_to_int n) w)"
  by (simp add: winsock_helpers udp_helpers native_helper_copies)
    (simp add: winsock_def size_to_int_again ssize_to_int_sint socket_put_def prod.map_comp map_prod_def split_beta)

section \<open>Contracts carried over\<close>

definition sock_fds :: "('w \<Rightarrow> SOCKET set) \<Rightarrow> 'w \<Rightarrow> int set" where
  "sock_fds socks w = fd_of ` (socks w - {INVALID_SOCKET})"

lemma fd_of_inject [simp]: "fd_of s = fd_of t \<longleftrightarrow> s = t"
  by (metis sock_of_fd_of)

lemma fd_of_nonneg: "s \<noteq> INVALID_SOCKET \<Longrightarrow> 0 \<le> fd_of s"
  by (simp add: fd_of_def)

lemma keeps_sock_fds: "keeps socks call \<Longrightarrow> keeps (sock_fds socks) (\<lambda>w. map_prod f id (call w))"
  by (simp add: keeps_def sock_fds_def)

lemma yields_fd_sock:
  assumes "yields_handle socks call"
  shows "yields_fd (sock_fds socks) (\<lambda>w. map_prod fd_of id (call w))"
  unfolding yields_fd_def
proof (intro allI impI)
  fix w fd w'
  assume "map_prod fd_of id (call w) = (fd, w')"
  then obtain s where call: "call w = (s, w')" and fd: "fd = fd_of s" by (cases "call w") auto
  from yields_handleD [OF assms call] fd
  show "fd = - 1 \<and> sock_fds socks w' = sock_fds socks w \<or>
      0 \<le> fd \<and> fd \<notin> sock_fds socks w \<and> sock_fds socks w' = insert fd (sock_fds socks w)"
    by (cases "s = INVALID_SOCKET") (auto simp: sock_fds_def fd_of_nonneg insert_Diff_if)
qed

lemma sock_fds_close:
  assumes "socks w' = socks w - {sock_of fd}"
  shows "sock_fds socks w' = sock_fds socks w - {fd}"
proof (cases "\<exists>s. s \<noteq> INVALID_SOCKET \<and> fd = fd_of s")
  case True
  then obtain s where fd: "fd = fd_of s" by blast
  have "socks w - {s} - {INVALID_SOCKET} = (socks w - {INVALID_SOCKET}) - {s}" by blast
  moreover have "fd_of ` (A - {s}) = fd_of ` A - {fd_of s}" for A
    using image_set_diff [of fd_of A "{s}"] by (simp add: inj_def)
  ultimately show ?thesis unfolding sock_fds_def assms fd sock_of_fd_of by simp
next
  case False
  have "sock_of fd = INVALID_SOCKET"
  proof (rule ccontr)
    assume valid: "sock_of fd \<noteq> INVALID_SOCKET"
    then have range: "0 \<le> fd" "fd < 2 ^ 64 - 1" and w: "sock_of fd = word_of_int fd"
      by (auto simp: sock_of_def split: if_splits)
    then have "fd = fd_of (sock_of fd)"
      using valid by (simp add: fd_of_def unsigned_of_int take_bit_int_eq_self)
    with False valid show False by blast
  qed
  moreover have "fd \<notin> sock_fds socks w" using False by (auto simp only: sock_fds_def image_iff Diff_iff singleton_iff)
  ultimately show ?thesis unfolding sock_fds_def assms by simp
qed

lemma winsock_fd_contract:
  assumes "winsock_contract wos socks"
  shows "fd_contract (winsock wos) (sock_fds socks)"
proof -
  have N: "winsock_neutral wos socks" and C: "socks (snd (win_closesocket wos s w)) = socks w - {s}"
    and Y: "yields_handle socks (win_socket wos d t p)" "yields_handle socks (win_accept wos s)" for s w d t p
    using assms by (simp_all add: winsock_contract_def)
  have K: "keeps (sock_fds socks) (win_getaddrinfo wos node service hints)"
    "sock_fds socks (win_freeaddrinfo wos as w) = sock_fds socks w"
    "keeps socks (win_ioctlsocket wos s c a)" "keeps socks (win_setsockopt wos s l n v)"
    "keeps socks (win_getsockopt wos s l n)" "keeps socks (win_bind wos s addr)" "keeps socks (win_connect wos s addr)"
    "keeps socks (win_listen wos s m)" "keeps socks (win_getsockname wos s)" "keeps socks (win_select wos m rs ws tv)"
    "keeps socks (win_recv wos s m)" "keeps socks (win_send wos s mem m)"
    for node service hints as w s c a l n v addr m rs ws tv mem
    using N by (simp_all add: winsock_neutral_def keeps_def sock_fds_def)
  have fcntl: "keeps (sock_fds socks) (\<lambda>w. case win_ioctlsocket wos s c a w of ((r, p), w1) \<Rightarrow> (f r p, w1))" for s c a f
    using K(3) [of s c a] by (simp add: keeps_def sock_fds_def split_beta)
  have mode: "keeps (sock_fds socks) (\<lambda>w. if b then (0, w)
      else case win_ioctlsocket wos s c a w of ((r, p), w1) \<Rightarrow> (f r p, w1))" for b s c a f
    using fcntl by (cases b) (simp_all add: keeps_def)
  have files: "keeps (sock_fds socks) (Pair x)" "yields_fd (sock_fds socks) (Pair (- 1))" for x
    by (simp_all add: keeps_def yields_fd_def)
  show ?thesis
    unfolding fd_contract_def
    by (intro conjI allI)
      (simp_all add: winsock_def yields_fd_sock [OF Y(1)] yields_fd_sock [OF Y(2)] K(1,2)
        keeps_sock_fds K(3-) fcntl mode files sock_fds_close C)
qed

lemma size_to_int_le: "size_to_int n \<le> uint n"
proof -
  have "- (2 ^ 31) \<le> uint (ucast n :: 32 word)"
    by (rule order_trans [OF _ uint_nonnegative]) simp
  then have "sint (ucast n :: 32 word) \<le> uint (ucast n :: 32 word)"
    by (simp add: sint_uint signed_take_bit_int_less_eq_self_iff)
  also have "\<dots> \<le> uint n"
    by (simp add: unsigned_ucast_eq take_bit_int_less_eq_self_iff)
  finally show ?thesis by (simp add: size_to_int_def)
qed

lemma winsock_recv_contract:
  assumes "win_recv_contract wos"
  shows "recv_contract (winsock wos)"
  unfolding recv_contract_def receives_def
proof (intro allI impI)
  fix fd n w r bs w'
  assume "sys_recv (winsock wos) fd n w = ((r, bs), w')"
  then obtain x where rc: "win_recv wos (sock_of fd) (size_to_int n) w = ((x, bs), w')" and r: "r = sint x"
    by (cases "win_recv wos (sock_of fd) (size_to_int n) w") (auto simp: winsock_def)
  from assms rc have "(x = - 1 \<and> bs = []) \<or> (sint x = int (length bs) \<and> int (length bs) \<le> size_to_int n)"
    unfolding win_recv_contract_def by blast
  then show "r = - 1 \<and> bs = [] \<or> r = int (length bs) \<and> length bs \<le> unat n"
  proof (elim disjE conjE)
    assume "sint x = int (length bs)" and le: "int (length bs) \<le> size_to_int n"
    from le size_to_int_le [of n] have "int (length bs) \<le> uint n" by (rule order_trans)
    then have "length bs \<le> unat n" using of_nat_le_iff [where 'a = int, of "length bs" "unat n"] by simp
    with \<open>sint x = int (length bs)\<close> r show ?thesis by simp
  next
    assume "x = - 1" "bs = []"
    with r show ?thesis by simp
  qed
qed

section \<open>The methods of the Windows build\<close>

text \<open>
  Open asks for the socket library between its argument checks and the code both builds share; the other methods
  are the shared code alone.
\<close>

definition TcpStreamTransport_Open_win ::
  "'w win32 \<Rightarrow> TcpStreamTransport \<Rightarrow> runtime \<Rightarrow> 'w \<Rightarrow> TransportStatus \<times> TcpStreamTransport \<times> runtime \<times> 'w" where
  "TcpStreamTransport_Open_win wos t static w =
     (if tcp_open t then (AlreadyOpen, t, static, w)
      else if tcp_host (tcp_options t) = '''' \<or> tcp_port (tcp_options t) = 0 then (InvalidArgument, t, static, w)
      else (case SocketRuntimeReady_win wos static w of
        (ready, static1, w1) \<Rightarrow>
          (if \<not> ready then (OpenFailed, t, static1, w1)
           else (case TcpStreamTransport_Open (winsock wos) t w1 of (st, t', w2) \<Rightarrow> (st, t', static1, w2)))))"

definition TcpServerTransport_Open_win ::
  "'w win32 \<Rightarrow> TcpServerTransport \<Rightarrow> runtime \<Rightarrow> 'w \<Rightarrow> TransportStatus \<times> TcpServerTransport \<times> runtime \<times> 'w" where
  "TcpServerTransport_Open_win wos s static w =
     (if srv_open s then (AlreadyOpen, s, static, w)
      else if srv_backlog (srv_options s) \<le> 0 then (InvalidArgument, s, static, w)
      else (case SocketRuntimeReady_server_win wos static w of
        (ready, static1, w1) \<Rightarrow>
          (if \<not> ready then (OpenFailed, s, static1, w1)
           else (case TcpServerTransport_Open (winsock wos) s w1 of (st, s', w2) \<Rightarrow> (st, s', static1, w2)))))"

definition UdpTransport_Open_win ::
  "'w win32 \<Rightarrow> UdpTransport \<Rightarrow> runtime \<Rightarrow> 'w \<Rightarrow> TransportStatus \<times> UdpTransport \<times> runtime \<times> 'w" where
  "UdpTransport_Open_win wos u static w =
     (if udp_open u then (AlreadyOpen, u, static, w)
      else if (udp_remoteHost (udp_options u) = '''' \<and> udp_remotePort (udp_options u) \<noteq> 0) \<or>
              (udp_remoteHost (udp_options u) \<noteq> '''' \<and> udp_remotePort (udp_options u) = 0)
      then (InvalidArgument, u, static, w)
      else (case SocketRuntimeReady_udp_win wos static w of
        (ready, static1, w1) \<Rightarrow>
          (if \<not> ready then (OpenFailed, u, static1, w1)
           else (case UdpTransport_Open (winsock wos) u w1 of (st, u', w2) \<Rightarrow> (st, u', static1, w2)))))"

section \<open>What starts the library\<close>

text \<open>
  \<open>runtime_holds users base (static, w)\<close>: the library counts one user more than \<open>base\<close> exactly when the static
  was constructed by a successful start-up.
\<close>

definition runtime_holds :: "('w \<Rightarrow> int) \<Rightarrow> int \<Rightarrow> runtime \<times> 'w \<Rightarrow> bool" where
  "runtime_holds users base sw \<longleftrightarrow>
     users (snd sw) = base + (case fst sw of None \<Rightarrow> 0 | Some rt \<Rightarrow> if rt_ok rt then 1 else 0)"

lemma SocketRuntimeReady_holds:
  assumes "SocketRuntimeReady_win wos static w = (ready, static', w')" and "runtime_contract wos users"
    and "runtime_holds users base (static, w)"
  shows "runtime_holds users base (static', w') \<and> static' = Some \<lparr>rt_ok = ready\<rparr> \<and> (static \<noteq> None \<longrightarrow> static' = static \<and> w' = w)"
proof (cases static)
  case None
  obtain r w1 where st: "win_WSAStartup wos 0x0202 w = (r, w1)" by fastforce
  then have "users w1 = users w + (if r = 0 then 1 else 0)"
    using assms(2) unfolding runtime_contract_def by blast
  with None st assms(1,3) show ?thesis
    by (auto simp: SocketRuntimeReady_win_def SocketRuntime_new_def SocketRuntime_Ok_def runtime_holds_def)
next
  case (Some rt)
  with assms(1,3) show ?thesis
    by (cases rt) (auto simp: SocketRuntimeReady_win_def SocketRuntime_Ok_def)
qed

text \<open>A system all of whose calls leave an observation alone: the methods leave it alone.\<close>

definition posix_neutral :: "'w posix \<Rightarrow> ('w \<Rightarrow> 'a) \<Rightarrow> bool" where
  "posix_neutral os obs \<longleftrightarrow>
     (\<forall>d t p. keeps obs (sys_socket os d t p)) \<and> (\<forall>fd. keeps obs (sys_close os fd)) \<and>
     (\<forall>node service hints. keeps obs (sys_getaddrinfo os node service hints)) \<and>
     (\<forall>as w. obs (sys_freeaddrinfo os as w) = obs w) \<and>
     (\<forall>fd cmd arg. keeps obs (sys_fcntl os fd cmd arg)) \<and>
     (\<forall>fd l n. keeps obs (sys_getsockopt os fd l n)) \<and>
     (\<forall>fd a. keeps obs (sys_connect os fd a)) \<and>
     (\<forall>n r s tv. keeps obs (sys_select os n r s tv)) \<and>
     (\<forall>fd n. keeps obs (sys_recv os fd n)) \<and> (\<forall>fd mem n. keeps obs (sys_send os fd mem n)) \<and>
     (\<forall>fd. keeps obs (sys_accept os fd)) \<and> (\<forall>fd a. keeps obs (sys_bind os fd a)) \<and>
     (\<forall>fd n. keeps obs (sys_listen os fd n)) \<and> (\<forall>fd l n v. keeps obs (sys_setsockopt os fd l n v)) \<and>
     (\<forall>fd. keeps obs (sys_getsockname os fd)) \<and> (\<forall>fd. keeps obs (sys_ioctl_FIONREAD os fd))"

lemma posix_neutralD:
  assumes "posix_neutral os obs"
  shows "keeps obs (sys_socket os d t p)" "obs (CloseNativeSocket os fd w) = obs w"
    "keeps obs (sys_getaddrinfo os node service hints)" "obs (sys_freeaddrinfo os as w) = obs w"
    "keeps obs (SetNonBlocking os fd)" "keeps obs (CheckConnected os fd)" "keeps obs (sys_connect os fd a)"
    "keeps obs (WaitForSocket os fd b timeout)" "keeps obs (sys_recv os fd n)" "keeps obs (socket_put os fd mem n)"
    "keeps obs (sys_send os fd mem n)" "keeps obs (sys_accept os fd)" "keeps obs (sys_bind os fd a)"
    "keeps obs (sys_listen os fd i)" "keeps obs (sys_setsockopt os fd l m v)" "keeps obs (sys_getsockname os fd)"
    "keeps obs (sys_ioctl_FIONREAD os fd)"
proof -
  note D = assms [unfolded posix_neutral_def]
  show "obs (CloseNativeSocket os fd w) = obs w" using D by (simp add: CloseNativeSocket_def keeps_def)
  show "keeps obs (SetNonBlocking os fd)" "keeps obs (CheckConnected os fd)"
    "keeps obs (WaitForSocket os fd b timeout)" "keeps obs (socket_put os fd mem n)"
    using D by (auto intro!: SetNonBlocking_keeps CheckConnected_keeps WaitForSocket_keeps socket_put_keeps)
qed (use assms in \<open>simp_all add: posix_neutral_def\<close>)

lemma connect_neutral:
  assumes "TcpStreamTransport_connect os d as fin w = (r, w')" and neutral: "posix_neutral os obs"
  shows "obs w' = obs w"
  using assms(1)
proof (induction as arbitrary: fin w)
  case (Cons a as)
  note facts = posix_neutralD [OF neutral]
  from Cons.prems show ?case
    by (auto split: prod.splits if_splits
      dest!: Cons.IH keepsD [OF facts(1)] keepsD [OF facts(5)] keepsD [OF facts(6)] keepsD [OF facts(7)]
        keepsD [OF facts(8)]
      simp: facts(2))
qed simp

lemma Open_neutral:
  assumes "TcpStreamTransport_Open os t w = (st, t', w')" and neutral: "posix_neutral os obs"
  shows "obs w' = obs w"
proof (cases "tcp_open t")
  case True
  with assms(1) show ?thesis by (simp add: TcpStreamTransport_Open_def)
next
  case False
  note facts = posix_neutralD [OF neutral]
  from assms(1) False show ?thesis
  proof (cases rule: TcpStreamTransport_Open_cases)
    case (unresolved r as)
    then show ?thesis using keepsD [OF facts(3)] by blast
  next
    case (resolved as w1 chosen w2)
    then show ?thesis
      using keepsD [OF facts(3) resolved(1)] connect_neutral [OF resolved(2) neutral] facts(4) by simp
  qed simp
qed

lemma Close_neutral:
  "posix_neutral os obs \<Longrightarrow> TcpStreamTransport_Close os t w = (st, t', w') \<Longrightarrow> obs w' = obs w"
  by (auto simp: TcpStreamTransport_Close_def Let_def posix_neutralD(2) split: if_splits)

lemma ReadSome_neutral:
  assumes "TcpStreamTransport_ReadSome os out n t w = (r, t', w')" and neutral: "posix_neutral os obs"
  shows "obs w' = obs w"
  using assms(1) unfolding TcpStreamTransport_ReadSome_def TcpStreamTransport_Close_def Let_def
  by (auto split: prod.splits if_splits simp: posix_neutralD(2) [OF neutral]
      dest!: keepsD [OF posix_neutralD(8) [OF neutral]] keepsD [OF posix_neutralD(9) [OF neutral]])

lemma WriteAll_neutral:
  assumes "TcpStreamTransport_WriteAll os input n t w = Some (st, t', w')" and neutral: "posix_neutral os obs"
  shows "obs w' = obs w"
  using assms(1) posix_neutralD(8,10) [OF neutral]
  by (auto simp: TcpStreamTransport_WriteAll_def split: if_splits option.splits dest!: write_loop_keeps [where obs = obs])

lemma winsock_users_neutral:
  assumes "runtime_contract wos users"
  shows "posix_neutral (winsock wos) users"
proof -
  have N: "winsock_neutral wos users" and K: "keeps users (win_socket wos d t p)" "keeps users (win_closesocket wos s)"
      "keeps users (win_accept wos s)" for d t p s
    using assms by (simp_all add: runtime_contract_def)
  then show ?thesis
    unfolding posix_neutral_def
    by (intro conjI allI) (simp_all add: winsock_def winsock_neutral_def keeps_def split_beta)
qed

section \<open>No socket leaks\<close>

text \<open>A start-up does not touch sockets, so an Open of the Windows build acquires what the shared code acquires.\<close>

lemma SocketRuntimeReady_fds:
  assumes "SocketRuntimeReady_win wos static w = (ready, static', w')" and "winsock_contract wos socks"
  shows "sock_fds socks w' = sock_fds socks w"
proof -
  have "keeps socks (win_WSAStartup wos 0x0202)" using assms(2) by (simp add: winsock_contract_def)
  with assms(1) show ?thesis
    by (auto simp: SocketRuntimeReady_win_def SocketRuntime_new_def sock_fds_def split: option.splits prod.splits dest: keepsD)
qed

lemma Open_win_acquires:
  assumes "TcpStreamTransport_Open_win wos t static w = (st, t', static', w')" and "\<not> tcp_open t"
    and wc: "winsock_contract wos socks"
  shows "acquires (if st = Ok then Some (tcp_socket t') else None) (sock_fds socks w) (sock_fds socks w') \<and>
    (st = Ok \<longleftrightarrow> tcp_open t') \<and> (st \<noteq> Ok \<longrightarrow> t' = t)"
proof -
  obtain ready static1 w1 where rdy: "SocketRuntimeReady_win wos static w = (ready, static1, w1)" using prod_cases3 by blast
  obtain st2 t2 w2 where op: "TcpStreamTransport_Open (winsock wos) t w1 = (st2, t2, w2)" using prod_cases3 by blast
  show ?thesis
    using assms(1,2) rdy op Open_fds [OF op assms(2) winsock_fd_contract [OF wc]] Open_object [OF op assms(2)]
      SocketRuntimeReady_fds [OF rdy wc]
    by (auto simp: TcpStreamTransport_Open_win_def split: if_splits)
qed

lemma server_Open_win_acquires:
  assumes "TcpServerTransport_Open_win wos s static w = (st, s', static', w')" and "\<not> srv_open s"
    and wc: "winsock_contract wos socks"
  shows "acquires (if st = Ok then Some (srv_socket s') else None) (sock_fds socks w) (sock_fds socks w') \<and>
    (st = Ok \<longleftrightarrow> srv_open s') \<and> (st \<noteq> Ok \<longrightarrow> s' = s)"
proof -
  obtain ready static1 w1 where rdy: "SocketRuntimeReady_win wos static w = (ready, static1, w1)" using prod_cases3 by blast
  obtain st2 s2 w2 where op: "TcpServerTransport_Open (winsock wos) s w1 = (st2, s2, w2)" using prod_cases3 by blast
  show ?thesis
    using assms(1,2) rdy op server_Open_fds [OF op assms(2) winsock_fd_contract [OF wc]] SocketRuntimeReady_fds [OF rdy wc]
    by (auto simp: TcpServerTransport_Open_win_def SocketRuntimeReady_copies split: if_splits)
qed

lemma udp_Open_win_acquires:
  assumes "UdpTransport_Open_win wos u static w = (st, u', static', w')" and "\<not> udp_open u"
    and wc: "winsock_contract wos socks"
  shows "acquires (if st = Ok then Some (udp_socket u') else None) (sock_fds socks w) (sock_fds socks w') \<and>
    (st = Ok \<longleftrightarrow> udp_open u') \<and> (st \<noteq> Ok \<longrightarrow> u' = u)"
proof -
  obtain ready static1 w1 where rdy: "SocketRuntimeReady_win wos static w = (ready, static1, w1)" using prod_cases3 by blast
  obtain st2 u2 w2 where op: "UdpTransport_Open (winsock wos) u w1 = (st2, u2, w2)" using prod_cases3 by blast
  show ?thesis
    using assms(1,2) rdy op udp_Open_fds [OF op assms(2) winsock_fd_contract [OF wc]] SocketRuntimeReady_fds [OF rdy wc]
    by (auto simp: UdpTransport_Open_win_def SocketRuntimeReady_copies split: if_splits)
qed

text \<open>
  On Windows no Open of a closed TCP stream, TCP listener or UDP transport leaks a socket, whatever the state of the
  socket library: Ok adds exactly one socket, valid, not held before and owned by the object; every failure, a failed
  start-up included, leaves the process's sockets and the object as they were.
\<close>

theorem win_open_balanced:
  assumes "winsock_contract wos socks" and "\<not> tcp_open t" and "\<not> srv_open s" and "\<not> udp_open u"
    and "TcpStreamTransport_Open_win wos t static w = (st1, t', static1, w1)"
    and "TcpServerTransport_Open_win wos s static w = (st2, s', static2, w2)"
    and "UdpTransport_Open_win wos u static w = (st3, u', static3, w3)"
  shows "(if st1 = Ok then tcp_open t' \<and> tcp_socket t' \<noteq> kInvalidSocket \<and> tcp_socket t' \<notin> sock_fds socks w \<and>
            sock_fds socks w1 = insert (tcp_socket t') (sock_fds socks w)
          else t' = t \<and> sock_fds socks w1 = sock_fds socks w) \<and>
    (if st2 = Ok then srv_open s' \<and> srv_socket s' \<noteq> kInvalidSocket \<and> srv_socket s' \<notin> sock_fds socks w \<and>
            sock_fds socks w2 = insert (srv_socket s') (sock_fds socks w)
          else s' = s \<and> sock_fds socks w2 = sock_fds socks w) \<and>
    (if st3 = Ok then udp_open u' \<and> udp_socket u' \<noteq> kInvalidSocket \<and> udp_socket u' \<notin> sock_fds socks w \<and>
            sock_fds socks w3 = insert (udp_socket u') (sock_fds socks w)
          else u' = u \<and> sock_fds socks w3 = sock_fds socks w)"
  using Open_win_acquires [OF assms(5,2,1)] server_Open_win_acquires [OF assms(6,3,1)] udp_Open_win_acquires [OF assms(7,4,1)]
  by (cases "st1 = Ok"; cases "st2 = Ok"; cases "st3 = Ok") auto

lemmas wsim_open_eval = wsim_eval SocketRuntimeReady_win_def SocketRuntime_new_def SocketRuntime_Ok_def
  TcpStreamTransport_Open_win_def TcpServerTransport_Open_win_def UdpTransport_Open_win_def SocketRuntimeReady_copies
  TcpStreamTransport_Open_def TcpServerTransport_Open_def UdpTransport_Open_def TcpStreamTransport_new_def
  TcpServerTransport_new_def UdpTransport_new_def sim_tcp_options_def TcpStreamTransportOptions_new_def
  TcpServerTransportOptions_new_def UdpTransportOptions_new_def SocketRuntimeReady_def server_helpers udp_helpers
  SetNonBlocking_def WaitForSocket_def CheckConnected_def IsWouldBlock_def LastSocketError_def SocketLocalPort_def
  ResolveUdpAddress_def winsock_def winsock_constants_def fd_of_def sock_of_def ntohs_def

lemma wsim_opens:
  "TcpStreamTransport_Open_win wsim_os (TcpStreamTransport_new sim_tcp_options) None wsim_init =
     (Ok, (TcpStreamTransport_new sim_tcp_options)\<lparr>tcp_socket := 4, tcp_open := True\<rparr>, Some \<lparr>rt_ok = True\<rparr>,
      wsim_init\<lparr>ws_handles := [4], ws_started := 1, ws_error := 10035\<rparr>)"
  "TcpServerTransport_Open_win wsim_os (TcpServerTransport_new TcpServerTransportOptions_new) None wsim_init =
     (Ok, (TcpServerTransport_new TcpServerTransportOptions_new)\<lparr>srv_socket := 4, srv_open := True, srv_localPort := 4059\<rparr>,
      Some \<lparr>rt_ok = True\<rparr>, wsim_init\<lparr>ws_handles := [4], ws_started := 1\<rparr>)"
  "UdpTransport_Open_win wsim_os (UdpTransport_new UdpTransportOptions_new) None wsim_init =
     (Ok, (UdpTransport_new UdpTransportOptions_new)\<lparr>udp_socket := 4, udp_open := True\<rparr>, Some \<lparr>rt_ok = True\<rparr>,
      wsim_init\<lparr>ws_handles := [4], ws_started := 1\<rparr>)"
  by (simp_all add: wsim_open_eval)

theorem win_open_balanced_witness:
  "sock_fds wsim_set (wsim_init\<lparr>ws_handles := [4], ws_started := 1\<rparr>) = insert 4 (sock_fds wsim_set wsim_init)"
  using win_open_balanced [OF wsim_winsock_contract _ _ _ wsim_opens]
  by (simp add: TcpStreamTransport_new_def TcpServerTransport_new_def UdpTransport_new_def)

section \<open>Sessions\<close>

definition TcpStreamTransport_methods_win :: "'w win32 \<Rightarrow> (TcpStreamTransport \<times> runtime \<times> 'w) IByteStream" where
  "TcpStreamTransport_methods_win wos =
     \<lparr>vOpen = (\<lambda>(t, static, w). TcpStreamTransport_Open_win wos t static w),
      vClose = (\<lambda>(t, static, w). case TcpStreamTransport_Close (winsock wos) t w of (st, t', w') \<Rightarrow> (st, t', static, w')),
      vIsOpen = (\<lambda>(t, static, w). TcpStreamTransport_IsOpen t),
      vReadSome = (\<lambda>output outputSize (t, static, w).
        case TcpStreamTransport_ReadSome (winsock wos) output outputSize t w of (r, t', w') \<Rightarrow> (r, t', static, w')),
      vWriteAll = (\<lambda>input inputSize (t, static, w).
        case TcpStreamTransport_WriteAll (winsock wos) input inputSize t w of
          None \<Rightarrow> None | Some (st, t', w') \<Rightarrow> Some (st, t', static, w'))\<rparr>"

definition win_tcp_invar :: "'w win32 \<Rightarrow> ('w \<Rightarrow> SOCKET set) \<Rightarrow> int set \<Rightarrow> TcpStreamTransport \<times> runtime \<times> 'w \<Rightarrow> bool" where
  "win_tcp_invar wos socks base s \<longleftrightarrow>
     winsock_contract wos socks \<and> win_recv_contract wos \<and> tcp_owns (sock_fds socks) base (fst s) (snd (snd s))"

lemma win_tcp_invarD:
  assumes "win_tcp_invar wos socks base (t, static, w)"
  shows "tcp_invar (winsock wos) (sock_fds socks) base (t, w)" "winsock_contract wos socks"
    "win_recv_contract wos" "tcp_owns (sock_fds socks) base t w"
  using assms winsock_fd_contract winsock_recv_contract by (auto simp: win_tcp_invar_def tcp_invar_def)

lemma win_tcp_invarI:
  "win_tcp_invar wos socks base (t, static, w) \<Longrightarrow> tcp_invar (winsock wos) (sock_fds socks) base (t', w') \<Longrightarrow>
   win_tcp_invar wos socks base (t', static', w')"
  by (simp add: win_tcp_invar_def tcp_invar_def)

lemma Open_win_owns:
  assumes "TcpStreamTransport_Open_win wos t static w = (st, t', static', w')" and "win_tcp_invar wos socks base (t, static, w)"
  shows "win_tcp_invar wos socks base (t', static', w')"
proof (cases "tcp_open t")
  case True
  with assms show ?thesis by (simp add: TcpStreamTransport_Open_win_def win_tcp_invar_def)
next
  case False
  note D = win_tcp_invarD [OF assms(2)]
  from Open_win_acquires [OF assms(1) False D(2)] D(2-4) False show ?thesis
    by (auto simp: win_tcp_invar_def tcp_owns_def split: if_splits)
qed

interpretation win_tcp: byte_stream "TcpStreamTransport_methods_win wos" "win_tcp_invar wos socks base"
  for wos :: "'w win32" and socks :: "'w \<Rightarrow> SOCKET set" and base :: "int set"
proof (unfold_locales; (simp only: split_paired_all TcpStreamTransport_methods_win_def IByteStream.simps prod.case)?)
  fix t :: TcpStreamTransport and static :: runtime and w :: 'w and st t' static' w' out n k out' r
  assume inv: "win_tcp_invar wos socks base (t, static, w)"
  note D = win_tcp_invarD [OF inv]
  note laws = TcpStreamTransport_methods_simps
  show "TcpStreamTransport_IsOpen t \<Longrightarrow> TcpStreamTransport_Open_win wos t static w = (AlreadyOpen, t, static, w)"
    by (simp add: TcpStreamTransport_Open_win_def TcpStreamTransport_IsOpen_def)
  show "\<not> TcpStreamTransport_IsOpen t \<Longrightarrow> TcpStreamTransport_Open_win wos t static w = (st, t', static', w') \<Longrightarrow>
      TcpStreamTransport_IsOpen t' = (st = Ok)"
    using Open_win_acquires [OF _ _ D(2)] by (auto simp: TcpStreamTransport_IsOpen_def)
  show "TcpStreamTransport_Open_win wos t static w = (st, t', static', w') \<Longrightarrow> win_tcp_invar wos socks base (t', static', w')"
    using Open_win_owns [OF _ inv] .
  show "(case TcpStreamTransport_Close (winsock wos) t w of (st, t', w') \<Rightarrow> (st, t', static, w')) = (st, t', static', w') \<Longrightarrow>
      st = Ok \<and> \<not> TcpStreamTransport_IsOpen t'"
    using tcp.close_result [OF D(1)] by (auto simp: laws split: prod.splits)
  show "\<not> TcpStreamTransport_IsOpen t \<Longrightarrow>
      (case TcpStreamTransport_Close (winsock wos) t w of (st, t', w') \<Rightarrow> (st, t', static, w')) = (Ok, t, static, w)"
    using tcp.close_closed [OF D(1)] by (simp add: laws)
  show "(case TcpStreamTransport_Close (winsock wos) t w of (st, t', w') \<Rightarrow> (st, t', static, w')) = (st, t', static', w') \<Longrightarrow>
      win_tcp_invar wos socks base (t', static', w')"
    using tcp.invar_close [OF D(1)] by (auto simp: laws split: prod.splits intro: win_tcp_invarI [OF inv])
  show "\<not> TcpStreamTransport_IsOpen t \<Longrightarrow>
      (case TcpStreamTransport_ReadSome (winsock wos) out n t w of (r, t', w') \<Rightarrow> (r, t', static, w')) =
        ((NotOpen, 0, out), t, static, w)"
    using tcp.read_closed [OF D(1), of out n] by (simp add: laws)
  show "TcpStreamTransport_IsOpen t \<Longrightarrow> n \<noteq> 0 \<Longrightarrow>
      (case TcpStreamTransport_ReadSome (winsock wos) None n t w of (r, t', w') \<Rightarrow> (r, t', static, w')) =
        ((InvalidArgument, 0, None), t, static, w)"
    using tcp.read_null [OF D(1), of n] by (simp add: laws)
  show "grants out n \<Longrightarrow> unat n < 2 ^ 31 \<Longrightarrow>
      (case TcpStreamTransport_ReadSome (winsock wos) out n t w of (r, t', w') \<Rightarrow> (r, t', static, w')) =
        ((st, k, out'), t', static', w') \<Longrightarrow>
      buffer_frame n k out out' \<and> (st \<noteq> Ok \<longrightarrow> k = 0 \<and> out' = out)"
    using tcp.read_frame [OF D(1), of out n st k out' "(t', w')"] by (auto simp: laws split: prod.splits)
  show "(case TcpStreamTransport_ReadSome (winsock wos) out n t w of (r, t', w') \<Rightarrow> (r, t', static, w')) =
        ((st, k, out'), t', static', w') \<Longrightarrow> TcpStreamTransport_IsOpen t' \<longrightarrow> TcpStreamTransport_IsOpen t"
    using tcp.read_open [OF D(1), of out n st k out' "(t', w')"] by (auto simp: laws split: prod.splits)
  show "(case TcpStreamTransport_ReadSome (winsock wos) out n t w of (r, t', w') \<Rightarrow> (r, t', static, w')) =
        ((st, k, out'), t', static', w') \<Longrightarrow> st \<noteq> ConnectionClosed \<Longrightarrow>
      TcpStreamTransport_IsOpen t' = TcpStreamTransport_IsOpen t"
    using tcp.read_stays_open [OF D(1), of out n st k out' "(t', w')"] by (auto simp: laws split: prod.splits)
  show "(case TcpStreamTransport_ReadSome (winsock wos) out n t w of (r, t', w') \<Rightarrow> (r, t', static, w')) =
        (r, t', static', w') \<Longrightarrow> win_tcp_invar wos socks base (t', static', w')"
    using tcp.invar_read [OF D(1), of out n r "(t', w')"]
    by (auto simp: laws split: prod.splits intro: win_tcp_invarI [OF inv])
  show "\<not> TcpStreamTransport_IsOpen t \<Longrightarrow>
      (case TcpStreamTransport_WriteAll (winsock wos) out n t w of None \<Rightarrow> None | Some (st, t', w') \<Rightarrow> Some (st, t', static, w')) =
        Some (NotOpen, t, static, w)"
    using tcp.write_closed [OF D(1), of out n] by (simp add: laws)
  show "TcpStreamTransport_IsOpen t \<Longrightarrow> n \<noteq> 0 \<Longrightarrow>
      (case TcpStreamTransport_WriteAll (winsock wos) None n t w of None \<Rightarrow> None | Some (st, t', w') \<Rightarrow> Some (st, t', static, w')) =
        Some (InvalidArgument, t, static, w)"
    using tcp.write_null [OF D(1), of n] by (simp add: laws)
  show "(case TcpStreamTransport_WriteAll (winsock wos) out n t w of None \<Rightarrow> None | Some (st, t', w') \<Rightarrow> Some (st, t', static, w')) =
        Some (st, t', static', w') \<Longrightarrow> TcpStreamTransport_IsOpen t' = TcpStreamTransport_IsOpen t"
    using tcp.write_open [OF D(1), of out n st "(t', w')"] by (auto simp: laws split: prod.splits option.splits)
  show "(case TcpStreamTransport_WriteAll (winsock wos) out n t w of None \<Rightarrow> None | Some (st, t', w') \<Rightarrow> Some (st, t', static, w')) =
        Some (st, t', static', w') \<Longrightarrow> win_tcp_invar wos socks base (t', static', w')"
    using tcp.invar_write [OF D(1), of out n st "(t', w')"]
    by (auto simp: laws split: prod.splits option.splits intro: win_tcp_invarI [OF inv])
qed

text \<open>
  C20. A TCP stream of the Windows build keeps the stream contract over whole sessions: after any sequence of calls
  that starts with a new stream and any state of the socket library, it owns exactly one socket while it is open
  and none while it is closed, it is open only after a successful Open with no Close after it, and the
  destructor gives back what it owns.
\<close>

theorem win_tcp_session_no_leak:
  assumes "stream_run (TcpStreamTransport_methods_win wos) calls (TcpStreamTransport_new options, static, w) =
      Some (log, t, static', w')"
    and "winsock_contract wos socks" and "win_recv_contract wos"
  shows "(if TcpStreamTransport_IsOpen t
          then tcp_socket t \<notin> sock_fds socks w \<and> sock_fds socks w' = insert (tcp_socket t) (sock_fds socks w)
          else tcp_socket t = kInvalidSocket \<and> sock_fds socks w' = sock_fds socks w) \<and>
    (TcpStreamTransport_IsOpen t \<longrightarrow> opened_last log) \<and>
    sock_fds socks (TcpStreamTransport_destroy (winsock wos) t w') = sock_fds socks w"
proof -
  have init: "win_tcp_invar wos socks (sock_fds socks w) (TcpStreamTransport_new options, static, w)"
    using assms(2,3) by (simp add: win_tcp_invar_def tcp_owns_def TcpStreamTransport_new_def)
  have owns: "tcp_owns (sock_fds socks) (sock_fds socks w) t w'"
    using win_tcp_invarD(4) [OF win_tcp.run_invar [OF init assms(1)]] .
  have "TcpStreamTransport_IsOpen t \<Longrightarrow> opened_last log"
    using win_tcp.is_open_only_after_open [OF init _ assms(1)]
    by (simp add: TcpStreamTransport_methods_win_def TcpStreamTransport_IsOpen_def TcpStreamTransport_new_def)
  then show ?thesis
    using owns tcp_destroy_fds [OF owns winsock_fd_contract [OF assms(2)]]
    by (auto simp: tcp_owns_def TcpStreamTransport_IsOpen_def)
qed

lemma wsim_tcp_session:
  "stream_run (TcpStreamTransport_methods_win wsim_os) [CallOpen, CallReadSome (Some [0, 0]) 2, CallReadSome (Some [0, 0]) 2]
     (TcpStreamTransport_new sim_tcp_options, None, wsim_init\<lparr>ws_in := [[5]]\<rparr>) =
   Some ([(CallOpen, Ok), (CallReadSome (Some [0, 0]) 2, Ok), (CallReadSome (Some [0, 0]) 2, ConnectionClosed)],
     TcpStreamTransport_new sim_tcp_options, Some \<lparr>rt_ok = True\<rparr>,
     wsim_init\<lparr>ws_started := 1, ws_error := 10035\<rparr>)"
  by (simp add: TcpStreamTransport_methods_win_def wsim_open_eval TcpStreamTransport_ReadSome_def TcpStreamTransport_Close_def
      CloseNativeSocket_def size_to_int_def int_to_size_def ssize_to_int_def)

theorem win_tcp_session_no_leak_witness:
  "sock_fds wsim_set (wsim_init\<lparr>ws_started := 1, ws_error := 10035\<rparr>) = sock_fds wsim_set (wsim_init\<lparr>ws_in := [[5]]\<rparr>)"
  using win_tcp_session_no_leak [OF wsim_tcp_session wsim_winsock_contract wsim_recv_contract]
  by (simp add: TcpStreamTransport_IsOpen_def TcpStreamTransport_new_def)

section \<open>What Windows does differently\<close>

text \<open>
  C40. On Windows a datagram that fits can be refused: Receive compares the buffer with what \<^verbatim>\<open>FIONREAD\<close> reports,
  and Windows reports all queued datagrams together. With a datagram at the front that fits the buffer, and
  more queued behind it than the rest of the buffer holds, Receive answers OutputBufferTooSmall, takes
  nothing from the queue and leaves the buffer alone, so the same call is refused again.
\<close>

theorem win_udp_fitting_datagram_refused:
  assumes "udp_open u" and "udp_socket u = fd_of s"
    and "WaitForSocket_win wos s True (udp_receiveTimeout (udp_options u)) w = (Ok, w1)"
    and "win_pending_contract wos s inq" and "inq w1 = d # rest" and "length d \<le> unat n"
    and "unat n < length d + length (concat rest)"
    and "win_ioctlsocket wos s (c_FIONREAD (wc wos)) 0 w1 = ((0, p), w2)"
  shows "UdpTransport_Receive (winsock wos) (Some buf) n u w = ((OutputBufferTooSmall, 0, Some buf), u, w2) \<and>
    inq w2 = d # rest"
proof -
  from assms(4,8) have p: "unat p = length (concat (inq w1))" and q: "inq w2 = inq w1"
    unfolding win_pending_contract_def by blast+
  have "n < (ucast p :: size_t)"
    using assms(5,7) p by (simp add: word_less_nat_alt)
  then show ?thesis
    using assms(1-3,5,8) q by (simp add: UdpTransport_Receive_def udp_helpers winsock_helpers PendingDatagramSize_win_def)
qed

theorem win_udp_fitting_datagram_refused_witness:
  "UdpTransport_Receive (winsock wsim_os) (Some [0, 0]) 2 ((UdpTransport_new UdpTransportOptions_new)\<lparr>udp_socket := 4, udp_open := True\<rparr>)
       (wsim_init\<lparr>ws_in := [[1, 2], [3, 4, 5]]\<rparr>) =
     ((OutputBufferTooSmall, 0, Some [0, 0]), (UdpTransport_new UdpTransportOptions_new)\<lparr>udp_socket := 4, udp_open := True\<rparr>,
      wsim_init\<lparr>ws_in := [[1, 2], [3, 4, 5]]\<rparr>)"
proof -
  let ?u = "(UdpTransport_new UdpTransportOptions_new)\<lparr>udp_socket := 4, udp_open := True\<rparr>"
  let ?w = "wsim_init\<lparr>ws_in := [[1, 2], [3, 4, 5]]\<rparr>"
  have "udp_open ?u" "udp_socket ?u = fd_of 4" by (simp_all add: fd_of_def)
  moreover have "WaitForSocket_win wsim_os 4 True (udp_receiveTimeout (udp_options ?u)) ?w = (Ok, ?w)"
    by (simp add: WaitForSocket_win_def wsim_eval)
  moreover have "win_ioctlsocket wsim_os 4 (c_FIONREAD (wc wsim_os)) 0 ?w = ((0, 5), ?w)" by (simp add: wsim_eval)
  ultimately show ?thesis
    using win_udp_fitting_datagram_refused [of ?u 4 wsim_os ?w ?w ws_in "[1, 2]" "[[3, 4, 5]]" 2 5 ?w "[0, 0]"]
      wsim_pending_contract by simp
qed

text \<open>
  A connect that is refused after it was in progress is signalled in the exception set of \<^verbatim>\<open>select\<close>, which
  the wait does not pass: it sees nothing until the timeout, and reports Timeout instead of OpenFailed.
\<close>

lemma win_refused_connect_times_out:
  assumes "win_socket wos (ai_family a) (ai_socktype a) (ai_protocol a) w = (s, w1)" and "s \<noteq> INVALID_SOCKET"
    and "SetNonBlocking_win wos s w1 = (True, w2)" and "win_connect wos s (ai_addr a) w2 = (r, w3)" and "r \<noteq> 0"
    and "IsWouldBlock_win wos (LastSocketError_win wos w3)"
    and "win_select wos (size_to_int (s + 1)) None (Some {s}) (ToTimeval timeout) w3 = (0, w4)"
  shows "TcpStreamTransport_connect (winsock wos) timeout [a] OpenFailed w = ((Timeout, None), CloseNativeSocket_win wos s w4)"
proof -
  have "WaitForSocket_win wos s False timeout w3 = (Timeout, w4)"
    using assms(7) by (simp add: WaitForSocket_win_def)
  moreover have "sys_socket (winsock wos) (ai_family a) (ai_socktype a) (ai_protocol a) w = (fd_of s, w1)"
    "sys_connect (winsock wos) (fd_of s) (ai_addr a) w2 = (sint r, w3)"
    using assms(1,4) by (simp_all add: winsock_def)
  ultimately show ?thesis using assms(2,3,5,6) by (simp add: winsock_helpers)
qed

end
