(* ===== verification/Win_Sessions.thy ===== *)
theory Win_Sessions
  imports Win_Sockets
begin

text \<open>
  Whole sessions of the listener and of the datagram transport in the Windows build: every method is the shared
  code on \<open>winsock wos\<close>, and Open asks for the socket library first. The step relation of the listener keeps its
  file's start-up static in the state; apart from Open, its steps are the steps of the shared relation.
\<close>

section \<open>A listener and its connections\<close>

inductive win_server_step ::
  "'w win32 \<Rightarrow> TcpServerTransport \<times> AcceptedTcpStream list \<times> runtime \<times> 'w \<Rightarrow>
   TcpServerTransport \<times> AcceptedTcpStream list \<times> runtime \<times> 'w \<Rightarrow> bool" for wos where
  Win_Open: "TcpServerTransport_Open_win wos s static w = (st, s', static', w') \<Longrightarrow>
    win_server_step wos (s, as, static, w) (s', as, static', w')"
| Win_Close: "TcpServerTransport_Close (winsock wos) s w = (st, s', w') \<Longrightarrow>
    win_server_step wos (s, as, static, w) (s', as, static, w')"
| Win_Accept: "TcpServerTransport_Accept (winsock wos) None s w = ((Ok, Some a), s', w') \<Longrightarrow>
    win_server_step wos (s, as, static, w) (s', a # as, static, w')"
| Win_Accept_fails: "TcpServerTransport_Accept (winsock wos) None s w = ((st, None), s', w') \<Longrightarrow>
    win_server_step wos (s, as, static, w) (s', as, static, w')"
| Win_Conn_Close: "AcceptedTcpStream_Close (winsock wos) a w = (st, a', w') \<Longrightarrow>
    win_server_step wos (s, xs @ a # ys, static, w) (s, xs @ a' # ys, static, w')"
| Win_Conn_Read: "AcceptedTcpStream_ReadSome (winsock wos) out n a w = (r, a', w') \<Longrightarrow>
    win_server_step wos (s, xs @ a # ys, static, w) (s, xs @ a' # ys, static, w')"
| Win_Conn_Write: "AcceptedTcpStream_WriteAll (winsock wos) inp n a w = Some (st, a', w') \<Longrightarrow>
    win_server_step wos (s, xs @ a # ys, static, w) (s, xs @ a' # ys, static, w')"
| Win_Conn_Destroy: "AcceptedTcpStream_destroy (winsock wos) a w = w' \<Longrightarrow>
    win_server_step wos (s, xs @ a # ys, static, w) (s, xs @ ys, static, w')"

lemma win_server_step_cases:
  assumes "win_server_step wos (s, as, static, w) (s', as', static', w')"
  shows "(\<exists>st. TcpServerTransport_Open_win wos s static w = (st, s', static', w') \<and> as' = as) \<or>
    (server_step (winsock wos) (s, as, w) (s', as', w') \<and> static' = static)"
  using assms by (cases rule: win_server_step.cases) (auto intro: server_step.intros)

lemma server_Open_win_owns:
  assumes "TcpServerTransport_Open_win wos s static w = (st, s', static', w')" and wc: "winsock_contract wos socks"
    and owns: "srv_owns (sock_fds socks) base s w"
  shows "srv_owns (sock_fds socks) base s' w'"
proof -
  obtain ready static1 w1 where rdy: "SocketRuntimeReady_win wos static w = (ready, static1, w1)" using prod_cases3 by blast
  have "srv_owns (sock_fds socks) base s w1"
    using owns SocketRuntimeReady_fds [OF rdy wc] by (simp only: srv_owns_def)
  moreover obtain st2 s2 w2 where op: "TcpServerTransport_Open (winsock wos) s w1 = (st2, s2, w2)" using prod_cases3 by blast
  ultimately have "srv_owns (sock_fds socks) base s2 w2" "srv_owns (sock_fds socks) base s w1"
    using server_Open_owns [OF op winsock_fd_contract [OF wc]] by simp_all
  with assms(1) owns rdy op show ?thesis
    by (auto simp: TcpServerTransport_Open_win_def SocketRuntimeReady_copies split: if_splits)
qed

lemma win_server_step_inv:
  assumes "win_server_step wos (s, as, static, w) (s', as', static', w')"
    and "server_inv (sock_fds socks) base (s, as, w)" and wc: "winsock_contract wos socks"
  shows "server_inv (sock_fds socks) base (s', as', w')"
  using win_server_step_cases [OF assms(1)]
proof
  assume "\<exists>st. TcpServerTransport_Open_win wos s static w = (st, s', static', w') \<and> as' = as"
  then show ?thesis using server_Open_win_owns [OF _ wc] assms(2) by (auto simp: server_inv_listener)
next
  assume "server_step (winsock wos) (s, as, w) (s', as', w') \<and> static' = static"
  then show ?thesis using server_step_inv assms(2) winsock_fd_contract [OF wc] by blast
qed

text \<open>
  C21. In every state a listener of the Windows build and its connections can reach, by any interleaving of calls and
  destructions and from any state of the file's socket library start-up, the process holds exactly the
  sockets it held at the start, the listener's while it is open, and one for each open connection,
  pairwise distinct; a closed listener has local port zero.
\<close>

theorem win_server_reachable_handles:
  assumes "(win_server_step wos)\<^sup>*\<^sup>* (TcpServerTransport_new options, [], static, w) (s, as, static', w')"
    and "winsock_contract wos socks"
  shows "sock_fds socks w' = sock_fds socks w \<union> set (server_handles s as) \<and> distinct (server_handles s as) \<and>
    set (server_handles s as) \<inter> sock_fds socks w = {} \<and>
    (\<not> TcpServerTransport_IsOpen s \<longrightarrow> TcpServerTransport_LocalPort s = 0)"
proof -
  let ?inv = "\<lambda>(s, as, static, w'). server_inv (sock_fds socks) (sock_fds socks w) (s, as, w')"
  have "?inv (s, as, static', w')"
    using assms(1)
  proof (induction rule: rtranclp_induct)
    case base
    show ?case by (simp add: server_inv_def server_handles_def TcpServerTransport_new_def)
  next
    case (step c c')
    obtain s as x w1 s' as' x' w2 where "c = (s, as, x, w1)" "c' = (s', as', x', w2)"
      using prod_cases4 by metis
    with step(2,3) win_server_step_inv [OF _ _ assms(2), of s as x w1 s' as' x' w2] show ?case by simp
  qed
  then have "server_inv (sock_fds socks) (sock_fds socks w) (s, as, w')" by simp
  then show ?thesis
    by (auto simp: server_inv_def TcpServerTransport_IsOpen_def TcpServerTransport_LocalPort_def)
qed

definition wsim_listener :: TcpServerTransport where
  "wsim_listener = (TcpServerTransport_new TcpServerTransportOptions_new)\<lparr>srv_socket := 4, srv_open := True, srv_localPort := 4059\<rparr>"

definition wsim_connection :: AcceptedTcpStream where
  "wsim_connection = AcceptedTcpStream_new 8 \<lparr>milliseconds = 5000\<rparr> \<lparr>milliseconds = 5000\<rparr>"

lemma wsim_accept:
  "TcpServerTransport_Accept (winsock wsim_os) None wsim_listener (wsim_init\<lparr>ws_handles := [4], ws_started := 1\<rparr>) =
     ((Ok, Some wsim_connection), wsim_listener, wsim_init\<lparr>ws_handles := [8, 4], ws_started := 1\<rparr>)"
  by (simp add: TcpServerTransport_Accept_def connection_reset_def wsim_listener_def wsim_connection_def
      AcceptedTcpStream_new_def wsim_open_eval)

theorem win_server_reachable_handles_witness:
  "sock_fds wsim_set (wsim_init\<lparr>ws_handles := [8, 4], ws_started := 1\<rparr>) =
     sock_fds wsim_set wsim_init \<union> set (server_handles wsim_listener [wsim_connection]) \<and>
   distinct (server_handles wsim_listener [wsim_connection])"
proof -
  have "win_server_step wsim_os (TcpServerTransport_new TcpServerTransportOptions_new, [], None, wsim_init)
      (wsim_listener, [], Some \<lparr>rt_ok = True\<rparr>, wsim_init\<lparr>ws_handles := [4], ws_started := 1\<rparr>)"
    unfolding wsim_listener_def by (rule Win_Open [OF wsim_opens(2)])
  moreover have "win_server_step wsim_os
      (wsim_listener, [], Some \<lparr>rt_ok = True\<rparr>, wsim_init\<lparr>ws_handles := [4], ws_started := 1\<rparr>)
      (wsim_listener, [wsim_connection], Some \<lparr>rt_ok = True\<rparr>, wsim_init\<lparr>ws_handles := [8, 4], ws_started := 1\<rparr>)"
    by (rule Win_Accept [OF wsim_accept])
  ultimately have "(win_server_step wsim_os)\<^sup>*\<^sup>* (TcpServerTransport_new TcpServerTransportOptions_new, [], None, wsim_init)
      (wsim_listener, [wsim_connection], Some \<lparr>rt_ok = True\<rparr>, wsim_init\<lparr>ws_handles := [8, 4], ws_started := 1\<rparr>)"
    by (meson converse_rtranclp_into_rtranclp rtranclp.rtrancl_refl)
  from win_server_reachable_handles [OF this wsim_winsock_contract] show ?thesis by blast
qed

section \<open>Datagrams\<close>

definition UdpTransport_methods_win :: "'w win32 \<Rightarrow> (UdpTransport \<times> runtime \<times> 'w) IDatagramTransport" where
  "UdpTransport_methods_win wos =
     \<lparr>dOpen = (\<lambda>(u, static, w). UdpTransport_Open_win wos u static w),
      dClose = (\<lambda>(u, static, w). case UdpTransport_Close (winsock wos) u w of (st, u', w') \<Rightarrow> (st, u', static, w')),
      dIsOpen = (\<lambda>(u, static, w). UdpTransport_IsOpen u),
      dSend = (\<lambda>input inputSize (u, static, w).
        case UdpTransport_Send (winsock wos) input inputSize u w of (st, u', w') \<Rightarrow> (st, u', static, w')),
      dReceive = (\<lambda>output outputSize (u, static, w).
        case UdpTransport_Receive (winsock wos) output outputSize u w of (r, u', w') \<Rightarrow> (r, u', static, w'))\<rparr>"

definition win_udp_invar :: "'w win32 \<Rightarrow> ('w \<Rightarrow> SOCKET set) \<Rightarrow> int set \<Rightarrow> UdpTransport \<times> runtime \<times> 'w \<Rightarrow> bool" where
  "win_udp_invar wos socks base s \<longleftrightarrow>
     winsock_contract wos socks \<and> win_recv_contract wos \<and> udp_owns (sock_fds socks) base (fst s) (snd (snd s))"

lemma win_udp_invarD:
  assumes "win_udp_invar wos socks base (u, static, w)"
  shows "udp_invar (winsock wos) (sock_fds socks) base (u, w)" "winsock_contract wos socks"
    "win_recv_contract wos" "udp_owns (sock_fds socks) base u w"
  using assms winsock_fd_contract winsock_recv_contract by (auto simp: win_udp_invar_def udp_invar_def)

lemma win_udp_invarI:
  "win_udp_invar wos socks base (u, static, w) \<Longrightarrow> udp_invar (winsock wos) (sock_fds socks) base (u', w') \<Longrightarrow>
   win_udp_invar wos socks base (u', static', w')"
  by (simp add: win_udp_invar_def udp_invar_def)

lemma udp_Open_win_owns:
  assumes "UdpTransport_Open_win wos u static w = (st, u', static', w')" and "win_udp_invar wos socks base (u, static, w)"
  shows "win_udp_invar wos socks base (u', static', w')"
proof (cases "udp_open u")
  case True
  with assms show ?thesis by (simp add: UdpTransport_Open_win_def win_udp_invar_def)
next
  case False
  note D = win_udp_invarD [OF assms(2)]
  from udp_Open_win_acquires [OF assms(1) False D(2)] D(2-4) False show ?thesis
    by (auto simp: win_udp_invar_def udp_owns_def split: if_splits)
qed

interpretation win_udp: datagram_transport "UdpTransport_methods_win wos" "win_udp_invar wos socks base"
  for wos :: "'w win32" and socks :: "'w \<Rightarrow> SOCKET set" and base :: "int set"
proof (unfold_locales; (simp only: split_paired_all UdpTransport_methods_win_def IDatagramTransport.simps prod.case)?)
  fix u :: UdpTransport and static :: runtime and w :: 'w and st u' static' w' out n k out' r
  assume inv: "win_udp_invar wos socks base (u, static, w)"
  note D = win_udp_invarD [OF inv]
  note laws = UdpTransport_methods_simps
  show "UdpTransport_IsOpen u \<Longrightarrow> UdpTransport_Open_win wos u static w = (AlreadyOpen, u, static, w)"
    by (simp add: UdpTransport_Open_win_def UdpTransport_IsOpen_def)
  show "\<not> UdpTransport_IsOpen u \<Longrightarrow> UdpTransport_Open_win wos u static w = (st, u', static', w') \<Longrightarrow>
      UdpTransport_IsOpen u' = (st = Ok)"
    using udp_Open_win_acquires [OF _ _ D(2)] by (auto simp: UdpTransport_IsOpen_def)
  show "UdpTransport_Open_win wos u static w = (st, u', static', w') \<Longrightarrow> win_udp_invar wos socks base (u', static', w')"
    using udp_Open_win_owns [OF _ inv] .
  show "(case UdpTransport_Close (winsock wos) u w of (st, u', w') \<Rightarrow> (st, u', static, w')) = (st, u', static', w') \<Longrightarrow>
      st = Ok \<and> \<not> UdpTransport_IsOpen u'"
    using udp.close_result [OF D(1)] by (auto simp: laws split: prod.splits)
  show "\<not> UdpTransport_IsOpen u \<Longrightarrow>
      (case UdpTransport_Close (winsock wos) u w of (st, u', w') \<Rightarrow> (st, u', static, w')) = (Ok, u, static, w)"
    using udp.close_closed [OF D(1)] by (simp add: laws)
  show "(case UdpTransport_Close (winsock wos) u w of (st, u', w') \<Rightarrow> (st, u', static, w')) = (st, u', static', w') \<Longrightarrow>
      win_udp_invar wos socks base (u', static', w')"
    using udp.invar_close [OF D(1)] by (auto simp: laws split: prod.splits intro: win_udp_invarI [OF inv])
  show "\<not> UdpTransport_IsOpen u \<Longrightarrow>
      (case UdpTransport_Send (winsock wos) out n u w of (st, u', w') \<Rightarrow> (st, u', static, w')) = (NotOpen, u, static, w)"
    using udp.send_closed [OF D(1), of out n] by (simp add: laws)
  show "UdpTransport_IsOpen u \<Longrightarrow> n \<noteq> 0 \<Longrightarrow>
      (case UdpTransport_Send (winsock wos) None n u w of (st, u', w') \<Rightarrow> (st, u', static, w')) = (InvalidArgument, u, static, w)"
    using udp.send_null [OF D(1), of n] by (simp add: laws)
  show "(case UdpTransport_Send (winsock wos) out n u w of (st, u', w') \<Rightarrow> (st, u', static, w')) = (st, u', static', w') \<Longrightarrow>
      UdpTransport_IsOpen u' = UdpTransport_IsOpen u"
    using udp.send_open [OF D(1), of out n st "(u', w')"] by (auto simp: laws split: prod.splits)
  show "(case UdpTransport_Send (winsock wos) out n u w of (st, u', w') \<Rightarrow> (st, u', static, w')) = (st, u', static', w') \<Longrightarrow>
      win_udp_invar wos socks base (u', static', w')"
    using udp.invar_send [OF D(1), of out n st "(u', w')"]
    by (auto simp: laws split: prod.splits intro: win_udp_invarI [OF inv])
  show "\<not> UdpTransport_IsOpen u \<Longrightarrow>
      (case UdpTransport_Receive (winsock wos) out n u w of (r, u', w') \<Rightarrow> (r, u', static, w')) =
        ((NotOpen, 0, out), u, static, w)"
    using udp.receive_closed [OF D(1), of out n] by (simp add: laws)
  show "UdpTransport_IsOpen u \<Longrightarrow> n \<noteq> 0 \<Longrightarrow>
      (case UdpTransport_Receive (winsock wos) None n u w of (r, u', w') \<Rightarrow> (r, u', static, w')) =
        ((InvalidArgument, 0, None), u, static, w)"
    using udp.receive_null [OF D(1), of n] by (simp add: laws)
  show "grants out n \<Longrightarrow> unat n < 2 ^ 31 \<Longrightarrow>
      (case UdpTransport_Receive (winsock wos) out n u w of (r, u', w') \<Rightarrow> (r, u', static, w')) =
        ((st, k, out'), u', static', w') \<Longrightarrow>
      buffer_frame n k out out' \<and> (st \<noteq> Ok \<longrightarrow> k = 0 \<and> out' = out)"
    using udp.receive_frame [OF D(1), of out n st k out' "(u', w')"] by (auto simp: laws split: prod.splits)
  show "(case UdpTransport_Receive (winsock wos) out n u w of (r, u', w') \<Rightarrow> (r, u', static, w')) =
        (r, u', static', w') \<Longrightarrow> UdpTransport_IsOpen u' = UdpTransport_IsOpen u"
    using udp.receive_open [OF D(1), of out n r "(u', w')"] by (auto simp: laws split: prod.splits)
  show "(case UdpTransport_Receive (winsock wos) out n u w of (r, u', w') \<Rightarrow> (r, u', static, w')) =
        (r, u', static', w') \<Longrightarrow> win_udp_invar wos socks base (u', static', w')"
    using udp.invar_receive [OF D(1), of out n r "(u', w')"]
    by (auto simp: laws split: prod.splits intro: win_udp_invarI [OF inv])
qed

text \<open>
  A UDP transport of the Windows build keeps the datagram contract over whole sessions: it owns exactly one socket
  while it is open and none while it is closed, and the destructor gives back what it owns.
\<close>

lemma win_udp_session_no_leak:
  assumes "datagram_run (UdpTransport_methods_win wos) calls (UdpTransport_new options, static, w) = (sts, u, static', w')"
    and wc: "winsock_contract wos socks" and "win_recv_contract wos"
  shows "(if UdpTransport_IsOpen u
          then udp_socket u \<notin> sock_fds socks w \<and> sock_fds socks w' = insert (udp_socket u) (sock_fds socks w)
          else udp_socket u = kInvalidSocket \<and> \<not> udp_remoteConfigured u \<and> sock_fds socks w' = sock_fds socks w) \<and>
    sock_fds socks (UdpTransport_destroy (winsock wos) u w') = sock_fds socks w"
proof -
  have init: "win_udp_invar wos socks (sock_fds socks w) (UdpTransport_new options, static, w)"
    using assms(2,3) by (simp add: win_udp_invar_def udp_owns_def UdpTransport_new_def)
  have owns: "udp_owns (sock_fds socks) (sock_fds socks w) u w'"
    using win_udp_invarD(4) [OF win_udp.dgram_run_invar [OF init assms(1)]] .
  obtain st u2 w2 where close: "UdpTransport_Close (winsock wos) u w' = (st, u2, w2)" using prod_cases3 by blast
  have "sock_fds socks w2 = sock_fds socks w"
    using udp_Close_owns [OF close winsock_fd_contract [OF wc] owns] by (simp add: udp_owns_def)
  then show ?thesis
    using owns close by (auto simp: udp_owns_def UdpTransport_IsOpen_def UdpTransport_destroy_def)
qed

end
