(* ===== verification/Win_Process.thy ===== *)
theory Win_Process
  imports Win_Sessions
begin

text \<open>
  The socket library over the life of a Windows process. The stream's, the listener's and the datagram file each have
  their own function-local static that starts the library (\<^verbatim>\<open>tcp_stream_transport.cpp\<close>, \<^verbatim>\<open>tcp_server_transport.cpp\<close>,
  \<^verbatim>\<open>udp_transport.cpp\<close>), so a process may start it up to three times; all objects of a class share their file's static.
  \<open>win_process\<close> is the states a process reaches with any number of streams, listeners, accepted connections and
  datagram transports, in any interleaving of their methods. Theorem: the library counts exactly the successful
  start-ups, at most one per file, and all are given back at the end of the process.
\<close>

section \<open>Methods that start nothing\<close>

lemma listen_neutral:
  assumes "TcpServerTransport_listen os backlog as w = (got, w')" and neutral: "posix_neutral os obs"
  shows "obs w' = obs w"
  using assms(1)
proof (induction as arbitrary: w)
  case (Cons a as)
  note facts = posix_neutralD [OF neutral]
  from Cons.prems show ?case
    unfolding TcpServerTransport_listen.simps server_helpers
    by (auto split: prod.splits if_splits
      dest!: Cons.IH keepsD [OF facts(1)] keepsD [OF facts(5)] keepsD [OF facts(13)] keepsD [OF facts(14)]
        keepsD [OF facts(15)] keepsD [OF SocketLocalPort_keeps [OF facts(16)]]
      simp: facts(2))
qed simp

lemma server_Open_neutral:
  assumes "TcpServerTransport_Open os s w = (st, s', w')" and neutral: "posix_neutral os obs"
  shows "obs w' = obs w"
proof (cases "srv_open s")
  case True
  with assms(1) show ?thesis by (simp add: TcpServerTransport_Open_def)
next
  case False
  note facts = posix_neutralD [OF neutral]
  from assms(1) False show ?thesis
  proof (cases rule: TcpServerTransport_Open_cases)
    case (unresolved r as host port hints)
    then show ?thesis using keepsD [OF facts(3)] by blast
  next
    case (resolved as host port hints w1 got w2)
    then show ?thesis
      using keepsD [OF facts(3) resolved(1)] listen_neutral [OF resolved(2) neutral] facts(4) by simp
  qed simp
qed

lemma candidates_neutral:
  assumes "UdpTransport_candidates os options hasRemote as w = (got, w')" and neutral: "posix_neutral os obs"
  shows "obs w' = obs w"
  using assms(1)
proof (induction as arbitrary: w hasRemote)
  case (Cons a as)
  note facts = posix_neutralD [OF neutral]
  from Cons.prems show ?case
    unfolding UdpTransport_candidates.simps udp_helpers Let_def
    by (auto split: prod.splits if_splits
      dest!: Cons.IH keepsD [OF facts(1)] keepsD [OF facts(5)] bind_keeps [OF facts(13)] keepsD [OF facts(7)]
        keepsD [OF ResolveUdpAddress_keeps [OF facts(3)]]
      simp: facts(2,4))
qed simp

lemma udp_Open_neutral:
  assumes "UdpTransport_Open os u w = (st, u', w')" and neutral: "posix_neutral os obs"
  shows "obs w' = obs w"
proof (cases "udp_open u")
  case True
  with assms(1) show ?thesis by (simp add: UdpTransport_Open_def)
next
  case False
  note facts = posix_neutralD [OF neutral]
  note resolve = keepsD [OF ResolveUdpAddress_keeps [OF facts(3)]]
  from assms(1) False show ?thesis
  proof (cases rule: UdpTransport_Open_cases)
    case (unresolved host port family flags)
    then show ?thesis using resolve by blast
  next
    case (resolved host port family flags as w1 got w2)
    then show ?thesis
      using resolve [OF resolved(2)] candidates_neutral [OF resolved(3) neutral] facts(4) by simp
  qed simp
qed

text \<open>Every call of the socket classes other than an Open, as its effect on the system.\<close>

inductive shared_call :: "'w posix \<Rightarrow> 'w \<Rightarrow> 'w \<Rightarrow> bool" for os where
  stream_close: "TcpStreamTransport_Close os t w = (st, t', w') \<Longrightarrow> shared_call os w w'"
| stream_read: "TcpStreamTransport_ReadSome os out n t w = (r, t', w') \<Longrightarrow> shared_call os w w'"
| stream_write: "TcpStreamTransport_WriteAll os inp n t w = Some (st, t', w') \<Longrightarrow> shared_call os w w'"
| stream_end: "shared_call os w (TcpStreamTransport_destroy os t w)"
| server_close: "TcpServerTransport_Close os s w = (st, s', w') \<Longrightarrow> shared_call os w w'"
| server_accept: "TcpServerTransport_Accept os connection s w = (r, s', w') \<Longrightarrow> shared_call os w w'"
| server_end: "shared_call os w (TcpServerTransport_destroy os s w)"
| accepted_close: "AcceptedTcpStream_Close os a w = (st, a', w') \<Longrightarrow> shared_call os w w'"
| accepted_read: "AcceptedTcpStream_ReadSome os out n a w = (r, a', w') \<Longrightarrow> shared_call os w w'"
| accepted_write: "AcceptedTcpStream_WriteAll os inp n a w = Some (st, a', w') \<Longrightarrow> shared_call os w w'"
| accepted_end: "shared_call os w (AcceptedTcpStream_destroy os a w)"
| udp_close: "UdpTransport_Close os u w = (st, u', w') \<Longrightarrow> shared_call os w w'"
| udp_send: "UdpTransport_Send os inp n u w = (st, u', w') \<Longrightarrow> shared_call os w w'"
| udp_receive: "UdpTransport_Receive os out n u w = (r, u', w') \<Longrightarrow> shared_call os w w'"
| udp_port: "UdpTransport_LocalPort os u w = (p, w') \<Longrightarrow> shared_call os w w'"
| udp_end: "shared_call os w (UdpTransport_destroy os u w)"

lemma Accept_neutral:
  assumes "TcpServerTransport_Accept os connection s w = (r, s', w')" and neutral: "posix_neutral os obs"
  shows "obs w' = obs w"
proof -
  note facts = posix_neutralD [OF neutral]
  have "obs (connection_reset os connection w) = obs w"
    by (auto simp: connection_reset_def AcceptedTcpStream_destroy_def AcceptedTcpStream_Close_def server_helpers Let_def
        facts(2) split: option.split)
  with assms(1) show ?thesis
    unfolding TcpServerTransport_Accept_def server_helpers Let_def
    by (auto split: prod.splits if_splits simp: facts(2)
      dest!: keepsD [OF facts(8)] keepsD [OF facts(12)] keepsD [OF facts(5)])
qed

lemma shared_call_neutral:
  assumes "shared_call os w w'" and neutral: "posix_neutral os obs"
  shows "obs w' = obs w"
proof -
  note facts = posix_neutralD [OF neutral]
  note closes = TcpStreamTransport_destroy_def TcpStreamTransport_Close_def TcpServerTransport_destroy_def
    TcpServerTransport_Close_def AcceptedTcpStream_destroy_def AcceptedTcpStream_Close_def UdpTransport_destroy_def
    UdpTransport_Close_def server_helpers udp_helpers Let_def facts(2)
  from assms(1) show ?thesis
  proof (cases rule: shared_call.cases)
    case (stream_read out n t r t')
    then show ?thesis by (rule ReadSome_neutral [OF _ neutral])
  next
    case (stream_write inp n t st t')
    then show ?thesis by (rule WriteAll_neutral [OF _ neutral])
  next
    case (server_accept connection s r s')
    then show ?thesis by (rule Accept_neutral [OF _ neutral])
  next
    case (accepted_read out n a r a')
    then show ?thesis by (rule ReadSome_neutral [OF as_tcp_results(2) neutral])
  next
    case (accepted_write inp n a st a')
    then show ?thesis by (rule WriteAll_neutral [OF as_tcp_results(3) neutral])
  next
    case (udp_send inp n u st u')
    then show ?thesis
      unfolding UdpTransport_Send_def udp_helpers Let_def
      by (auto split: prod.splits if_splits dest!: keepsD [OF facts(8)] keepsD [OF facts(11)])
  next
    case (udp_receive out n u r u')
    then show ?thesis
      unfolding UdpTransport_Receive_def udp_helpers Let_def
      by (auto split: prod.splits if_splits option.splits dest!: keepsD [OF facts(8)] keepsD [OF facts(9)]
          keepsD [OF PendingDatagramSize_keeps [OF facts(17)]])
  next
    case (udp_port u p)
    then show ?thesis
      by (auto simp: UdpTransport_LocalPort_def BoundLocalPort_def split: prod.splits if_splits option.splits
          dest!: keepsD [OF facts(16)])
  qed (auto simp: closes)
qed

section \<open>The process\<close>

record statics =
  stream_static :: runtime
  server_static :: runtime
  udp_static :: runtime

definition statics_new :: statics where
  "statics_new = \<lparr>stream_static = None, server_static = None, udp_static = None\<rparr>"

inductive win_process :: "'w win32 \<Rightarrow> 'w \<Rightarrow> statics \<Rightarrow> 'w \<Rightarrow> bool" for wos :: "'w win32" and w0 :: 'w where
  start: "win_process wos w0 statics_new w0"
| stream_opened: "win_process wos w0 z w \<Longrightarrow>
    TcpStreamTransport_Open_win wos t (stream_static z) w = (st, t', static', w') \<Longrightarrow>
    win_process wos w0 (z\<lparr>stream_static := static'\<rparr>) w'"
| server_opened: "win_process wos w0 z w \<Longrightarrow>
    TcpServerTransport_Open_win wos s (server_static z) w = (st, s', static', w') \<Longrightarrow>
    win_process wos w0 (z\<lparr>server_static := static'\<rparr>) w'"
| udp_opened: "win_process wos w0 z w \<Longrightarrow>
    UdpTransport_Open_win wos u (udp_static z) w = (st, u', static', w') \<Longrightarrow>
    win_process wos w0 (z\<lparr>udp_static := static'\<rparr>) w'"
| called: "win_process wos w0 z w \<Longrightarrow> shared_call (winsock wos) w w' \<Longrightarrow> win_process wos w0 z w'"

text \<open>
  The end of the process destroys the statics that were constructed, each by its own file's destructor. (The
  destructors make the same call, so their order does not matter.)
\<close>

definition process_exit :: "'w win32 \<Rightarrow> statics \<Rightarrow> 'w \<Rightarrow> 'w" where
  "process_exit wos z w =
     (let w1 = (case udp_static z of None \<Rightarrow> w | Some rt \<Rightarrow> SocketRuntime_destroy_udp wos rt w);
          w2 = (case server_static z of None \<Rightarrow> w1 | Some rt \<Rightarrow> SocketRuntime_destroy_server wos rt w1)
      in runtime_exit wos (stream_static z) w2)"

definition started :: "runtime \<Rightarrow> int" where
  "started static = (if static = Some \<lparr>rt_ok = True\<rparr> then 1 else 0)"

lemma started_simps [simp]: "started None = 0" "started (Some rt) = (if rt_ok rt then 1 else 0)"
  by (cases rt; simp add: started_def)+

lemma SocketRuntimeReady_started:
  assumes "SocketRuntimeReady_win wos static w = (ready, static', w')" and "runtime_contract wos users"
  shows "users w' = users w + started static' - started static"
  using SocketRuntimeReady_holds [OF assms, of "users w - started static"]
  by (cases static) (auto simp: runtime_holds_def)

lemma Open_win_started:
  assumes rc: "runtime_contract wos users"
  shows "TcpStreamTransport_Open_win wos t static w = (st, t', static', w') \<Longrightarrow>
      users w' = users w + started static' - started static"
    and "TcpServerTransport_Open_win wos s static w = (st, s', static', w') \<Longrightarrow>
      users w' = users w + started static' - started static"
    and "UdpTransport_Open_win wos u static w = (st, u', static', w') \<Longrightarrow>
      users w' = users w + started static' - started static"
proof -
  note neutral = winsock_users_neutral [OF rc]
  note ready = SocketRuntimeReady_started [OF _ rc]
  show "TcpStreamTransport_Open_win wos t static w = (st, t', static', w') \<Longrightarrow>
      users w' = users w + started static' - started static"
    by (auto simp: TcpStreamTransport_Open_win_def split: if_splits prod.splits dest!: ready Open_neutral [OF _ neutral])
  show "TcpServerTransport_Open_win wos s static w = (st, s', static', w') \<Longrightarrow>
      users w' = users w + started static' - started static"
    by (auto simp: TcpServerTransport_Open_win_def SocketRuntimeReady_copies split: if_splits prod.splits
        dest!: ready server_Open_neutral [OF _ neutral])
  show "UdpTransport_Open_win wos u static w = (st, u', static', w') \<Longrightarrow>
      users w' = users w + started static' - started static"
    by (auto simp: UdpTransport_Open_win_def SocketRuntimeReady_copies split: if_splits prod.splits
        dest!: ready udp_Open_neutral [OF _ neutral])
qed

lemma win_process_users:
  assumes "win_process wos w0 z w" and rc: "runtime_contract wos users"
  shows "users w = users w0 + started (stream_static z) + started (server_static z) + started (udp_static z)"
  using assms(1)
  by (induction rule: win_process.induct)
    (auto simp: statics_new_def dest!: Open_win_started [OF rc] shared_call_neutral [OF _ winsock_users_neutral [OF rc]])

lemma destroy_users:
  "runtime_contract wos users \<Longrightarrow>
   users (case static of None \<Rightarrow> w | Some rt \<Rightarrow> SocketRuntime_destroy wos rt w) = users w - started static"
  by (auto simp: SocketRuntime_destroy_def runtime_contract_def split: option.split)

lemma Open_win_ready:
  assumes "static = Some \<lparr>rt_ok = True\<rparr>"
  shows "TcpStreamTransport_Open_win wos t static w =
      (case TcpStreamTransport_Open (winsock wos) t w of (st, t', w') \<Rightarrow> (st, t', static, w'))"
    and "TcpServerTransport_Open_win wos s static w =
      (case TcpServerTransport_Open (winsock wos) s w of (st, s', w') \<Rightarrow> (st, s', static, w'))"
    and "UdpTransport_Open_win wos u static w =
      (case UdpTransport_Open (winsock wos) u w of (st, u', w') \<Rightarrow> (st, u', static, w'))"
  using assms
  by (auto simp: TcpStreamTransport_Open_win_def TcpServerTransport_Open_win_def UdpTransport_Open_win_def
      TcpStreamTransport_Open_def TcpServerTransport_Open_def UdpTransport_Open_def
      SocketRuntimeReady_copies SocketRuntimeReady_win_def SocketRuntime_Ok_def)

lemma Open_win_failed:
  assumes "static = Some \<lparr>rt_ok = False\<rparr>"
  shows "TcpStreamTransport_Open_win wos t static w =
      (if tcp_open t then AlreadyOpen
       else if tcp_host (tcp_options t) = '''' \<or> tcp_port (tcp_options t) = 0 then InvalidArgument else OpenFailed,
       t, static, w)"
    and "TcpServerTransport_Open_win wos s static w =
      (if srv_open s then AlreadyOpen else if srv_backlog (srv_options s) \<le> 0 then InvalidArgument else OpenFailed,
       s, static, w)"
    and "UdpTransport_Open_win wos u static w =
      (if udp_open u then AlreadyOpen
       else if (udp_remoteHost (udp_options u) = '''') \<noteq> (udp_remotePort (udp_options u) = 0) then InvalidArgument
       else OpenFailed, u, static, w)"
  using assms
  by (auto simp: TcpStreamTransport_Open_win_def TcpServerTransport_Open_win_def UdpTransport_Open_win_def
      SocketRuntimeReady_copies SocketRuntimeReady_win_def SocketRuntime_Ok_def)

text \<open>
  C22. However a Windows process uses its streams, listeners, accepted connections and datagram transports, each of the
  three socket files starts the socket library at most once: at every moment the library counts the process as a
  user once for each file whose start-up succeeded, and after the end of the process as before its start. Once a
  file's start-up has succeeded, every further Open of its class is the code both builds share, without a start-up;
  once it has failed, every further Open of its class reports AlreadyOpen on an open object, InvalidArgument for bad
  options and OpenFailed otherwise, changes nothing and makes no call of the system: no start-up is tried again.
\<close>

theorem win_runtime_once:
  assumes "win_process wos w0 z w" and "runtime_contract wos users"
  shows "users w = users w0 + started (stream_static z) + started (server_static z) + started (udp_static z) \<and>
    users (process_exit wos z w) = users w0 \<and>
    (stream_static z = Some \<lparr>rt_ok = True\<rparr> \<longrightarrow> (\<forall>t. TcpStreamTransport_Open_win wos t (stream_static z) w =
       (case TcpStreamTransport_Open (winsock wos) t w of (st, t', w') \<Rightarrow> (st, t', stream_static z, w')))) \<and>
    (server_static z = Some \<lparr>rt_ok = True\<rparr> \<longrightarrow> (\<forall>s. TcpServerTransport_Open_win wos s (server_static z) w =
       (case TcpServerTransport_Open (winsock wos) s w of (st, s', w') \<Rightarrow> (st, s', server_static z, w')))) \<and>
    (udp_static z = Some \<lparr>rt_ok = True\<rparr> \<longrightarrow> (\<forall>u. UdpTransport_Open_win wos u (udp_static z) w =
       (case UdpTransport_Open (winsock wos) u w of (st, u', w') \<Rightarrow> (st, u', udp_static z, w')))) \<and>
    (stream_static z = Some \<lparr>rt_ok = False\<rparr> \<longrightarrow> (\<forall>t. TcpStreamTransport_Open_win wos t (stream_static z) w =
       (if tcp_open t then AlreadyOpen
        else if tcp_host (tcp_options t) = '''' \<or> tcp_port (tcp_options t) = 0 then InvalidArgument else OpenFailed,
        t, stream_static z, w))) \<and>
    (server_static z = Some \<lparr>rt_ok = False\<rparr> \<longrightarrow> (\<forall>s. TcpServerTransport_Open_win wos s (server_static z) w =
       (if srv_open s then AlreadyOpen else if srv_backlog (srv_options s) \<le> 0 then InvalidArgument else OpenFailed,
        s, server_static z, w))) \<and>
    (udp_static z = Some \<lparr>rt_ok = False\<rparr> \<longrightarrow> (\<forall>u. UdpTransport_Open_win wos u (udp_static z) w =
       (if udp_open u then AlreadyOpen
        else if (udp_remoteHost (udp_options u) = '''') \<noteq> (udp_remotePort (udp_options u) = 0) then InvalidArgument
        else OpenFailed, u, udp_static z, w)))"
proof -
  note users = win_process_users [OF assms]
  have "users (process_exit wos z w) = users w0"
    unfolding process_exit_def Let_def runtime_exit_def SocketRuntimeReady_copies destroy_users [OF assms(2)]
    using users by simp
  then show ?thesis
    using users Open_win_ready Open_win_failed by (intro conjI impI allI)
qed

definition wsim_both :: statics where
  "wsim_both = \<lparr>stream_static = Some \<lparr>rt_ok = True\<rparr>, server_static = Some \<lparr>rt_ok = True\<rparr>, udp_static = None\<rparr>"

lemma wsim_second_open:
  "TcpServerTransport_Open_win wsim_os (TcpServerTransport_new TcpServerTransportOptions_new) None
     (wsim_init\<lparr>ws_handles := [4], ws_started := 1, ws_error := 10035\<rparr>) =
     (Ok, (TcpServerTransport_new TcpServerTransportOptions_new)\<lparr>srv_socket := 8, srv_open := True, srv_localPort := 4059\<rparr>,
      Some \<lparr>rt_ok = True\<rparr>, wsim_init\<lparr>ws_handles := [8, 4], ws_started := 2, ws_error := 10035\<rparr>)"
  by (simp add: wsim_open_eval)

theorem win_runtime_once_witness:
  "ws_started (wsim_init\<lparr>ws_handles := [8, 4], ws_started := 2, ws_error := 10035\<rparr>) =
     ws_started wsim_init + started (stream_static wsim_both) + started (server_static wsim_both) +
     started (udp_static wsim_both) \<and>
   ws_started (process_exit wsim_os wsim_both (wsim_init\<lparr>ws_handles := [8, 4], ws_started := 2, ws_error := 10035\<rparr>)) =
     ws_started wsim_init"
proof -
  have "win_process wsim_os wsim_init (statics_new\<lparr>stream_static := Some \<lparr>rt_ok = True\<rparr>\<rparr>)
      (wsim_init\<lparr>ws_handles := [4], ws_started := 1, ws_error := 10035\<rparr>)"
    by (rule win_process.stream_opened [OF win_process.start], unfold statics_new_def statics.simps) (rule wsim_opens(1))
  from win_process.server_opened [OF this, unfolded statics_new_def statics.simps, OF wsim_second_open]
  have "win_process wsim_os wsim_init wsim_both (wsim_init\<lparr>ws_handles := [8, 4], ws_started := 2, ws_error := 10035\<rparr>)"
    by (simp only: wsim_both_def statics.simps)
  from win_runtime_once [OF this wsim_runtime_contract] show ?thesis by blast
qed

end
