(* ===== verification/Win_Serial.thy ===== *)
theory Win_Serial
  imports Win_Sim Serial_Transport
begin

text \<open>
  \<^verbatim>\<open>serial_transport.cpp\<close>, Windows branch: the serial line over \<^verbatim>\<open>CreateFile\<close>, \<^verbatim>\<open>ReadFile\<close> and \<^verbatim>\<open>WriteFile\<close>. The object and
  the options are those of \<open>Serial_Transport\<close>; the native helpers and the methods, which call them, are the
  Windows build's. Theorems: the stream contract, no handle leak, WriteAll always returns and writes all or
  fails, and what narrowing a size to a \<^verbatim>\<open>DWORD\<close> does to inputs of 4 GiB and more.
\<close>

unbundle bit_operations_syntax

section \<open>The native helpers\<close>

definition OpenNativeSerial_win :: "'w win32 \<Rightarrow> SerialTransportOptions \<Rightarrow> 'w \<Rightarrow> HANDLE \<times> 'w" where
  "OpenNativeSerial_win wos options w =
     win_CreateFileA wos (ser_deviceName options)
       (c_GENERIC_READ (wc wos) OR c_GENERIC_WRITE (wc wos)) 0 (c_OPEN_EXISTING (wc wos)) 0 w"

definition CloseNativeSerial_win :: "'w win32 \<Rightarrow> HANDLE \<Rightarrow> 'w \<Rightarrow> 'w" where
  "CloseNativeSerial_win wos handle w = snd (win_CloseHandle wos handle w)"

definition NativeRead_win :: "'w win32 \<Rightarrow> HANDLE \<Rightarrow> buffer \<Rightarrow> size_t \<Rightarrow> 'w \<Rightarrow> read_result \<times> 'w" where
  "NativeRead_win wos handle output outputSize w =
     (case win_ReadFile wos handle (ucast outputSize) w of
        ((ok, received, bytes), w1) \<Rightarrow>
          (let output' = copy_to bytes output
           in if \<not> ok then ((ReadFailed, 0, output'), w1)
              else ((Ok, ucast received, output'), w1)))"

text \<open>The loop of \<^verbatim>\<open>NativeWriteAll\<close>; a system that reports more than it was given could make it go round for ever.\<close>

partial_function (option) write_file_loop ::
  "'w win32 \<Rightarrow> HANDLE \<Rightarrow> byte list \<Rightarrow> size_t \<Rightarrow> size_t \<Rightarrow> 'w \<Rightarrow> (TransportStatus \<times> 'w) option" where
  "write_file_loop wos handle input inputSize written w =
     (if written < inputSize then
        (case win_WriteFile wos handle (drop (unat written) input) (ucast (inputSize - written)) w of
           ((ok, chunk), w1) \<Rightarrow>
             (if \<not> ok then Some (WriteFailed, w1)
              else if chunk = 0 then Some (WriteFailed, w1)
              else write_file_loop wos handle input inputSize (written + ucast chunk) w1))
      else Some (Ok, w))"

definition NativeWriteAll_win ::
  "'w win32 \<Rightarrow> HANDLE \<Rightarrow> buffer \<Rightarrow> size_t \<Rightarrow> 'w \<Rightarrow> (TransportStatus \<times> 'w) option" where
  "NativeWriteAll_win wos handle input inputSize w = write_file_loop wos handle (mem_of input) inputSize 0 w"

text \<open>The object keeps the handle as an \<^verbatim>\<open>intptr_t\<close>.\<close>

definition StoreNativeHandle_win :: "HANDLE \<Rightarrow> int" where
  "StoreNativeHandle_win handle = sint handle"

definition LoadNativeHandle_win :: "int \<Rightarrow> HANDLE" where
  "LoadNativeHandle_win handle = word_of_int handle"

lemma handle_roundtrip [simp]:
  "LoadNativeHandle_win (StoreNativeHandle_win h) = h"
  by (simp add: LoadNativeHandle_win_def StoreNativeHandle_win_def)

lemma store_invalid [simp]:
  "StoreNativeHandle_win INVALID_HANDLE_VALUE = kInvalidSerialHandle"
  "StoreNativeHandle_win h = kInvalidSerialHandle \<longleftrightarrow> h = INVALID_HANDLE_VALUE"
proof -
  show inv: "StoreNativeHandle_win INVALID_HANDLE_VALUE = kInvalidSerialHandle"
    by (simp add: StoreNativeHandle_win_def)
  show "StoreNativeHandle_win h = kInvalidSerialHandle \<longleftrightarrow> h = INVALID_HANDLE_VALUE"
    using inv handle_roundtrip by metis
qed

lemma store_invalid_commuted [simp]:
  "kInvalidSerialHandle = StoreNativeHandle_win h \<longleftrightarrow> h = INVALID_HANDLE_VALUE"
  using store_invalid(2) by metis

section \<open>Methods\<close>

definition SerialTransport_new_win :: "SerialTransportOptions \<Rightarrow> SerialTransport" where
  "SerialTransport_new_win options =
     \<lparr>ser_options = options, ser_handle = StoreNativeHandle_win INVALID_HANDLE_VALUE, ser_open = False\<rparr>"

definition SerialTransport_Open_win ::
  "'w win32 \<Rightarrow> SerialTransport \<Rightarrow> 'w \<Rightarrow> TransportStatus \<times> SerialTransport \<times> 'w" where
  "SerialTransport_Open_win wos t w =
     (if ser_open t then (AlreadyOpen, t, w)
      else if \<not> OptionsAreValid (ser_options t) then (InvalidArgument, t, w)
      else (case OpenNativeSerial_win wos (ser_options t) w of
        (handle, w1) \<Rightarrow>
          (if handle = INVALID_HANDLE_VALUE then (OpenFailed, t, w1)
           else (Ok, t\<lparr>ser_handle := StoreNativeHandle_win handle, ser_open := True\<rparr>, w1))))"

definition SerialTransport_Close_win ::
  "'w win32 \<Rightarrow> SerialTransport \<Rightarrow> 'w \<Rightarrow> TransportStatus \<times> SerialTransport \<times> 'w" where
  "SerialTransport_Close_win wos t w =
     (let w1 = (if ser_handle t \<noteq> StoreNativeHandle_win INVALID_HANDLE_VALUE
                then CloseNativeSerial_win wos (LoadNativeHandle_win (ser_handle t)) w else w)
      in (Ok, t\<lparr>ser_handle := StoreNativeHandle_win INVALID_HANDLE_VALUE, ser_open := False\<rparr>, w1))"

definition SerialTransport_ReadSome_win ::
  "'w win32 \<Rightarrow> buffer \<Rightarrow> size_t \<Rightarrow> SerialTransport \<Rightarrow> 'w \<Rightarrow> read_result \<times> SerialTransport \<times> 'w" where
  "SerialTransport_ReadSome_win wos output outputSize t w =
     (if \<not> ser_open t then ((NotOpen, 0, output), t, w)
      else if output = None \<and> outputSize \<noteq> 0 then ((InvalidArgument, 0, output), t, w)
      else if outputSize = 0 then ((Ok, 0, output), t, w)
      else (case NativeRead_win wos (LoadNativeHandle_win (ser_handle t)) output outputSize w of
              (r, w1) \<Rightarrow> (r, t, w1)))"

definition SerialTransport_WriteAll_win ::
  "'w win32 \<Rightarrow> buffer \<Rightarrow> size_t \<Rightarrow> SerialTransport \<Rightarrow> 'w \<Rightarrow>
   (TransportStatus \<times> SerialTransport \<times> 'w) option" where
  "SerialTransport_WriteAll_win wos input inputSize t w =
     (if \<not> ser_open t then Some (NotOpen, t, w)
      else if input = None \<and> inputSize \<noteq> 0 then Some (InvalidArgument, t, w)
      else if inputSize = 0 then Some (Ok, t, w)
      else (case NativeWriteAll_win wos (LoadNativeHandle_win (ser_handle t)) input inputSize w of
              None \<Rightarrow> None
            | Some (status, w1) \<Rightarrow> Some (status, t, w1)))"

definition SerialTransport_destroy_win :: "'w win32 \<Rightarrow> SerialTransport \<Rightarrow> 'w \<Rightarrow> 'w" where
  "SerialTransport_destroy_win wos t w = snd (snd (SerialTransport_Close_win wos t w))"

definition SerialTransport_methods_win :: "'w win32 \<Rightarrow> (SerialTransport \<times> 'w) IByteStream" where
  "SerialTransport_methods_win wos =
     \<lparr>vOpen = (\<lambda>(t, w). SerialTransport_Open_win wos t w),
      vClose = (\<lambda>(t, w). SerialTransport_Close_win wos t w),
      vIsOpen = (\<lambda>(t, w). SerialTransport_IsOpen t),
      vReadSome = (\<lambda>output outputSize (t, w). SerialTransport_ReadSome_win wos output outputSize t w),
      vWriteAll = (\<lambda>input inputSize (t, w). SerialTransport_WriteAll_win wos input inputSize t w)\<rparr>"

lemma SerialTransport_methods_win_simps [simp]:
  "vOpen (SerialTransport_methods_win wos) (t, w) = SerialTransport_Open_win wos t w"
  "vClose (SerialTransport_methods_win wos) (t, w) = SerialTransport_Close_win wos t w"
  "vIsOpen (SerialTransport_methods_win wos) (t, w) = SerialTransport_IsOpen t"
  "vReadSome (SerialTransport_methods_win wos) output n (t, w) = SerialTransport_ReadSome_win wos output n t w"
  "vWriteAll (SerialTransport_methods_win wos) input n (t, w) = SerialTransport_WriteAll_win wos input n t w"
  by (simp_all add: SerialTransport_methods_win_def)

section \<open>The write loop\<close>

text \<open>
  One write hands over at most the low 32 bits of what remains, so it leaves the part of the remainder above
  them alone; the loop ends when the low part is used up.
\<close>

lemma unat_ucast_dword: "unat (ucast (n :: size_t) :: DWORD) = unat n mod 2 ^ 32"
  by (simp add: unsigned_ucast_eq take_bit_eq_mod)

lemma unat_ucast_size: "unat (ucast (c :: DWORD) :: size_t) = unat c"
  by (rule unat_ucast_uint32)

lemma dword_advance:
  fixes written n :: size_t
  assumes "written < n" and "c \<le> (ucast (n - written) :: DWORD)"
  shows "unat (written + ucast c) = unat written + unat c"
    and "unat c \<le> (unat n - unat written) mod 2 ^ 32"
    and "unat written + unat c \<le> unat n"
proof -
  have sub: "unat (n - written) = unat n - unat written"
    using assms(1) by (intro unat_sub) (rule less_imp_le)
  show c: "unat c \<le> (unat n - unat written) mod 2 ^ 32"
    using assms(2) unfolding word_le_nat_alt unat_ucast_dword sub .
  also have "\<dots> \<le> unat n - unat written" by simp
  finally show le: "unat written + unat c \<le> unat n"
    using assms(1) by (simp add: word_less_nat_alt)
  have "unat n < 2 ^ 64" using unsigned_less [of n, where ?'a = nat] by simp
  with le show "unat (written + ucast c) = unat written + unat c"
    by (simp add: unat_word_ariths unat_ucast_size)
qed

lemma mod_remainder_step:
  assumes "c \<le> r mod (m :: nat)" shows "(r - c) mod m = r mod m - c"
proof -
  have "r - c = r div m * m + (r mod m - c)"
    using assms div_mult_mod_eq [of r m] by linarith
  moreover have "(r mod m - c) mod m = r mod m - c"
    by (cases "m = 0") (simp_all add: less_imp_diff_less)
  ultimately show ?thesis by (metis mod_mult_self3)
qed

lemma write_file_loop_result:
  assumes "write_file_contract wos h out" and "written \<le> n"
  shows "\<exists>st w' k. write_file_loop wos h input n written w = Some (st, w') \<and>
    k \<le> (unat n - unat written) mod 2 ^ 32 \<and> out w' = out w @ take k (drop (unat written) input) \<and>
    (st = Ok \<longrightarrow> k = unat n - unat written) \<and> st \<in> {Ok, WriteFailed}"
  using assms(2)
proof (induction "unat n - unat written" arbitrary: written w rule: less_induct)
  case less
  show ?case
  proof (cases "written < n")
    case False
    with less.prems have "written = n" by simp
    then show ?thesis by (intro exI [of _ Ok] exI [of _ w] exI [of _ 0]) (simp add: write_file_loop.simps)
  next
    case True
    obtain ok c w1 where wr: "win_WriteFile wos h (drop (unat written) input) (ucast (n - written)) w = ((ok, c), w1)"
      by (metis surj_pair)
    from write_file_contractD [OF assms(1) wr] have c: "c \<le> ucast (n - written)"
      and out: "out w1 = out w @ take (unat c) (drop (unat written) input)" by simp_all
    note adv = dword_advance [OF True c]
    show ?thesis
    proof (cases "ok \<and> c \<noteq> 0")
      case False
      then have "write_file_loop wos h input n written w = Some (WriteFailed, w1)"
        using True wr by (auto simp: write_file_loop.simps)
      then show ?thesis using adv(2) out by blast
    next
      case go: True
      then have "0 < unat c" by (simp add: unat_gt_0)
      then have "unat n - unat (written + ucast c) < unat n - unat written"
        using adv(1,3) by linarith
      moreover have "written + ucast c \<le> n" using adv(1,3) by (simp add: word_le_nat_alt)
      ultimately obtain st w' k where IH:
        "write_file_loop wos h input n (written + ucast c) w1 = Some (st, w')"
        "k \<le> (unat n - (unat written + unat c)) mod 2 ^ 32"
        "out w' = out w1 @ take k (drop (unat written + unat c) input)"
        "st = Ok \<longrightarrow> k = unat n - (unat written + unat c)" "st \<in> {Ok, WriteFailed}"
        using less.hyps [of "written + ucast c" w1] unfolding adv(1) by blast
      have "k + unat c \<le> (unat n - unat written) mod 2 ^ 32"
        using IH(2) adv(2) mod_remainder_step [OF adv(2)] by (simp only: diff_diff_left)
      moreover have "out w' = out w @ take (unat c + k) (drop (unat written) input)"
        using IH(3) out by (simp add: take_add add.commute [of "unat written"])
      moreover have "write_file_loop wos h input n written w = Some (st, w')"
        using True wr go IH(1) by (simp add: write_file_loop.simps [of wos h input n written w])
      ultimately show ?thesis
        using IH(4,5) adv(3) by (intro exI [of _ st] exI [of _ w'] exI [of _ "unat c + k"]) auto
    qed
  qed
qed

text \<open>
  C25. WriteAll on an open serial line of the Windows build returns for every input, with no assumption on
  progress: a prefix of the input leaves in order, Ok means the whole input left, and any other
  outcome is WriteFailed. The prefix is at most the input's size modulo \<open>2^32\<close>, because the size of a
  write is narrowed to 32 bits: an input of 4 GiB or more is never written, the call reports WriteFailed.
\<close>

theorem win_serial_write_all:
  assumes "ser_open t" and "unat n \<le> length input"
    and "write_file_contract wos (LoadNativeHandle_win (ser_handle t)) out"
  shows "\<exists>st w' k. SerialTransport_WriteAll_win wos (Some input) n t w = Some (st, t, w') \<and>
    k \<le> unat n mod 2 ^ 32 \<and> out w' = out w @ take k input \<and> (st = Ok \<longrightarrow> k = unat n) \<and>
    st \<in> {Ok, WriteFailed} \<and> (2 ^ 32 \<le> unat n \<longrightarrow> st = WriteFailed)"
proof (cases "n = 0")
  case True
  with assms(1) show ?thesis
    by (intro exI [of _ Ok] exI [of _ w] exI [of _ 0]) (simp add: SerialTransport_WriteAll_win_def)
next
  case False
  from write_file_loop_result [OF assms(3), of 0 n input w] obtain st w' k where
    loop: "write_file_loop wos (LoadNativeHandle_win (ser_handle t)) input n 0 w = Some (st, w')"
    and k: "k \<le> unat n mod 2 ^ 32" "out w' = out w @ take k input" "st = Ok \<longrightarrow> k = unat n" "st \<in> {Ok, WriteFailed}"
    by auto
  have "unat n mod 2 ^ 32 < 2 ^ 32" by simp
  then have "2 ^ 32 \<le> unat n \<longrightarrow> st = WriteFailed" using k by auto
  then show ?thesis
    using loop k False assms(1) by (auto simp: SerialTransport_WriteAll_win_def NativeWriteAll_win_def)
qed

definition wsim_serial :: SerialTransport where
  "wsim_serial = \<lparr>ser_options = sim_serial_options\<lparr>ser_deviceName := ''COM3''\<rparr>, ser_handle = 4, ser_open = True\<rparr>"

theorem win_serial_write_all_witness:
  "\<exists>st w' k. SerialTransport_WriteAll_win wsim_os (Some [1, 2, 3, 4, 5, 6]) 6 wsim_serial wsim_init =
       Some (st, wsim_serial, w') \<and> ws_out w' = take k [1, 2, 3, 4, 5, 6] \<and> (st = Ok \<longrightarrow> k = 6)"
  using win_serial_write_all [of wsim_serial 6 "[1, 2, 3, 4, 5, 6]" wsim_os, OF _ _ wsim_write_file_contract, of wsim_init]
  by (auto simp: wsim_serial_def wsim_init_def)

section \<open>Ownership and lifecycle\<close>

definition win_ser_owns :: "('w \<Rightarrow> HANDLE set) \<Rightarrow> HANDLE set \<Rightarrow> SerialTransport \<Rightarrow> 'w \<Rightarrow> bool" where
  "win_ser_owns handles base t w \<longleftrightarrow>
     (if ser_open t
      then (\<exists>h. h \<noteq> INVALID_HANDLE_VALUE \<and> ser_handle t = StoreNativeHandle_win h \<and> h \<notin> base \<and> handles w = insert h base)
      else ser_handle t = kInvalidSerialHandle \<and> handles w = base)"

definition win_ser_invar :: "'w win32 \<Rightarrow> ('w \<Rightarrow> HANDLE set) \<Rightarrow> HANDLE set \<Rightarrow> SerialTransport \<times> 'w \<Rightarrow> bool" where
  "win_ser_invar wos handles base s \<longleftrightarrow> file_contract wos handles \<and> win_ser_owns handles base (fst s) (snd s)"

lemma win_Open_owns:
  assumes "SerialTransport_Open_win wos t w = (st, t', w')" and "file_contract wos handles"
    and "win_ser_owns handles base t w"
  shows "win_ser_owns handles base t' w' \<and> (\<not> ser_open t \<longrightarrow> (ser_open t' \<longleftrightarrow> st = Ok))"
proof (cases "ser_open t \<or> \<not> OptionsAreValid (ser_options t)")
  case True
  with assms(1,3) show ?thesis by (auto simp: SerialTransport_Open_win_def split: if_splits)
next
  case False
  obtain h w1 where cr: "OpenNativeSerial_win wos (ser_options t) w = (h, w1)" by fastforce
  from yields_handleD [OF file_contractD(1) [OF assms(2)] cr [unfolded OpenNativeSerial_win_def]]
  show ?thesis
    using False assms(1,3) cr by (auto simp: SerialTransport_Open_win_def win_ser_owns_def split: if_splits)
qed

lemma win_Close_owns:
  assumes "SerialTransport_Close_win wos t w = (st, t', w')" and "file_contract wos handles"
    and "win_ser_owns handles base t w"
  shows "st = Ok \<and> win_ser_owns handles base t' w' \<and> \<not> ser_open t' \<and> (\<not> ser_open t \<longrightarrow> t' = t \<and> w' = w)"
proof -
  have "handles (CloseNativeSerial_win wos h w) = handles w - {h}" for h w
    using file_contractD(2) [OF assms(2)] by (simp add: CloseNativeSerial_win_def)
  then show ?thesis
    using assms(1,3) by (auto simp: SerialTransport_Close_win_def Let_def win_ser_owns_def split: if_splits)
qed

lemma win_ReadSome_keeps:
  assumes "SerialTransport_ReadSome_win wos out n t w = (r, t', w')" and "file_contract wos handles"
  shows "t' = t \<and> handles w' = handles w"
  using assms(1) unfolding SerialTransport_ReadSome_win_def NativeRead_win_def Let_def
  by (auto split: prod.splits if_splits dest!: keepsD [OF file_contractD(3) [OF assms(2)]])

lemma win_ReadSome_frame:
  assumes "SerialTransport_ReadSome_win wos out n t w = ((st, k, out'), t', w')"
    and "file_contract wos handles" and "grants out n"
  shows "buffer_frame n k out out' \<and> (st \<noteq> Ok \<longrightarrow> k = 0 \<and> out' = out)"
proof (cases "ser_open t \<and> n \<noteq> 0 \<and> out \<noteq> None")
  case False
  then show ?thesis
    using assms(1) by (cases "ser_open t"; cases out; cases "n = 0") (auto simp: SerialTransport_ReadSome_win_def)
next
  case True
  then obtain buf where buf: "out = Some buf" "unat n \<le> length buf" using assms(3) by auto
  obtain ok r bs w1 where rd: "win_ReadFile wos (LoadNativeHandle_win (ser_handle t)) (ucast n) w = ((ok, r, bs), w1)"
    by (metis surj_pair)
  have "unat r \<le> unat n" if "r \<le> (ucast n :: DWORD)"
  proof -
    have "unat r \<le> unat n mod 2 ^ 32" using that unfolding word_le_nat_alt unat_ucast_dword .
    also have "\<dots> \<le> unat n" by simp
    finally show ?thesis .
  qed
  then show ?thesis
    using assms(1) True buf rd file_contract_read [OF assms(2) rd]
    by (cases ok) (auto simp: SerialTransport_ReadSome_win_def NativeRead_win_def Let_def unat_ucast_size)
qed

lemma write_file_loop_keeps:
  assumes "write_file_loop wos h input n written w = Some (st, w')" and "file_contract wos handles" and "written \<le> n"
  shows "handles w' = handles w"
  using assms(1,3)
proof (induction "unat n - unat written" arbitrary: written w rule: less_induct)
  case less
  show ?case
  proof (cases "written < n")
    case False
    with less.prems show ?thesis by (simp add: write_file_loop.simps)
  next
    case True
    obtain ok c w1 where wr: "win_WriteFile wos h (drop (unat written) input) (ucast (n - written)) w = ((ok, c), w1)"
      by (metis surj_pair)
    note keep = keepsD [OF file_contractD(4) [OF assms(2)] wr]
    note adv = dword_advance [OF True file_contract_write [OF assms(2) wr]]
    show ?thesis
    proof (cases "ok \<and> c \<noteq> 0")
      case False
      with less.prems(1) True wr keep show ?thesis by (auto simp: write_file_loop.simps split: if_splits)
    next
      case go: True
      then have "0 < unat c" by (simp add: unat_gt_0)
      moreover have "write_file_loop wos h input n (written + ucast c) w1 = Some (st, w')"
        using less.prems(1) True wr go by (simp add: write_file_loop.simps [of wos h input n written w])
      ultimately have "handles w' = handles w1"
        using adv by (intro less.hyps [of "written + ucast c"]) (auto simp: word_le_nat_alt)
      with keep show ?thesis by simp
    qed
  qed
qed

lemma win_WriteAll_keeps:
  assumes "SerialTransport_WriteAll_win wos input n t w = Some (st, t', w')" and "file_contract wos handles"
  shows "t' = t \<and> handles w' = handles w"
  using assms(1) write_file_loop_keeps [OF _ assms(2)]
  by (auto simp: SerialTransport_WriteAll_win_def NativeWriteAll_win_def split: if_splits option.splits)

lemma win_ser_invar_cong:
  "win_ser_invar wos handles base (t, w) \<Longrightarrow> t' = t \<and> handles w' = handles w \<Longrightarrow> win_ser_invar wos handles base (t', w')"
  by (auto simp only: win_ser_invar_def win_ser_owns_def fst_conv snd_conv)

interpretation win_serial: byte_stream "SerialTransport_methods_win wos" "win_ser_invar wos handles base"
  for wos :: "'w win32" and handles :: "'w \<Rightarrow> HANDLE set" and base :: "HANDLE set"
proof (unfold_locales; (simp only: split_paired_all SerialTransport_methods_win_simps SerialTransport_IsOpen_def)?)
  fix t :: SerialTransport and w :: 'w and st t' w' out n k out' r
  assume inv: "win_ser_invar wos handles base (t, w)"
  then have D: "file_contract wos handles" "win_ser_owns handles base t w" by (simp_all add: win_ser_invar_def)
  show "ser_open t \<Longrightarrow> SerialTransport_Open_win wos t w = (AlreadyOpen, t, w)"
    by (simp add: SerialTransport_Open_win_def)
  show "\<not> ser_open t \<Longrightarrow> SerialTransport_Open_win wos t w = (st, t', w') \<Longrightarrow> ser_open t' = (st = Ok)"
    using win_Open_owns [OF _ D] by metis
  show "SerialTransport_Close_win wos t w = (st, t', w') \<Longrightarrow> st = Ok \<and> \<not> ser_open t'"
    using win_Close_owns [OF _ D] by metis
  show "\<not> ser_open t \<Longrightarrow> SerialTransport_Close_win wos t w = (Ok, t, w)"
    using win_Close_owns [OF _ D] by (metis prod_cases3)
  show "SerialTransport_Open_win wos t w = (st, t', w') \<Longrightarrow> win_ser_invar wos handles base (t', w')"
    using win_Open_owns [OF _ D] D by (simp add: win_ser_invar_def)
  show "SerialTransport_Close_win wos t w = (st, t', w') \<Longrightarrow> win_ser_invar wos handles base (t', w')"
    using win_Close_owns [OF _ D] D by (simp add: win_ser_invar_def)
  show "\<not> ser_open t \<Longrightarrow> SerialTransport_ReadSome_win wos out n t w = ((NotOpen, 0, out), t, w)"
    "ser_open t \<Longrightarrow> n \<noteq> 0 \<Longrightarrow> SerialTransport_ReadSome_win wos None n t w = ((InvalidArgument, 0, None), t, w)"
    by (simp_all add: SerialTransport_ReadSome_win_def)
  show "grants out n \<Longrightarrow> unat n < 2 ^ 31 \<Longrightarrow>
      SerialTransport_ReadSome_win wos out n t w = ((st, k, out'), t', w') \<Longrightarrow>
      buffer_frame n k out out' \<and> (st \<noteq> Ok \<longrightarrow> k = 0 \<and> out' = out)"
    using win_ReadSome_frame [OF _ D(1)] by metis
  show "SerialTransport_ReadSome_win wos out n t w = ((st, k, out'), t', w') \<Longrightarrow> ser_open t' \<longrightarrow> ser_open t"
    using win_ReadSome_keeps [OF _ D(1)] by metis
  show "SerialTransport_ReadSome_win wos out n t w = ((st, k, out'), t', w') \<Longrightarrow>
      st \<noteq> ConnectionClosed \<Longrightarrow> ser_open t' = ser_open t"
    using win_ReadSome_keeps [OF _ D(1)] by metis
  show "\<not> ser_open t \<Longrightarrow> SerialTransport_WriteAll_win wos out n t w = Some (NotOpen, t, w)"
    "ser_open t \<Longrightarrow> n \<noteq> 0 \<Longrightarrow> SerialTransport_WriteAll_win wos None n t w = Some (InvalidArgument, t, w)"
    by (simp_all add: SerialTransport_WriteAll_win_def)
  show "SerialTransport_WriteAll_win wos out n t w = Some (st, t', w') \<Longrightarrow> ser_open t' = ser_open t"
    using win_WriteAll_keeps [OF _ D(1)] by metis
  show "SerialTransport_ReadSome_win wos out n t w = (r, t', w') \<Longrightarrow> win_ser_invar wos handles base (t', w')"
    using win_ser_invar_cong [OF inv win_ReadSome_keeps [OF _ D(1)]] .
  show "SerialTransport_WriteAll_win wos out n t w = Some (st, t', w') \<Longrightarrow> win_ser_invar wos handles base (t', w')"
    using win_ser_invar_cong [OF inv win_WriteAll_keeps [OF _ D(1)]] .
qed

text \<open>
  Whatever a client does with a serial line of the Windows build, in any order and number of calls: while it
  is open the process holds exactly one handle more than before, while it is closed none more, it is
  open only after a successful Open with no Close after it, and the destructor gives the handle back. The
  conversions between \<^verbatim>\<open>HANDLE\<close> and the stored \<^verbatim>\<open>intptr_t\<close> lose nothing on the way.
\<close>

theorem win_serial_session_no_leak:
  assumes "stream_run (SerialTransport_methods_win wos) calls (SerialTransport_new_win options, w) = Some (log, t, w')"
    and "file_contract wos handles"
  shows "(if SerialTransport_IsOpen t
          then LoadNativeHandle_win (ser_handle t) \<notin> handles w \<and>
               handles w' = insert (LoadNativeHandle_win (ser_handle t)) (handles w)
          else handles w' = handles w) \<and>
    (SerialTransport_IsOpen t \<longrightarrow> opened_last log) \<and>
    handles (SerialTransport_destroy_win wos t w') = handles w"
proof -
  have init: "win_ser_invar wos handles (handles w) (SerialTransport_new_win options, w)"
    using assms(2) by (simp add: win_ser_invar_def win_ser_owns_def SerialTransport_new_win_def)
  have owns: "win_ser_owns handles (handles w) t w'"
    using win_serial.run_invar [OF init assms(1)] by (simp add: win_ser_invar_def)
  obtain st t2 w2 where close: "SerialTransport_Close_win wos t w' = (st, t2, w2)" using prod_cases3 by blast
  have "handles w2 = handles w" using win_Close_owns [OF close assms(2) owns] by (simp add: win_ser_owns_def)
  moreover have "SerialTransport_IsOpen t \<Longrightarrow> opened_last log"
    using win_serial.is_open_only_after_open [OF init _ assms(1)]
    by (simp add: SerialTransport_IsOpen_def SerialTransport_new_win_def)
  ultimately show ?thesis
    using owns close by (auto simp: win_ser_owns_def SerialTransport_IsOpen_def SerialTransport_destroy_win_def)
qed

lemma wsim_serial_session:
  "stream_run (SerialTransport_methods_win wsim_os) [CallOpen, CallReadSome (Some [0, 0, 0]) 3, CallOpen]
     (SerialTransport_new_win (ser_options wsim_serial), wsim_init\<lparr>ws_in := [[7, 8]]\<rparr>) =
   Some ([(CallOpen, Ok), (CallReadSome (Some [0, 0, 0]) 3, Ok), (CallOpen, AlreadyOpen)],
     wsim_serial, wsim_init\<lparr>ws_handles := [4]\<rparr>)"
  by (simp add: wsim_eval wsim_serial_def sim_serial_options_def SerialTransportOptions_new_def SerialTransport_new_win_def
      SerialTransport_Open_win_def OpenNativeSerial_win_def OptionsAreValid_def SerialTransport_ReadSome_win_def
      NativeRead_win_def StoreNativeHandle_win_def)

theorem win_serial_session_no_leak_witness:
  "wsim_set (wsim_init\<lparr>ws_handles := [4]\<rparr>) = insert 4 (wsim_set (wsim_init\<lparr>ws_in := [[7, 8]]\<rparr>)) \<and>
   wsim_set (SerialTransport_destroy_win wsim_os wsim_serial (wsim_init\<lparr>ws_handles := [4]\<rparr>)) =
     wsim_set (wsim_init\<lparr>ws_in := [[7, 8]]\<rparr>)"
  using win_serial_session_no_leak [OF wsim_serial_session wsim_file_contract]
  by (simp add: SerialTransport_IsOpen_def wsim_serial_def LoadNativeHandle_win_def)

end
