(* ===== verification/Win_Discovery.thy ===== *)
theory Win_Discovery
  imports Win_Serial Serial_Discovery
begin







section \<open>What is listed\<close>














end
