(* ===== verification/Spec2Isabelle.thy ===== *)
theory Spec2Isabelle
  imports Fake_Transport Iec62056_21 Tcp_Server Udp_Transport Serial_Transport Serial_Discovery Tls_Stream
    Event_Loop Timer_Trace Transport_C_Api Non_Blocking Loop_Writer Stream_Pair Win_Process Win_Discovery
begin

text \<open>
  A verification development for dlms-transport, the byte-transport layer of a DLMS/COSEM stack: byte
  streams (TCP client, TCP listener with accepted streams, serial line, TLS over a lower stream), datagrams
  (UDP), a timer, a manual event loop, the IEC 62056-21 mode E sign-on helper, scripted fakes for tests, tracing,
  serial port discovery, and a C interface over it all. Sources are under \<^verbatim>\<open>include/dlms/transport\<close> (headers) and
  \<^verbatim>\<open>src/transport\<close> (implementation).

  \<^bold>\<open>How the code is modelled.\<close> A class is a record of its fields; a method is a function that takes the
  object (and what it acts on) and returns the status, the out-parameters and the object updated. An enum is a
  datatype. Machine integers keep their width (\<open>size_t\<close> is a 64-bit word, ports are 16 bits, durations 32 bits); the
  narrowing casts the sources apply to sizes are the functions \<open>size_to_int\<close>, \<open>int_to_size\<close> and \<open>ssize_to_int\<close>. A nullable
  pointer is an option; memory behind a buffer pointer is a byte list that is returned as it is afterwards, so that
  statements about what a call did not touch can be made. Virtual classes are records of their methods. A loop that may
  run for ever is a partial function into option, \<open>None\<close> being that it does not return (\<open>write_loop\<close>, \<open>read_ports\<close>,
  \<open>write_file_loop\<close>); no fuel is used anywhere. Where a method is one source text for the POSIX and the Windows build, it is
  modelled once, over a system; the \<^verbatim>\<open>_WIN32\<close> branches are modelled apart (suffix \<open>_win\<close>).

  \<^bold>\<open>What is a parameter.\<close> The operating system: a record \<open>os\<close> of the POSIX calls and constants the sources use, acting on an
  opaque world (theory \<open>Posix_Os\<close>); what is relied on of it is stated there as named contracts, on observations of the
  world (the descriptors the process holds, the live address lists, the bytes that left through a descriptor, the
  datagrams that wait). Likewise the Windows calls (\<open>Win32_Os\<close>), the clock, the directory calls, the TLS backends and the user's callbacks.
  \<open>Posix_Sim\<close> and \<open>Win_Sim\<close> hold small executable systems that keep the contracts; the concrete instances of the theorems run on
  them.

  \<^bold>\<open>Theories.\<close>
  \<^item> \<open>Transport_Prelude\<close>: machine types, casts, caller-owned buffers and their frame condition, strings.
  \<^item> \<open>Transport_Status\<close>: \<^verbatim>\<open>transport_status.hpp\<close>.
  \<^item> \<open>Transport_Interfaces\<close>: \<^verbatim>\<open>byte_stream.hpp\<close>, \<^verbatim>\<open>datagram_transport.hpp\<close>, \<^verbatim>\<open>timer_scheduler.hpp\<close> as method tables; the contracts of
    their comments as the locales \<open>endpoint\<close>, \<open>byte_stream\<close>, \<open>datagram_transport\<close>, \<open>timer_scheduler\<close>; client sessions and
    what follows for any implementation (close is idempotent, an endpoint is open only after a successful Open with no Close
    after it, invariants hold over whole sessions).
  \<^item> \<open>Fake_Transport\<close>: \<^verbatim>\<open>fake_transport.hpp\<close>; reads refine a byte queue, draining returns the script, datagram boundaries are kept.
  \<^item> \<open>Iec62056_21\<close>: \<^verbatim>\<open>iec62056_21_mode_e.hpp/.cpp\<close>; which identifications are accepted, the round trip, baud rate selection as a
    minimum, the whole sign-on.
  \<^item> \<open>Posix_Os\<close>, \<open>Socket_Helpers\<close>, \<open>Posix_Sim\<close>: the system, the helper functions of the socket files, the write loop with its
    induction rule, soundness, termination and divergence lemmas, and the simulated system.
  \<^item> \<open>Tcp_Stream\<close>: \<^verbatim>\<open>tcp_stream_transport.hpp/.cpp\<close>; Open leaks nothing on any path, ownership of one descriptor over whole sessions,
    reads deliver exactly what was received, WriteAll writes all or fails, returns when the system makes progress and
    spins when it does not, and what the narrowing of sizes does to huge reads.
  \<^item> \<open>Tcp_Server\<close>: \<^verbatim>\<open>tcp_server_transport.hpp/.cpp\<close>; the file's helper copies equal the client's, accepted streams are client streams,
    Open and Accept are balanced, and a step relation of a listener with its connections whose reachable states own
    exactly their descriptors.
  \<^item> \<open>Udp_Transport\<close>: \<^verbatim>\<open>udp_transport.hpp/.cpp\<close>; Open with its nested resolutions, whole datagrams in and out, ownership.
  \<^item> \<open>Serial_Transport\<close>, \<open>Serial_Discovery\<close>: \<^verbatim>\<open>serial_transport.hpp/.cpp\<close> and \<^verbatim>\<open>serial_port_discovery.hpp/.cpp\<close>.
  \<^item> \<open>Tls_Stream\<close>: \<^verbatim>\<open>tls_stream_transport.hpp/.cpp\<close> as a client of the stream contract, instantiated with TCP below.
  \<^item> \<open>Event_Loop\<close>: \<^verbatim>\<open>transport_event_loop.hpp\<close>; the interface as the locale \<open>event_loop\<close> with a client that registers and removes
    handlers, tokens, dispatch order, one-shot timers, callbacks that change the loop.
  \<^item> \<open>Timer_Trace\<close>: \<^verbatim>\<open>timer_scheduler.cpp\<close> and \<^verbatim>\<open>transport_trace.hpp\<close>.
  \<^item> \<open>Transport_C_Api\<close>: \<^verbatim>\<open>transport_c_api.h/.cpp\<close>; codes, and that a C session on a TCP, serial or UDP handle is the
    C++ session, with the same statuses, byte counts and buffers (the locales \<open>c_stream_handle\<close> and \<open>c_datagram_handle\<close> say when entry points forward).
  \<^item> \<open>Non_Blocking\<close>: \<^verbatim>\<open>non_blocking_byte_stream.hpp\<close>, \<^verbatim>\<open>non_blocking_datagram_transport.hpp\<close> and the two classes of their contract
    test; resumed writes leave no gap, and the blocking contracts are not changed.
  \<^item> \<open>Loop_Writer\<close>: the event loop driving a non-blocking sender from registration to completion; its client unregisters
    the callback between dispatches, never from inside it.
  \<^item> \<open>Stream_Pair\<close>: a client stream and an accepted stream as the ends of one connection that may fail, delay or lose its
    tail at any time; what the reads at one end delivered is what the other end's WriteAll calls wrote, in order.
  \<^item> \<open>Win32_Os\<close>, \<open>Win_Sim\<close>: the Windows calls with their contracts, and a simulated system.
  \<^item> \<open>Win_Sockets\<close>: the \<^verbatim>\<open>_WIN32\<close> branches of the three socket files; \<open>winsock\<close> presents the Windows calls as a system for the
    shared methods, the Windows helpers are equal to the shared ones on it, no
    socket leaks, and where Windows differs (pending datagrams, refused connects).
  \<^item> \<open>Win_Sessions\<close>: the listener with its connections, and the datagram transport, over whole sessions of the Windows build.
  \<^item> \<open>Win_Process\<close>: the three start-up statics of a whole Windows process; each file starts the socket library at most once, and
    the end of the process gives every start-up back.
  \<^item> \<open>Win_Serial\<close>, \<open>Win_Discovery\<close>: the \<^verbatim>\<open>_WIN32\<close> branches of the serial line and of the port discovery.

  \<^bold>\<open>Bounds.\<close> The socket streams keep their contracts for sizes below \<open>2^31\<close>, the range of the int they convert sizes to; the serial
  line for every size on POSIX, and below \<open>2^32\<close> on Windows, where a write is narrowed to 32 bits. Datagrams are at most
  65535 bytes. Event loop tokens are fresh while the 32-bit counter is below its maximum. The system timer is exact up to the end of a 63-bit nanosecond clock.

  \<^bold>\<open>Not modelled.\<close> Undefined behaviour outside the model's reach (a descriptor above \<^verbatim>\<open>FD_SETSIZE\<close> in \<^verbatim>\<open>FD_SET\<close>, a callback
  destroying the function object it runs in); exceptions from allocation outside the C interface; concurrent use of one object,
  and the order in which the statics of a Windows process are destroyed; tests other than the non-blocking fakes, build files.

  \<^bold>\<open>Next.\<close> The TLS stream over an accepted stream and over a serial line, and the C interface of the Windows build.
\<close>

end
